(* ===== verification/Prelude.thy ===== *)
theory Prelude
  imports Main "HOL-Library.State_Monad"
begin

text \<open>
  The prelude of the development: the state monad in which every effectful operation of the
  program is written, the weakest-precondition rules that let the simplifier execute such
  operations symbolically (collection \<open>wp\<close>), and the functions of Go's \<open>strings\<close> package
  the program calls, on strings as lists of bytes.
\<close>

section \<open>Weakest preconditions for the state monad\<close>

named_theorems wp "rules that compute the weakest precondition of a state-monad program"

definition wp :: "('s, 'a) state \<Rightarrow> ('a \<Rightarrow> 's \<Rightarrow> bool) \<Rightarrow> 's \<Rightarrow> bool" where
  "wp m Q s \<longleftrightarrow> (case run_state m s of (a, t) \<Rightarrow> Q a t)"

lemma wp_return [wp, simp]: "wp (State_Monad.return a) Q s \<longleftrightarrow> Q a s"
  by (simp add: wp_def State_Monad.return_def)

lemma wp_bind [wp, simp]: "wp (State_Monad.bind m f) Q s \<longleftrightarrow> wp m (\<lambda>a. wp (f a) Q) s"
  by (simp add: wp_def State_Monad.bind_def split: prod.splits)

lemma wp_get [wp, simp]: "wp State_Monad.get Q s \<longleftrightarrow> Q s s"
  by (simp add: wp_def State_Monad.get_def)

lemma wp_set [wp, simp]: "wp (State_Monad.set t) Q s \<longleftrightarrow> Q () t"
  by (simp add: wp_def State_Monad.set_def)

lemma wp_update [wp, simp]: "wp (State_Monad.update f) Q s \<longleftrightarrow> Q () (f s)"
  by (simp add: wp_def State_Monad.update_def State_Monad.get_def State_Monad.set_def
      State_Monad.bind_def)

lemma wp_State [wp, simp]: "wp (State f) Q s \<longleftrightarrow> (case f s of (a, t) \<Rightarrow> Q a t)"
  by (simp add: wp_def)

lemma wp_if [wp]: "wp (if b then m else n) Q s \<longleftrightarrow> (if b then wp m Q s else wp n Q s)"
  by simp

lemma wp_mono: "wp m P s \<Longrightarrow> (\<And>a t. P a t \<Longrightarrow> Q a t) \<Longrightarrow> wp m Q s"
  by (auto simp: wp_def split: prod.splits)

lemma wp_conj: "wp m (\<lambda>a t. P a t \<and> Q a t) s \<longleftrightarrow> wp m P s \<and> wp m Q s"
  by (auto simp: wp_def split: prod.splits)

lemma wp_const [simp]: "wp m (\<lambda>a t. P) s \<longleftrightarrow> P"
  by (simp add: wp_def split: prod.splits)

lemma wp_runD: "wp m Q s \<Longrightarrow> run_state m s = (a, t) \<Longrightarrow> Q a t"
  by (simp add: wp_def)

lemma wp_runI: "(\<And>a t. run_state m s = (a, t) \<Longrightarrow> Q a t) \<Longrightarrow> wp m Q s"
  by (simp add: wp_def split: prod.splits)

lemma run_state_eq_wp: "run_state m s = (a, t) \<longleftrightarrow> wp m (\<lambda>b u. b = a \<and> u = t) s"
  by (auto simp: wp_def split: prod.splits)

section \<open>Running on concrete states\<close>

named_theorems run "equations that execute a state-monad program"

lemma run_return [run]: "run_state (State_Monad.return a) s = (a, s)"
  by (simp add: State_Monad.return_def)

lemma run_bind [run]:
  "run_state (State_Monad.bind m f) s = (case run_state m s of (a, t) \<Rightarrow> run_state (f a) t)"
  by (simp add: State_Monad.bind_def)

lemma run_get [run]: "run_state State_Monad.get s = (s, s)"
  by (simp add: State_Monad.get_def)

lemma run_set [run]: "run_state (State_Monad.set t) s = ((), t)"
  by (simp add: State_Monad.set_def)

lemma run_update [run]: "run_state (State_Monad.update f) s = ((), f s)"
  by (simp add: State_Monad.update_def State_Monad.get_def State_Monad.set_def
      State_Monad.bind_def)

section \<open>Results of Go functions\<close>

text \<open>
  A Go function returning \<open>(T, error)\<close> is modelled with the sum type \<open>'e + 'a\<close>:
  \<open>Inl\<close> carries a non-nil error, \<open>Inr\<close> the value. \<open>andThen\<close> is the \<open>if err != nil { return err }\<close>
  idiom inside a stateful program.
\<close>

definition andThen ::
  "('s, 'e + 'a) state \<Rightarrow> ('a \<Rightarrow> ('s, 'e + 'b) state) \<Rightarrow> ('s, 'e + 'b) state" where
  "andThen m f = State_Monad.bind m
     (\<lambda>r. case r of Inl e \<Rightarrow> State_Monad.return (Inl e) | Inr a \<Rightarrow> f a)"

lemma wp_andThen [wp, simp]:
  "wp (andThen m f) Q s \<longleftrightarrow>
   wp m (\<lambda>r t. case r of Inl e \<Rightarrow> Q (Inl e) t | Inr a \<Rightarrow> wp (f a) Q t) s"
proof -
  have "(\<lambda>r. wp (case r of Inl e \<Rightarrow> State_Monad.return (Inl e) | Inr a \<Rightarrow> f a) Q)
      = (\<lambda>r t. case r of Inl e \<Rightarrow> Q (Inl e) t | Inr a \<Rightarrow> wp (f a) Q t)"
    by (simp add: fun_eq_iff split: sum.splits)
  then show ?thesis unfolding andThen_def wp_bind by (rule arg_cong)
qed

lemma run_andThen [run]:
  "run_state (andThen m f) s = (case run_state m s of
     (Inl e, t) \<Rightarrow> (Inl e, t) | (Inr a, t) \<Rightarrow> run_state (f a) t)"
  by (simp add: andThen_def run split: prod.splits sum.splits)

definition map_err :: "('e \<Rightarrow> 'f) \<Rightarrow> 'e + 'a \<Rightarrow> 'f + 'a" where
  "map_err g r = (case r of Inl e \<Rightarrow> Inl (g e) | Inr a \<Rightarrow> Inr a)"

lemma map_err_simps [simp]: "map_err g (Inl e) = Inl (g e)" "map_err g (Inr a) = Inr a"
  by (simp_all add: map_err_def)

definition opt_err :: "'e option \<Rightarrow> 'e + unit" where
  "opt_err r = (case r of Some e \<Rightarrow> Inl e | None \<Rightarrow> Inr ())"

lemma opt_err_simps [simp]: "opt_err (Some e) = Inl e" "opt_err None = Inr ()"
  by (simp_all add: opt_err_def)

section \<open>Relations between the state before and after\<close>

definition guar :: "('s \<Rightarrow> 's \<Rightarrow> bool) \<Rightarrow> ('s, 'a) state \<Rightarrow> bool" where
  "guar R m \<longleftrightarrow> (\<forall>s. wp m (\<lambda>_ t. R s t) s)"

lemma guarI: "(\<And>s a t. run_state m s = (a, t) \<Longrightarrow> R s t) \<Longrightarrow> guar R m"
  by (simp add: guar_def wp_runI)

lemma guarD: "guar R m \<Longrightarrow> run_state m s = (a, t) \<Longrightarrow> R s t"
  by (auto simp: guar_def dest: wp_runD)

locale guaranteed =
  fixes R :: "'s \<Rightarrow> 's \<Rightarrow> bool"
  assumes refl: "R s s"
    and trans: "R s t \<Longrightarrow> R t u \<Longrightarrow> R s u"
begin

lemma g_return: "guar R (State_Monad.return a)"
  by (simp add: guar_def refl)

lemma g_bind: "guar R m \<Longrightarrow> (\<And>a. guar R (f a)) \<Longrightarrow> guar R (State_Monad.bind m f)"
  by (rule guarI) (auto simp: run split: prod.splits dest: guarD intro: trans)

lemma g_andThen: "guar R m \<Longrightarrow> (\<And>a. guar R (f a)) \<Longrightarrow> guar R (andThen m f)"
  unfolding andThen_def by (intro g_bind) (auto split: sum.splits intro: g_return)

lemma g_get: "guar R State_Monad.get"
  by (simp add: guar_def refl)

end

section \<open>Go strings\<close>

fun has_prefix :: "string \<Rightarrow> string \<Rightarrow> bool" where
  "has_prefix s [] = True"
| "has_prefix [] (c # cs) = False"
| "has_prefix (x # xs) (c # cs) = (x = c \<and> has_prefix xs cs)"

lemma has_prefix_append [simp]: "has_prefix (p @ s) p"
  by (induction p) auto

lemma has_prefix_iff: "has_prefix s p \<longleftrightarrow> (\<exists>r. s = p @ r)"
  by (induction s p rule: has_prefix.induct) auto

definition cut_prefix :: "string \<Rightarrow> string \<Rightarrow> string option" where
  "cut_prefix s p = (if has_prefix s p then Some (drop (length p) s) else None)"

lemma cut_prefix_append [simp]: "cut_prefix (p @ s) p = Some s"
  by (simp add: cut_prefix_def)

lemma cut_prefix_Some: "cut_prefix s p = Some r \<longleftrightarrow> s = p @ r"
  by (auto simp: cut_prefix_def has_prefix_iff split: if_splits)

text \<open>\<open>strings.TrimPrefix\<close>.\<close>

definition trim_prefix :: "string \<Rightarrow> string \<Rightarrow> string" where
  "trim_prefix s p = (case cut_prefix s p of Some r \<Rightarrow> r | None \<Rightarrow> s)"

lemma trim_prefix_append [simp]: "trim_prefix (p @ s) p = s"
  by (simp add: trim_prefix_def)

text \<open>\<open>strings.Split s [c]\<close> with a one-byte separator: never empty.\<close>

fun split_on :: "char \<Rightarrow> string \<Rightarrow> string list" where
  "split_on c [] = [[]]"
| "split_on c (x # xs) =
     (if x = c then [] # split_on c xs
      else case split_on c xs of (w # ws) \<Rightarrow> (x # w) # ws | [] \<Rightarrow> [[x]])"

lemma split_on_ne [simp]: "split_on c s \<noteq> []"
  by (induction s) (auto split: list.splits)

lemma split_on_no_sep: "w \<in> set (split_on c s) \<Longrightarrow> c \<notin> set w"
proof (induction s arbitrary: w)
  case Nil
  then show ?case by simp
next
  case (Cons x xs)
  show ?case
  proof (cases "split_on c xs")
    case Nil
    then show ?thesis by simp
  next
    case (Cons v vs)
    with Cons.IH [of v] Cons.IH [of w] Cons.prems show ?thesis
      by (auto split: if_splits)
  qed
qed

lemma split_on_subset: "w \<in> set (split_on c s) \<Longrightarrow> x \<in> set w \<Longrightarrow> x \<in> set s"
proof (induction s arbitrary: w)
  case (Cons y ys)
  obtain v vs where v: "split_on c ys = v # vs" by (cases "split_on c ys") auto
  with Cons.prems Cons.IH [of v] Cons.IH [of w] show ?case by (auto split: if_splits)
qed simp

text \<open>\<open>strings.Join ws [c]\<close>.\<close>

fun join_with :: "char \<Rightarrow> string list \<Rightarrow> string" where
  "join_with c [] = []"
| "join_with c [w] = w"
| "join_with c (w # v # vs) = w @ c # join_with c (v # vs)"

lemma split_on_cons_sep: "c \<notin> set w \<Longrightarrow> split_on c (w @ c # s) = w # split_on c s"
  by (induction w) auto

lemma split_on_single: "c \<notin> set w \<Longrightarrow> split_on c w = [w]"
  by (induction w) auto

lemma split_on_append: "split_on c (x @ c # y) = split_on c x @ split_on c y"
proof (induction x)
  case (Cons a x)
  obtain w ws where "split_on c x = w # ws" by (cases "split_on c x") auto
  with Cons show ?case by simp
qed simp

lemma split_join:
  "ws \<noteq> [] \<Longrightarrow> \<forall>w \<in> set ws. c \<notin> set w \<Longrightarrow> split_on c (join_with c ws) = ws"
  by (induction c ws rule: join_with.induct) (auto simp: split_on_single split_on_cons_sep)

lemma join_split: "join_with c (split_on c s) = s"
proof (induction s)
  case Nil
  then show ?case by simp
next
  case (Cons x xs)
  obtain w ws where w: "split_on c xs = w # ws" by (cases "split_on c xs") auto
  with Cons show ?case by (cases ws) auto
qed

text \<open>\<open>strings.Cut s [c]\<close>: the text before and after the first separator.\<close>

fun cut_at :: "char \<Rightarrow> string \<Rightarrow> (string \<times> string) option" where
  "cut_at c [] = None"
| "cut_at c (x # xs) =
     (if x = c then Some ([], xs)
      else case cut_at c xs of Some (a, b) \<Rightarrow> Some (x # a, b) | None \<Rightarrow> None)"

lemma cut_at_SomeD: "cut_at c s = Some (a, b) \<Longrightarrow> s = a @ c # b \<and> c \<notin> set a"
proof (induction s arbitrary: a)
  case Nil
  then show ?case by simp
next
  case (Cons x xs)
  show ?case
  proof (cases "x = c")
    case True
    with Cons.prems show ?thesis by simp
  next
    case False
    with Cons.prems obtain a' where "cut_at c xs = Some (a', b)" "a = x # a'"
      by (auto split: option.splits)
    with Cons.IH [of a'] False show ?thesis by simp
  qed
qed

lemma cut_at_append: "c \<notin> set a \<Longrightarrow> cut_at c (a @ c # b) = Some (a, b)"
  by (induction a) auto

lemma cut_at_Some: "cut_at c s = Some (a, b) \<longleftrightarrow> s = a @ c # b \<and> c \<notin> set a"
  using cut_at_SomeD cut_at_append by blast

lemma cut_at_None: "cut_at c s = None \<longleftrightarrow> c \<notin> set s"
  by (induction s) (auto split: option.splits)

text \<open>\<open>strings.Contains s sub\<close>.\<close>

fun contains :: "string \<Rightarrow> string \<Rightarrow> bool" where
  "contains [] sub = (sub = [])"
| "contains (x # xs) sub = (has_prefix (x # xs) sub \<or> contains xs sub)"

lemma contains_iff: "contains s sub \<longleftrightarrow> (\<exists>a b. s = a @ sub @ b)"
proof (induction s)
  case Nil
  then show ?case by simp
next
  case (Cons x xs)
  have "(\<exists>a b. x # xs = a @ sub @ b) \<longleftrightarrow>
        (\<exists>b. x # xs = sub @ b) \<or> (\<exists>a b. xs = a @ sub @ b)"
    by (metis (no_types, lifting) Cons_eq_append_conv append_Cons append_Nil)
  then show ?case by (simp add: Cons.IH has_prefix_iff)
qed

section \<open>Lists\<close>

text \<open>The rows of an indexed slice kept by a vector of verdicts, in order.\<close>

definition keep_flags :: "'a list \<Rightarrow> bool list \<Rightarrow> 'a list" where
  "keep_flags xs fs = map fst (filter snd (zip xs fs))"

lemma keep_flags_map [simp]: "keep_flags xs (map p xs) = filter p xs"
  by (induction xs) (auto simp: keep_flags_def)

lemma set_keep_flags: "x \<in> set (keep_flags xs fs) \<Longrightarrow> x \<in> set xs"
  by (auto simp: keep_flags_def dest: set_zip_leftD)

end
