(* ===== verification/Regex.thy ===== *)
theory Regex
  imports Prelude
begin

text \<open>
  The regular expressions the program compiles with \<open>regexp.MustCompile\<close>, as values of a
  datatype with an executable matcher (Brzozowski derivatives) and the language it decides.
  All patterns of the program are anchored at both ends, so a match is language membership.
\<close>

datatype re = Zero | One | Cls "char \<Rightarrow> bool" | Alt re re | Seq re re | Star re

fun nullable :: "re \<Rightarrow> bool" where
  "nullable Zero = False"
| "nullable One = True"
| "nullable (Cls p) = False"
| "nullable (Alt r s) = (nullable r \<or> nullable s)"
| "nullable (Seq r s) = (nullable r \<and> nullable s)"
| "nullable (Star r) = True"

fun deriv :: "char \<Rightarrow> re \<Rightarrow> re" where
  "deriv c Zero = Zero"
| "deriv c One = Zero"
| "deriv c (Cls p) = (if p c then One else Zero)"
| "deriv c (Alt r s) = Alt (deriv c r) (deriv c s)"
| "deriv c (Seq r s) =
     (if nullable r then Alt (Seq (deriv c r) s) (deriv c s) else Seq (deriv c r) s)"
| "deriv c (Star r) = Seq (deriv c r) (Star r)"

fun re_match :: "re \<Rightarrow> string \<Rightarrow> bool" where
  "re_match r [] = nullable r"
| "re_match r (c # cs) = re_match (deriv c r) cs"

abbreviation Plus :: "re \<Rightarrow> re" where "Plus r \<equiv> Seq r (Star r)"
abbreviation Opt :: "re \<Rightarrow> re" where "Opt r \<equiv> Alt One r"

fun re_times :: "nat \<Rightarrow> re \<Rightarrow> re" where
  "re_times 0 r = One"
| "re_times (Suc n) r = Seq r (re_times n r)"

section \<open>The language\<close>

inductive in_star :: "(string \<Rightarrow> bool) \<Rightarrow> string \<Rightarrow> bool" for P where
  star_nil: "in_star P []"
| star_step: "P a \<Longrightarrow> in_star P b \<Longrightarrow> in_star P (a @ b)"

fun lang :: "re \<Rightarrow> string \<Rightarrow> bool" where
  "lang Zero w = False"
| "lang One w = (w = [])"
| "lang (Cls p) w = (\<exists>c. p c \<and> w = [c])"
| "lang (Alt r s) w = (lang r w \<or> lang s w)"
| "lang (Seq r s) w = (\<exists>a b. w = a @ b \<and> lang r a \<and> lang s b)"
| "lang (Star r) w = in_star (lang r) w"

lemma nullable_lang: "nullable r \<longleftrightarrow> lang r []"
  by (induction r) (auto intro: star_nil)

lemma in_star_Cons: "in_star P (c # w) \<longleftrightarrow> (\<exists>a b. w = a @ b \<and> P (c # a) \<and> in_star P b)"
proof
  assume "in_star P (c # w)"
  then show "\<exists>a b. w = a @ b \<and> P (c # a) \<and> in_star P b"
  proof (induction "c # w" arbitrary: w rule: in_star.induct)
    case (star_step a b)
    show ?case
    proof (cases a)
      case Nil
      with star_step show ?thesis by simp
    next
      case (Cons x xs)
      with star_step show ?thesis by auto
    qed
  qed
next
  assume "\<exists>a b. w = a @ b \<and> P (c # a) \<and> in_star P b"
  then show "in_star P (c # w)" using star_step [of P] by (metis append_Cons)
qed

lemma seq_Cons: "(\<exists>a b. c # w = a @ b \<and> P a \<and> Q b) \<longleftrightarrow>
   (P [] \<and> Q (c # w)) \<or> (\<exists>a b. w = a @ b \<and> P (c # a) \<and> Q b)"
proof
  assume "\<exists>a b. c # w = a @ b \<and> P a \<and> Q b"
  then obtain a b where h: "c # w = a @ b" "P a" "Q b" by blast
  then show "(P [] \<and> Q (c # w)) \<or> (\<exists>a b. w = a @ b \<and> P (c # a) \<and> Q b)"
    by (cases a) auto
next
  assume "(P [] \<and> Q (c # w)) \<or> (\<exists>a b. w = a @ b \<and> P (c # a) \<and> Q b)"
  then show "\<exists>a b. c # w = a @ b \<and> P a \<and> Q b"
    by (metis append_Cons append_Nil)
qed

lemma deriv_lang: "lang (deriv c r) w \<longleftrightarrow> lang r (c # w)"
proof (induction r arbitrary: w)
  case (Seq r s)
  have step: "lang (Seq r s) (c # w) \<longleftrightarrow> (nullable r \<and> lang s (c # w)) \<or>
      (\<exists>a b. w = a @ b \<and> lang r (c # a) \<and> lang s b)"
    unfolding lang.simps(5) seq_Cons [of c w "lang r" "lang s"] nullable_lang [of r] ..
  show ?case
  proof (cases "nullable r")
    case True
    then have "lang (deriv c (Seq r s)) w \<longleftrightarrow>
        (\<exists>a b. w = a @ b \<and> lang (deriv c r) a \<and> lang s b) \<or> lang (deriv c s) w" by simp
    with True show ?thesis unfolding step Seq.IH by blast
  next
    case False
    then have "lang (deriv c (Seq r s)) w \<longleftrightarrow>
        (\<exists>a b. w = a @ b \<and> lang (deriv c r) a \<and> lang s b)" by simp
    with False show ?thesis unfolding step Seq.IH by blast
  qed
next
  case (Star r)
  then show ?case by (simp add: in_star_Cons)
qed auto

theorem re_match_lang: "re_match r w \<longleftrightarrow> lang r w"
  by (induction w arbitrary: r) (simp_all add: nullable_lang deriv_lang)

lemma in_star_Cls [simp]: "in_star (lang (Cls p)) w \<longleftrightarrow> list_all p w"
  by (induction w) (auto simp: in_star_Cons intro: star_nil)

lemma lang_Star_Cls [simp]: "lang (Star (Cls p)) w \<longleftrightarrow> list_all p w"
  by (simp only: lang.simps(6) in_star_Cls)

lemma lang_Seq_Cls:
  "lang (Seq (Cls p) r) w \<longleftrightarrow> (case w of [] \<Rightarrow> False | c # cs \<Rightarrow> p c \<and> lang r cs)"
  by (cases w) (simp_all, metis append_Cons append_Nil list.inject)

lemma lang_Plus_Cls: "lang (Plus (Cls p)) w \<longleftrightarrow> w \<noteq> [] \<and> list_all p w"
  unfolding lang_Seq_Cls by (cases w) (simp_all del: lang.simps)

lemma lang_times_Cls: "lang (re_times n (Cls p)) w \<longleftrightarrow> length w = n \<and> list_all p w"
proof (induction n arbitrary: w)
  case (Suc n)
  then show ?case unfolding re_times.simps lang_Seq_Cls by (cases w) auto
qed auto

end
