(* ===== verification/GoStd.thy ===== *)
theory GoStd
  imports Prelude
begin

text \<open>
  The parts of Go's standard library whose result the program depends on, written out:
  \<open>strconv.Itoa\<close>/\<open>Atoi\<close>/\<open>ParseInt\<close> (64-bit range included), \<open>encoding/base64\<close> (padded
  standard alphabet and unpadded URL alphabet), \<open>net/url.PathUnescape\<close>, the rune iteration of
  \<open>unicode/utf8\<close>. Bytes are HOL characters; \<open>of_char\<close> reads their value below 256.
\<close>

section \<open>Decimal integers\<close>

definition digit_char :: "nat \<Rightarrow> char" where
  "digit_char n = char_of (48 + n)"

fun nat_digits :: "nat \<Rightarrow> string" where
  "nat_digits n = (if n < 10 then [digit_char n] else nat_digits (n div 10) @ [digit_char (n mod 10)])"

declare nat_digits.simps [simp del]

definition itoa :: "int \<Rightarrow> string" where
  "itoa i = (if i < 0 then CHR ''-'' # nat_digits (nat (- i)) else nat_digits (nat i))"

definition digit_val :: "char \<Rightarrow> nat option" where
  "digit_val c = (let v = of_char c in if 48 \<le> v \<and> v \<le> (57::nat) then Some (v - 48) else None)"

fun parse_digits :: "nat \<Rightarrow> string \<Rightarrow> nat option" where
  "parse_digits acc [] = Some acc"
| "parse_digits acc (c # cs) =
     (case digit_val c of None \<Rightarrow> None | Some d \<Rightarrow> parse_digits (10 * acc + d) cs)"

text \<open>\<open>strconv.Atoi\<close> and \<open>strconv.ParseInt(s, 10, 64)\<close>: \<open>None\<close> is a syntax or range error.\<close>

definition atoi :: "string \<Rightarrow> int option" where
  "atoi s = (case s of [] \<Rightarrow> None | c # cs \<Rightarrow>
     (let neg = (c = CHR ''-'');
          ds = (if c = CHR ''-'' \<or> c = CHR ''+'' then cs else s)
      in if ds = [] then None
         else case parse_digits 0 ds of None \<Rightarrow> None
         | Some n \<Rightarrow> (let v = (if neg then - int n else int n)
                      in if - (2 ^ 63) \<le> v \<and> v < 2 ^ 63 then Some v else None)))"

lemma digit_val_char: "d < 10 \<Longrightarrow> digit_val (digit_char d) = Some d"
  by (simp add: digit_val_def digit_char_def)

lemma parse_digits_append:
  "parse_digits acc (xs @ ys) = (case parse_digits acc xs of None \<Rightarrow> None | Some a \<Rightarrow> parse_digits a ys)"
  by (induction xs arbitrary: acc) (auto split: option.splits)

lemma parse_nat_digits: "parse_digits 0 (nat_digits n) = Some n"
proof (induction n rule: nat_digits.induct)
  case (1 n)
  then show ?case
    by (subst nat_digits.simps) (auto simp: digit_val_char parse_digits_append)
qed

lemma nat_digits_ne [simp]: "nat_digits n \<noteq> []"
  by (subst nat_digits.simps) simp

lemma hd_nat_digits: "\<exists>d<10. hd (nat_digits n) = digit_char d"
proof (induction n rule: nat_digits.induct)
  case (1 n)
  show ?case
  proof (cases "n < 10")
    case True
    then show ?thesis by (subst nat_digits.simps) auto
  next
    case False
    with 1 show ?thesis by (subst nat_digits.simps) auto
  qed
qed

lemma of_digit_char [simp]: "d < 10 \<Longrightarrow> (of_char (digit_char d) :: nat) = 48 + d"
  by (simp add: digit_char_def)

lemma digit_char_not_sign:
  assumes "d < 10" shows "digit_char d \<noteq> CHR ''-''" "digit_char d \<noteq> CHR ''+''"
proof -
  have "(of_char (CHR ''-'') :: nat) = 45" "(of_char (CHR ''+'') :: nat) = 43" by simp_all
  with of_digit_char [OF assms] show "digit_char d \<noteq> CHR ''-''" "digit_char d \<noteq> CHR ''+''"
    by fastforce+
qed

lemma atoi_itoa: "- (2 ^ 63) \<le> i \<Longrightarrow> i < 2 ^ 63 \<Longrightarrow> atoi (itoa i) = Some i"
proof (cases "i < 0")
  case True
  assume "- (2 ^ 63) \<le> i" "i < 2 ^ 63"
  with True show ?thesis by (simp add: atoi_def itoa_def parse_nat_digits Let_def)
next
  case False
  assume r: "- (2 ^ 63) \<le> i" "i < 2 ^ 63"
  obtain c cs where eq: "nat_digits (nat i) = c # cs" by (cases "nat_digits (nat i)") auto
  with hd_nat_digits [of "nat i"] digit_char_not_sign have "c \<noteq> CHR ''-''" "c \<noteq> CHR ''+''" by fastforce+
  with False r eq parse_nat_digits [of "nat i"] show ?thesis
    by (simp add: atoi_def itoa_def Let_def)
qed

section \<open>Base64\<close>

definition b64_char :: "bool \<Rightarrow> nat \<Rightarrow> char" where
  "b64_char url n = (if n < 26 then char_of (65 + n) else if n < 52 then char_of (71 + n)
     else if n < 62 then char_of (n - 4)
     else if n = 62 then (if url then CHR ''-'' else CHR ''+'')
     else (if url then CHR ''_'' else CHR ''/''))"

definition b64_val :: "bool \<Rightarrow> char \<Rightarrow> nat option" where
  "b64_val url c = (let v = of_char c in
     if 65 \<le> v \<and> v \<le> 90 then Some (v - 65)
     else if 97 \<le> v \<and> v \<le> 122 then Some (v - 71)
     else if 48 \<le> v \<and> v \<le> 57 then Some (v + 4)
     else if c = (if url then CHR ''-'' else CHR ''+'') then Some 62
     else if c = (if url then CHR ''_'' else CHR ''/'') then Some 63
     else None)"

text \<open>\<open>url = True\<close> is \<open>base64.RawURLEncoding\<close> (no padding), \<open>url = False\<close> \<open>base64.StdEncoding\<close>.\<close>

fun b64_encode :: "bool \<Rightarrow> string \<Rightarrow> string" where
  "b64_encode url [] = []"
| "b64_encode url [a] =
     [b64_char url (of_char a div 4), b64_char url (of_char a mod 4 * 16)] @
     (if url then [] else ''=='')"
| "b64_encode url [a, b] =
     [b64_char url (of_char a div 4),
      b64_char url (of_char a mod 4 * 16 + of_char b div 16),
      b64_char url (of_char b mod 16 * 4)] @ (if url then [] else ''='')"
| "b64_encode url (a # b # c # rest) =
     [b64_char url (of_char a div 4),
      b64_char url (of_char a mod 4 * 16 + of_char b div 16),
      b64_char url (of_char b mod 16 * 4 + of_char c div 64),
      b64_char url (of_char c mod 64)] @ b64_encode url rest"

definition b64_one :: "bool \<Rightarrow> char \<Rightarrow> char \<Rightarrow> string option" where
  "b64_one url a b = (case (b64_val url a, b64_val url b) of
     (Some x, Some y) \<Rightarrow> Some [char_of (x * 4 + y div 16)] | _ \<Rightarrow> None)"

definition b64_two :: "bool \<Rightarrow> char \<Rightarrow> char \<Rightarrow> char \<Rightarrow> string option" where
  "b64_two url a b c = (case (b64_val url a, b64_val url b, b64_val url c) of
     (Some x, Some y, Some z) \<Rightarrow> Some [char_of (x * 4 + y div 16), char_of (y mod 16 * 16 + z div 4)]
   | _ \<Rightarrow> None)"

definition b64_three :: "bool \<Rightarrow> char \<Rightarrow> char \<Rightarrow> char \<Rightarrow> char \<Rightarrow> string option" where
  "b64_three url a b c e = (case (b64_val url a, b64_val url b, b64_val url c, b64_val url e) of
     (Some x, Some y, Some z, Some w) \<Rightarrow> Some [char_of (x * 4 + y div 16),
        char_of (y mod 16 * 16 + z div 4), char_of (z mod 4 * 64 + w)]
   | _ \<Rightarrow> None)"

fun b64_quanta :: "bool \<Rightarrow> string \<Rightarrow> string option" where
  "b64_quanta url [] = Some []"
| "b64_quanta url [a] = None"
| "b64_quanta url [a, b] = (if url then b64_one url a b else None)"
| "b64_quanta url [a, b, c] = (if url then b64_two url a b c else None)"
| "b64_quanta url (a # b # c # e # rest) =
     (if \<not> url \<and> e = CHR ''='' then
        (if rest \<noteq> [] then None
         else if c = CHR ''='' then b64_one url a b else b64_two url a b c)
      else case b64_three url a b c e of None \<Rightarrow> None
        | Some bs \<Rightarrow> map_option (\<lambda>r. bs @ r) (b64_quanta url rest))"

text \<open>Carriage returns and newlines are skipped wherever they stand.\<close>

definition b64_decode :: "bool \<Rightarrow> string \<Rightarrow> string option" where
  "b64_decode url s = b64_quanta url (filter (\<lambda>c. of_char c \<noteq> (10::nat) \<and> of_char c \<noteq> (13::nat)) s)"

lemma of_char_lt [simp]: "(of_char c :: nat) < 256"
  by (cases c) (simp add: of_char_Char horner_sum_simps)

lemma b64_val_char: "n < 64 \<Longrightarrow> b64_val url (b64_char url n) = Some n"
proof -
  assume "n < 64"
  then consider "n < 26" | "26 \<le> n" "n < 52" | "52 \<le> n" "n < 62" | "n = 62" | "n = 63" by linarith
  then show ?thesis
    by cases (auto simp: b64_val_def b64_char_def Let_def)
qed

lemma b64_char_plain: "n < 64 \<Longrightarrow>
  b64_char url n \<noteq> CHR ''='' \<and> of_char (b64_char url n) \<noteq> (10::nat) \<and> of_char (b64_char url n) \<noteq> (13::nat)"
proof -
  assume n: "n < 64"
  have v: "b64_val url (CHR ''='') = None" by (simp add: b64_val_def Let_def)
  have "b64_val url c = None" if "of_char c = (10::nat) \<or> of_char c = (13::nat)" for c
    using that by (auto simp: b64_val_def Let_def)
  with v b64_val_char [OF n, of url] show ?thesis by fastforce
qed

lemma b64_quot: "a < 256 \<Longrightarrow> a div 4 < (64::nat)" "a < 256 \<Longrightarrow> a div 16 < (16::nat)"
    "a < 256 \<Longrightarrow> a div 64 < (4::nat)"
  by (simp_all add: less_mult_imp_div_less)

lemma b64_rem: "a mod 4 < (4::nat)" "a mod 16 < (16::nat)" "a mod 64 < (64::nat)"
  by simp_all

lemma b64_bounds:
  assumes "a < 256" "b < 256"
  shows "a div 4 < (64::nat)" "a mod 4 * 16 < (64::nat)" "a mod 4 * 16 + b div 16 < (64::nat)"
    "a mod 16 * 4 < (64::nat)" "a mod 16 * 4 + b div 64 < (64::nat)" "a mod 64 < (64::nat)"
  using b64_quot [OF assms(1)] b64_quot [OF assms(2)] b64_rem [of a] by linarith+

lemma b64_glue: "q < k \<Longrightarrow> (x * k + q) div k = (x::nat)" "q < k \<Longrightarrow> (x * k + q) mod k = (q::nat)"
  by simp_all

lemma b64_parts:
  fixes a b :: nat assumes "b < 256"
  shows "a div 4 * 4 + (a mod 4 * 16 + b div 16) div 16 = a"
    "(a mod 4 * 16 + b div 16) mod 16 * 16 + (b mod 16 * 4) div 4 = b"
    "a div 4 * 4 + (a mod 4 * 16) div 16 = a"
  unfolding b64_glue [OF b64_quot(2) [OF assms]] by (simp_all add: div_mult_mod_eq)

lemma b64_parts3:
  fixes a b c :: nat assumes "b < 256" "c < 256"
  shows "(a mod 4 * 16 + b div 16) mod 16 * 16 + (b mod 16 * 4 + c div 64) div 4 = b"
    "(b mod 16 * 4 + c div 64) mod 4 * 64 + c mod 64 = c"
  unfolding b64_glue [OF b64_quot(2) [OF assms(1)]] b64_glue [OF b64_quot(3) [OF assms(2)]]
  by (simp_all add: div_mult_mod_eq)

lemma b64_one_rt: "b64_one url (b64_char url (of_char a div 4)) (b64_char url (of_char a mod 4 * 16)) = Some [a]"
proof -
  note l = of_char_lt [of a]
  have "b64_val url (b64_char url (of_char a div 4)) = Some (of_char a div 4)"
    "b64_val url (b64_char url (of_char a mod 4 * 16)) = Some (of_char a mod 4 * 16)"
    by (rule b64_val_char, rule b64_bounds [OF l l])+
  then show ?thesis unfolding b64_one_def by (simp only: option.case prod.case b64_parts(3) [OF l]) simp
qed

lemma b64_two_rt: "b64_two url (b64_char url (of_char a div 4))
    (b64_char url (of_char a mod 4 * 16 + of_char b div 16)) (b64_char url (of_char b mod 16 * 4)) = Some [a, b]"
proof -
  note l = of_char_lt [of a] of_char_lt [of b]
  have "b64_val url (b64_char url (of_char a div 4)) = Some (of_char a div 4)"
    "b64_val url (b64_char url (of_char a mod 4 * 16 + of_char b div 16)) = Some (of_char a mod 4 * 16 + of_char b div 16)"
    "b64_val url (b64_char url (of_char b mod 16 * 4)) = Some (of_char b mod 16 * 4)"
    by (rule b64_val_char, rule b64_bounds [OF l] b64_bounds [OF l(2) l(2)])+
  then show ?thesis unfolding b64_two_def by (simp only: option.case prod.case b64_parts [OF l(2)]) simp
qed

lemma b64_three_rt: "b64_three url (b64_char url (of_char a div 4))
    (b64_char url (of_char a mod 4 * 16 + of_char b div 16))
    (b64_char url (of_char b mod 16 * 4 + of_char c div 64)) (b64_char url (of_char c mod 64)) = Some [a, b, c]"
proof -
  note l = of_char_lt [of a] of_char_lt [of b] of_char_lt [of c]
  have "b64_val url (b64_char url (of_char a div 4)) = Some (of_char a div 4)"
    "b64_val url (b64_char url (of_char a mod 4 * 16 + of_char b div 16)) = Some (of_char a mod 4 * 16 + of_char b div 16)"
    "b64_val url (b64_char url (of_char b mod 16 * 4 + of_char c div 64)) = Some (of_char b mod 16 * 4 + of_char c div 64)"
    "b64_val url (b64_char url (of_char c mod 64)) = Some (of_char c mod 64)"
    by (rule b64_val_char, rule b64_bounds [OF l(1,2)] b64_bounds [OF l(2,3)] b64_bounds [OF l(3,3)])+
  then show ?thesis unfolding b64_three_def
    by (simp only: option.case prod.case b64_parts [OF l(2)] b64_parts3 [OF l(2,3)]) simp
qed

lemma b64_encode_chars: "c \<in> set (b64_encode url s) \<Longrightarrow> of_char c \<noteq> (10::nat) \<and> of_char c \<noteq> (13::nat)"
proof (induction url s rule: b64_encode.induct)
  case (2 url a)
  note g = b64_bounds [OF of_char_lt [of a] of_char_lt [of a]]
  from 2 b64_char_plain [OF g(1), of url] b64_char_plain [OF g(2), of url] show ?case
    by (auto split: if_splits)
next
  case (3 url a b)
  note g = b64_bounds [OF of_char_lt [of a] of_char_lt [of b]]
    and h = b64_bounds [OF of_char_lt [of b] of_char_lt [of b]]
  have "(of_char (CHR ''='') :: nat) \<noteq> 10 \<and> (of_char (CHR ''='') :: nat) \<noteq> 13" by simp
  moreover from 3 have "c = b64_char url (of_char a div 4)
      \<or> c = b64_char url (of_char a mod 4 * 16 + of_char b div 16)
      \<or> c = b64_char url (of_char b mod 16 * 4) \<or> c = CHR ''=''"
    by (cases url) (simp_all, elim disjE, simp_all)
  ultimately show ?case
    using b64_char_plain [OF g(1), of url] b64_char_plain [OF g(3), of url]
      b64_char_plain [OF h(4), of url] by metis
next
  case (4 url a b c rest)
  note g = b64_bounds [OF of_char_lt [of a] of_char_lt [of b]]
    and h = b64_bounds [OF of_char_lt [of b] of_char_lt [of c]]
    and k = b64_bounds [OF of_char_lt [of c] of_char_lt [of c]]
  from 4 b64_char_plain [OF g(1), of url] b64_char_plain [OF g(3), of url]
    b64_char_plain [OF h(5), of url] b64_char_plain [OF k(6), of url] show ?case
    by auto
qed simp

lemma b64_quanta_encode: "b64_quanta url (b64_encode url s) = Some s"
proof (induction url s rule: b64_encode.induct)
  case (2 url a)
  then show ?case by (cases url) (simp_all add: b64_one_rt)
next
  case (3 url a b)
  note g = b64_bounds [OF of_char_lt [of b] of_char_lt [of b]]
  from b64_char_plain [OF g(4), of url] show ?case
    by (cases url) (simp_all add: b64_two_rt)
next
  case (4 url a b c rest)
  note g = b64_bounds [OF of_char_lt [of c] of_char_lt [of c]]
  from b64_char_plain [OF g(6), of url] 4 show ?case by (simp add: b64_three_rt)
qed simp

lemma b64_decode_encode: "b64_decode url (b64_encode url s) = Some s"
proof -
  have "filter (\<lambda>c. of_char c \<noteq> (10::nat) \<and> of_char c \<noteq> (13::nat)) (b64_encode url s) = b64_encode url s"
    using b64_encode_chars by (simp add: filter_id_conv)
  then show ?thesis by (simp add: b64_decode_def b64_quanta_encode)
qed

section \<open>Percent decoding\<close>

definition hex_val :: "char \<Rightarrow> nat option" where
  "hex_val c = (let v = of_char c in
     if 48 \<le> v \<and> v \<le> 57 then Some (v - 48)
     else if 97 \<le> v \<and> v \<le> 102 then Some (v - 87)
     else if 65 \<le> v \<and> v \<le> 70 then Some (v - 55) else None)"

text \<open>\<open>url.PathUnescape\<close>: \<open>None\<close> is an \<open>EscapeError\<close>; a plus sign stays as it is.\<close>

fun path_unescape :: "string \<Rightarrow> string option" where
  "path_unescape [] = Some []"
| "path_unescape (x # xs) =
     (if x = CHR ''%'' then
        (case xs of a # b # rest \<Rightarrow>
           (case (hex_val a, hex_val b) of
              (Some h, Some l) \<Rightarrow> map_option (\<lambda>r. char_of (16 * h + l) # r) (path_unescape rest)
            | _ \<Rightarrow> None)
         | _ \<Rightarrow> None)
      else map_option (\<lambda>r. x # r) (path_unescape xs))"

lemma path_unescape_plain: "CHR ''%'' \<notin> set s \<Longrightarrow> path_unescape s = Some s"
  by (induction s) auto

section \<open>Runes\<close>

text \<open>
  One step of \<open>utf8.DecodeRuneInString\<close>: the rune at the head and the number of continuation
  bytes consumed with it. An ill-formed sequence is the replacement rune, one byte wide.
\<close>

definition rune_error :: "nat \<times> nat" where
  "rune_error = (65533, 0)"

definition cont :: "nat \<Rightarrow> bool" where
  "cont b \<longleftrightarrow> 128 \<le> b \<and> b \<le> 191"

definition decode_rune :: "nat \<Rightarrow> nat list \<Rightarrow> nat \<times> nat" where
  "decode_rune x bs =
    (if x < 128 then (x, 0)
     else if 194 \<le> x \<and> x \<le> 223 then
       (case bs of b # _ \<Rightarrow> if cont b then ((x - 192) * 64 + (b - 128), 1) else rune_error | [] \<Rightarrow> rune_error)
     else if 224 \<le> x \<and> x \<le> 239 then
       (case bs of b # c # _ \<Rightarrow>
          if (if x = 224 then 160 else 128) \<le> b \<and> b \<le> (if x = 237 then 159 else 191) \<and> cont c
          then ((x - 224) * 4096 + (b - 128) * 64 + (c - 128), 2) else rune_error
        | _ \<Rightarrow> rune_error)
     else if 240 \<le> x \<and> x \<le> 244 then
       (case bs of b # c # d # _ \<Rightarrow>
          if (if x = 240 then 144 else 128) \<le> b \<and> b \<le> (if x = 244 then 143 else 191) \<and> cont c \<and> cont d
          then ((x - 240) * 262144 + (b - 128) * 4096 + (c - 128) * 64 + (d - 128), 3) else rune_error
        | _ \<Rightarrow> rune_error)
     else rune_error)"

function runes_of :: "nat list \<Rightarrow> nat list" where
  "runes_of [] = []"
| "runes_of (x # bs) = fst (decode_rune x bs) # runes_of (drop (snd (decode_rune x bs)) bs)"
  by pat_completeness auto
termination by (relation "measure length") auto

definition runes :: "string \<Rightarrow> nat list" where
  "runes s = runes_of (map of_char s)"

definition rune_count :: "string \<Rightarrow> nat" where
  "rune_count s = length (runes s)"

lemma decode_rune_skips:
  "decode_rune x bs = (r, k) \<Longrightarrow> (r < 32 \<longleftrightarrow> x < 32) \<and> (\<forall>b \<in> set (take k bs). 32 \<le> b)"
  by (auto simp: decode_rune_def rune_error_def cont_def split: if_splits list.splits)

lemma runes_of_control: "(\<exists>r \<in> set (runes_of bs). r < 32) \<longleftrightarrow> (\<exists>b \<in> set bs. b < (32::nat))"
proof (induction bs rule: runes_of.induct)
  case 1
  then show ?case by simp
next
  case (2 x bs)
  obtain r k where rk: "decode_rune x bs = (r, k)" by force
  note skip = decode_rune_skips [OF rk]
  have "set bs = set (take k bs) \<union> set (drop k bs)"
    by (metis append_take_drop_id set_append)
  with skip have "(\<exists>b \<in> set bs. b < 32) \<longleftrightarrow> (\<exists>b \<in> set (drop k bs). b < 32)" by fastforce
  with skip 2 rk show ?case by auto
qed

lemma rune_count_le: "rune_count s \<le> length s"
proof -
  have "length (runes_of bs) \<le> length bs" for bs
    by (induction bs rule: runes_of.induct) auto
  then show ?thesis by (metis rune_count_def runes_def length_map)
qed

lemma runes_ascii: "\<forall>c \<in> set s. of_char c < (128::nat) \<Longrightarrow> rune_count s = length s"
proof -
  have "length (runes_of bs) = length bs" if "\<forall>b \<in> set bs. b < 128" for bs
    using that by (induction bs) (auto simp: decode_rune_def)
  then show "\<forall>c \<in> set s. of_char c < (128::nat) \<Longrightarrow> rune_count s = length s"
    by (simp add: rune_count_def runes_def)
qed

section \<open>Trimming and case folding\<close>

text \<open>The white space of \<open>unicode.IsSpace\<close>, each rune in its encoding.\<close>

definition space_runes :: "string list" where
  "space_runes = [
    [CHR 0x09], [CHR 0x0A], [CHR 0x0B], [CHR 0x0C], [CHR 0x0D], [CHR 0x20], [CHR 0xC2, CHR 0x85],
    [CHR 0xC2, CHR 0xA0], [CHR 0xE1, CHR 0x9A, CHR 0x80], [CHR 0xE2, CHR 0x80, CHR 0x80],
    [CHR 0xE2, CHR 0x80, CHR 0x81], [CHR 0xE2, CHR 0x80, CHR 0x82],
    [CHR 0xE2, CHR 0x80, CHR 0x83], [CHR 0xE2, CHR 0x80, CHR 0x84],
    [CHR 0xE2, CHR 0x80, CHR 0x85], [CHR 0xE2, CHR 0x80, CHR 0x86],
    [CHR 0xE2, CHR 0x80, CHR 0x87], [CHR 0xE2, CHR 0x80, CHR 0x88],
    [CHR 0xE2, CHR 0x80, CHR 0x89], [CHR 0xE2, CHR 0x80, CHR 0x8A],
    [CHR 0xE2, CHR 0x80, CHR 0xA8], [CHR 0xE2, CHR 0x80, CHR 0xA9],
    [CHR 0xE2, CHR 0x80, CHR 0xAF], [CHR 0xE2, CHR 0x81, CHR 0x9F],
    [CHR 0xE3, CHR 0x80, CHR 0x80]]"

fun drop_any :: "nat \<Rightarrow> string list \<Rightarrow> string \<Rightarrow> string" where
  "drop_any 0 ps s = s"
| "drop_any (Suc n) ps s =
     (case filter (has_prefix s) ps of [] \<Rightarrow> s | p # _ \<Rightarrow> drop_any n ps (drop (length p) s))"

text \<open>\<open>strings.TrimSpace\<close>: every step drops at least one byte, so the length is fuel enough.\<close>

definition trim_space :: "string \<Rightarrow> string" where
  "trim_space s = (let l = drop_any (length s) space_runes s
     in rev (drop_any (length l) (map rev space_runes) (rev l)))"

text \<open>\<open>strings.EqualFold\<close> against an ASCII word without \<open>k\<close> and \<open>s\<close>, the two letters that fold
  with a letter outside ASCII; \<open>ascii_lower\<close> is also \<open>strings.ToLower\<close> on ASCII.\<close>

definition ascii_lower :: "char \<Rightarrow> char" where
  "ascii_lower c = (if 65 \<le> (of_char c :: nat) \<and> (of_char c :: nat) \<le> 90 then char_of ((of_char c :: nat) + 32) else c)"

definition equal_fold :: "string \<Rightarrow> string \<Rightarrow> bool" where
  "equal_fold s t \<longleftrightarrow> map ascii_lower s = map ascii_lower t"

end
