(* ===== verification/Errors.thy ===== *)
theory Errors
  imports GoStd
begin

text \<open>
  Errors of the program. \<open>internal/errors\<close> declares six sentinels that the adapters wrap with
  \<open>fmt.Errorf("%w: ...")\<close>; \<open>serviceerr.ToStatus\<close> maps them to gRPC statuses. A Go \<open>error\<close> is a
  sentinel with the full text of the wrapped error, a gRPC status, or any other error.
\<close>

datatype sentinel = ErrNotFound | ErrAlreadyExists | ErrFailedPrecondition | ErrInvalidArg
  | ErrUnavailable | ErrInternal

datatype grpc_code = OK | Canceled | Unknown | InvalidArgument | DeadlineExceeded | NotFound
  | AlreadyExists | PermissionDenied | ResourceExhausted | FailedPrecondition | Aborted
  | OutOfRange | Unimplemented | Internal | Unavailable | DataLoss | Unauthenticated

datatype gerror = Sent sentinel string | GStatus grpc_code string | Raw string

fun sentinel_text :: "sentinel \<Rightarrow> string" where
  "sentinel_text ErrNotFound = ''not found''"
| "sentinel_text ErrAlreadyExists = ''already exists''"
| "sentinel_text ErrFailedPrecondition = ''failed precondition''"
| "sentinel_text ErrInvalidArg = ''invalid argument''"
| "sentinel_text ErrUnavailable = ''unavailable''"
| "sentinel_text ErrInternal = ''internal database error''"

text \<open>The bare sentinel, and \<open>fmt.Errorf("%w: " + m, sentinel)\<close>.\<close>

definition bare :: "sentinel \<Rightarrow> gerror" where
  "bare s = Sent s (sentinel_text s)"

definition wrapE :: "sentinel \<Rightarrow> string \<Rightarrow> gerror" where
  "wrapE s m = Sent s (sentinel_text s @ '': '' @ m)"

text \<open>\<open>errors.Is(err, sentinel)\<close>.\<close>

fun is_sentinel :: "gerror \<Rightarrow> sentinel \<Rightarrow> bool" where
  "is_sentinel (Sent s m) t = (s = t)"
| "is_sentinel (GStatus c m) t = False"
| "is_sentinel (Raw m) t = False"

lemma is_sentinel_bare [simp]: "is_sentinel (bare s) t \<longleftrightarrow> s = t"
  by (simp add: bare_def)

lemma is_sentinel_wrap [simp]: "is_sentinel (wrapE s m) t \<longleftrightarrow> s = t"
  by (simp add: wrapE_def)

section \<open>serviceerr\<close>

definition strip :: "string \<Rightarrow> sentinel \<Rightarrow> string" where
  "strip msg s = (case cut_prefix msg (sentinel_text s @ '': '') of Some rest \<Rightarrow> rest | None \<Rightarrow> msg)"

lemma strip_wrap [simp]: "strip (sentinel_text s @ '': '' @ m) s = m"
  using cut_prefix_append [of "sentinel_text s @ '': ''" m] by (simp add: strip_def)

definition internal_status :: gerror where
  "internal_status = GStatus Internal ''internal database error''"

fun sentinel_code :: "sentinel \<Rightarrow> grpc_code" where
  "sentinel_code ErrNotFound = NotFound"
| "sentinel_code ErrAlreadyExists = AlreadyExists"
| "sentinel_code ErrFailedPrecondition = FailedPrecondition"
| "sentinel_code ErrInvalidArg = InvalidArgument"
| "sentinel_code ErrUnavailable = Unavailable"
| "sentinel_code ErrInternal = Internal"

text \<open>\<open>serviceerr.ToStatus\<close> on a non-nil error; the handlers' \<open>mapErr\<close> and the use cases'
  \<open>mapRepoErr\<close> are this function.\<close>

fun toStatus :: "gerror \<Rightarrow> gerror" where
  "toStatus (Sent s msg) =
     (case s of
        ErrNotFound \<Rightarrow> GStatus NotFound (strip msg ErrNotFound)
      | ErrAlreadyExists \<Rightarrow> GStatus AlreadyExists (strip msg ErrAlreadyExists)
      | ErrFailedPrecondition \<Rightarrow> GStatus FailedPrecondition (strip msg ErrFailedPrecondition)
      | ErrInvalidArg \<Rightarrow> GStatus InvalidArgument (strip msg ErrInvalidArg)
      | ErrUnavailable \<Rightarrow> GStatus Unavailable (strip msg ErrUnavailable)
      | ErrInternal \<Rightarrow> internal_status)"
| "toStatus (GStatus c msg) = (if c \<noteq> Unknown then GStatus c msg else internal_status)"
| "toStatus (Raw msg) = internal_status"

definition mapRepoErr :: "gerror \<Rightarrow> gerror" where
  "mapRepoErr e = toStatus e"

definition mapErr :: "gerror \<Rightarrow> gerror" where
  "mapErr e = toStatus e"

text \<open>\<open>errmap.go\<close>: a sentinel with a message, already mapped.\<close>

definition failInvalidArg :: "string \<Rightarrow> gerror" where
  "failInvalidArg m = toStatus (wrapE ErrInvalidArg m)"

definition failFailedPrecondition :: "string \<Rightarrow> gerror" where
  "failFailedPrecondition m = toStatus (wrapE ErrFailedPrecondition m)"

definition failAlreadyExists :: "string \<Rightarrow> gerror" where
  "failAlreadyExists m = toStatus (wrapE ErrAlreadyExists m)"

definition failUnavailable :: "string \<Rightarrow> gerror" where
  "failUnavailable m = toStatus (wrapE ErrUnavailable m)"

definition failNotFound :: "string \<Rightarrow> gerror" where
  "failNotFound m = mapRepoErr (wrapE ErrNotFound m)"

lemma fail_simps [simp]:
  "failInvalidArg m = GStatus InvalidArgument m"
  "failFailedPrecondition m = GStatus FailedPrecondition m"
  "failAlreadyExists m = GStatus AlreadyExists m"
  "failUnavailable m = GStatus Unavailable m"
  "failNotFound m = GStatus NotFound m"
  using strip_wrap
  by (simp_all add: failInvalidArg_def failFailedPrecondition_def failAlreadyExists_def
      failUnavailable_def failNotFound_def mapRepoErr_def wrapE_def
      del: sentinel_text.simps append_Cons append_Nil append_assoc)

lemma toStatus_shape: "\<exists>c m. toStatus e = GStatus c m \<and> c \<noteq> Unknown"
  by (cases e) (auto simp: internal_status_def split: sentinel.splits)

lemma toStatus_idem [simp]: "toStatus (toStatus e) = toStatus e"
proof -
  obtain c m where "toStatus e = GStatus c m" "c \<noteq> Unknown" using toStatus_shape by blast
  then show ?thesis by simp
qed

lemma is_sentinel_toStatus [simp]: "\<not> is_sentinel (toStatus e) s"
  using toStatus_shape [of e] by auto

lemma toStatus_wrap [simp]: "s \<noteq> ErrInternal \<Longrightarrow> toStatus (wrapE s m) = GStatus (sentinel_code s) m"
  using strip_wrap [of s m] by (cases s) (simp_all add: wrapE_def)

end
