(* ===== verification/DomainTypes.thy ===== *)
theory DomainTypes
  imports Regex Errors
begin

text \<open>
  Package \<open>internal/domain\<close> without the FGA intents: the entities (registry, repository, tag,
  referrer, overlay configuration, statistics), their enums kept as the 32-bit integers of the
  wire (a value outside the enum is representable, as in Go), and the validation functions with
  their exact error texts. A plain Go error built by \<open>fmt.Errorf\<close> is its text.
\<close>

section \<open>Enums\<close>

definition RegistryStatusUnspecified :: int where "RegistryStatusUnspecified = 0"
definition RegistryStatusActive :: int where "RegistryStatusActive = 1"
definition RegistryStatusDeleting :: int where "RegistryStatusDeleting = 2"

definition VisibilityUnspecified :: int where "VisibilityUnspecified = 0"
definition VisibilityPrivate :: int where "VisibilityPrivate = 1"
definition VisibilityPublic :: int where "VisibilityPublic = 2"

definition ArtifactTypeUnspecified :: int where "ArtifactTypeUnspecified = 0"
definition ArtifactTypeContainerImage :: int where "ArtifactTypeContainerImage = 1"
definition ArtifactTypeHelmChart :: int where "ArtifactTypeHelmChart = 2"
definition ArtifactTypeOther :: int where "ArtifactTypeOther = 3"

lemmas enum_defs = RegistryStatusUnspecified_def RegistryStatusActive_def RegistryStatusDeleting_def
  VisibilityUnspecified_def VisibilityPrivate_def VisibilityPublic_def
  ArtifactTypeUnspecified_def ArtifactTypeContainerImage_def ArtifactTypeHelmChart_def
  ArtifactTypeOther_def

definition registry_status_validate :: "int \<Rightarrow> string option" where
  "registry_status_validate s =
     (if s = RegistryStatusUnspecified \<or> s = RegistryStatusActive \<or> s = RegistryStatusDeleting
      then None else Some (''registry status '' @ itoa s @ '' is out of range''))"

definition visibility_validate :: "int \<Rightarrow> string option" where
  "visibility_validate v =
     (if v = VisibilityPrivate \<or> v = VisibilityPublic then None
      else Some (''visibility '' @ itoa v @ '' is out of range''))"

definition visibility_string :: "int \<Rightarrow> string" where
  "visibility_string v = (if v = VisibilityPublic then ''PUBLIC'' else ''PRIVATE'')"

definition visibility_from_string :: "string \<Rightarrow> int" where
  "visibility_from_string s = (if s = ''PUBLIC'' then VisibilityPublic else VisibilityPrivate)"

definition artifact_type_validate :: "int \<Rightarrow> string option" where
  "artifact_type_validate a =
     (if a = ArtifactTypeUnspecified \<or> a = ArtifactTypeContainerImage \<or> a = ArtifactTypeHelmChart
        \<or> a = ArtifactTypeOther
      then None else Some (''artifact type '' @ itoa a @ '' is out of range''))"

section \<open>Artifact classification\<close>

definition mediaConfigHelm :: string where
  "mediaConfigHelm = ''application/vnd.cncf.helm.config.v1+json''"
definition mediaConfigDockerImage :: string where
  "mediaConfigDockerImage = ''application/vnd.docker.container.image.v1+json''"
definition mediaConfigOCIImage :: string where
  "mediaConfigOCIImage = ''application/vnd.oci.image.config.v1+json''"
definition mediaOCIIndex :: string where
  "mediaOCIIndex = ''application/vnd.oci.image.index.v1+json''"
definition mediaDockerList :: string where
  "mediaDockerList = ''application/vnd.docker.distribution.manifest.list.v2+json''"

lemmas media_defs = mediaConfigHelm_def mediaConfigDockerImage_def mediaConfigOCIImage_def
  mediaOCIIndex_def mediaDockerList_def

definition ClassifyArtifact :: "string \<Rightarrow> string \<Rightarrow> int" where
  "ClassifyArtifact configMediaType manifestMediaType =
     (if configMediaType = mediaConfigHelm then ArtifactTypeHelmChart
      else if configMediaType = mediaConfigDockerImage \<or> configMediaType = mediaConfigOCIImage
      then ArtifactTypeContainerImage
      else if configMediaType = [] then
        (if manifestMediaType = mediaOCIIndex \<or> manifestMediaType = mediaDockerList
         then ArtifactTypeContainerImage else ArtifactTypeUnspecified)
      else ArtifactTypeOther)"

section \<open>Names and digests\<close>

text \<open>A text between single quotes.\<close>

definition squote :: "string \<Rightarrow> string" where
  "squote s = [CHR 0x27] @ s @ [CHR 0x27]"

definition in_range :: "char \<Rightarrow> char \<Rightarrow> char \<Rightarrow> bool" where
  "in_range lo hi c \<longleftrightarrow> (of_char lo :: nat) \<le> of_char c \<and> (of_char c :: nat) \<le> of_char hi"

definition is_alnum :: "char \<Rightarrow> bool" where
  "is_alnum c \<longleftrightarrow> in_range CHR ''a'' CHR ''z'' c \<or> in_range CHR ''0'' CHR ''9'' c"

definition is_hex :: "char \<Rightarrow> bool" where
  "is_hex c \<longleftrightarrow> in_range CHR ''0'' CHR ''9'' c \<or> in_range CHR ''a'' CHR ''f'' c
     \<or> in_range CHR ''A'' CHR ''F'' c"

text \<open>\<open>^[a-z0-9]([a-z0-9.-]*[a-z0-9])?$\<close>\<close>

definition dnsName :: re where
  "dnsName = Seq (Cls is_alnum)
     (Opt (Seq (Star (Cls (\<lambda>c. is_alnum c \<or> c = CHR ''.'' \<or> c = CHR ''-''))) (Cls is_alnum)))"

definition maxNameLen :: nat where "maxNameLen = 255"

definition ValidateName :: "string \<Rightarrow> string \<Rightarrow> string option" where
  "ValidateName field value =
     (if value = [] then Some (field @ '' is required'')
      else if rune_count value > maxNameLen
      then Some (field @ '' exceeds '' @ itoa (int maxNameLen) @ '' characters'')
      else if \<not> re_match dnsName value
      then Some (field @ '' must be DNS-safe (lowercase alnum, '' @ squote ''-'' @ '', '' @ squote ''.'' @ '')'')
      else None)"

text \<open>\<open>^[a-z0-9]+(?:(?:[._]|__|-+|/)[a-z0-9]+)*$\<close>\<close>

definition repoSep :: re where
  "repoSep = Alt (Cls (\<lambda>c. c = CHR ''.'' \<or> c = CHR ''_''))
     (Alt (Seq (Cls (\<lambda>c. c = CHR ''_'')) (Cls (\<lambda>c. c = CHR ''_'')))
     (Alt (Plus (Cls (\<lambda>c. c = CHR ''-''))) (Cls (\<lambda>c. c = CHR ''/''))))"

definition repoNameRe :: re where
  "repoNameRe = Seq (Plus (Cls is_alnum)) (Star (Seq repoSep (Plus (Cls is_alnum))))"

definition maxRepoNameLen :: nat where "maxRepoNameLen = 255"

definition invalid_repo_name :: "string \<Rightarrow> string" where
  "invalid_repo_name value = ''invalid repository name '' @ squote value"

definition ValidateRepositoryName :: "string \<Rightarrow> string \<Rightarrow> string option" where
  "ValidateRepositoryName field value =
     (if value = [] then Some (field @ '' is required'')
      else if length value > maxRepoNameLen then Some (invalid_repo_name value)
      else if \<not> re_match repoNameRe value then Some (invalid_repo_name value)
      else None)"

text \<open>\<open>^[a-z0-9]+(?:[.+_-][a-z0-9]+)*:[0-9a-fA-F]{32,}$\<close>\<close>

definition ociDigestRe :: re where
  "ociDigestRe = Seq (Plus (Cls is_alnum))
     (Seq (Star (Seq (Cls (\<lambda>c. c \<in> set ''.+_-'')) (Plus (Cls is_alnum))))
     (Seq (Cls (\<lambda>c. c = CHR '':'')) (Seq (re_times 32 (Cls is_hex)) (Star (Cls is_hex)))))"

definition ValidateSubjectDigest :: "string \<Rightarrow> string option" where
  "ValidateSubjectDigest value =
     (if value = [] then Some ''subject_digest is required''
      else if \<not> re_match ociDigestRe value
      then Some (''invalid subject digest '' @ squote value)
      else None)"

section \<open>Entities\<close>

type_synonym labels = "(string \<times> string) list"
  \<comment> \<open>a Go \<open>map[string]string\<close>; the empty list is both \<open>nil\<close> and the empty map\<close>

type_synonym time = int
  \<comment> \<open>nanoseconds since Go's zero time; \<open>IsZero\<close> is \<open>0\<close>\<close>

record registry =
  r_id :: string
  r_project_id :: string
  r_name :: string
  r_description :: string
  r_labels :: labels
  r_status :: int
  r_created_at :: time
  r_default_visibility :: int

definition registry_validate :: "registry \<Rightarrow> string option" where
  "registry_validate r =
     (if r_project_id r = [] then Some ''registry project_id is required''
      else case ValidateName ''name'' (r_name r) of Some e \<Rightarrow> Some e
      | None \<Rightarrow> registry_status_validate (r_status r))"

record repo_config =
  c_registry_id :: string
  c_name :: string
  c_description :: string
  c_labels :: labels
  c_visibility :: int
  c_created_at :: time

definition repo_config_validate :: "repo_config \<Rightarrow> string option" where
  "repo_config_validate c =
     (if c_registry_id c = [] then Some ''registry_id is required''
      else case ValidateRepositoryName ''repository'' (c_name c) of Some e \<Rightarrow> Some e
      | None \<Rightarrow> visibility_validate (c_visibility c))"

record repository =
  p_registry_id :: string
  p_name :: string
  p_description :: string
  p_labels :: labels
  p_visibility :: int
  p_created_at :: time
  p_tag_count :: int
  p_size_bytes :: int
  p_updated_at :: time
  p_artifact_type :: int
  p_artifact_types :: "int list"
  p_last_pulled_at :: time
  p_download_count :: int

record tag =
  t_registry_id :: string
  t_repository :: string
  t_tag :: string
  t_digest :: string
  t_size_bytes :: int
  t_media_type :: string
  t_created_at :: time
  t_architecture :: string
  t_last_pulled_at :: time
  t_pushed_by :: string
  t_download_count :: int

record referrer =
  f_registry_id :: string
  f_repository :: string
  f_subject_digest :: string
  f_digest :: string
  f_artifact_type :: string
  f_size_bytes :: int
  f_annotations :: labels
  f_created_at :: time

record registry_stats =
  s_registry_id :: string
  s_repository_count :: int
  s_tag_count :: int
  s_total_size_bytes :: int
  s_blob_count :: int

section \<open>What the name grammars guarantee\<close>

lemma alnum_distinct [simp]:
  "\<not> is_alnum CHR ''.''" "\<not> is_alnum CHR ''/''" "\<not> is_alnum CHR ''-''" "\<not> is_alnum CHR ''_''"
  "\<not> is_alnum CHR ''%''" "\<not> is_alnum CHR '':''" "\<not> is_alnum CHR 0x5C"
  by (simp_all add: is_alnum_def in_range_def)

text \<open>Two neighbouring bytes of a repository name: after a dot or a slash comes an alphanumeric.\<close>

definition name_adj :: "char \<Rightarrow> char \<Rightarrow> bool" where
  "name_adj x y \<longleftrightarrow> (x = CHR ''.'' \<or> x = CHR ''/'' \<longrightarrow> is_alnum y)"

definition name_char :: "char \<Rightarrow> bool" where
  "name_char c \<longleftrightarrow> is_alnum c \<or> c \<in> {CHR ''.'', CHR ''_'', CHR ''-'', CHR ''/''}"

definition name_shape :: "string \<Rightarrow> bool" where
  "name_shape w \<longleftrightarrow> w \<noteq> [] \<and> is_alnum (hd w) \<and> is_alnum (last w) \<and> list_all name_char w
     \<and> successively name_adj w"

lemma successively_alnum: "list_all is_alnum w \<Longrightarrow> successively name_adj w"
  by (induction w rule: induct_list012) (auto simp: name_adj_def)

lemma name_shape_alnum: "w \<noteq> [] \<Longrightarrow> list_all is_alnum w \<Longrightarrow> name_shape w"
  by (auto simp: name_shape_def successively_alnum list_all_iff name_char_def)

lemma lang_repoSep: "lang repoSep a \<Longrightarrow>
  a \<noteq> [] \<and> list_all name_char a \<and> (length a = 1 \<or> list_all (\<lambda>c. c \<noteq> CHR ''.'' \<and> c \<noteq> CHR ''/'') a)"
  unfolding repoSep_def lang.simps(4) lang_Plus_Cls lang_Seq_Cls
  by (auto simp: list_all_iff name_char_def split: list.splits)

lemma successively_plain: "list_all (\<lambda>c. c \<noteq> CHR ''.'' \<and> c \<noteq> CHR ''/'') w \<Longrightarrow> successively name_adj w"
  by (induction w rule: induct_list012) (auto simp: name_adj_def)

lemma name_shape_sep:
  assumes a: "lang repoSep a" and b: "name_shape b"
  shows "successively name_adj (a @ b)" "list_all name_char (a @ b)"
proof -
  note s = lang_repoSep [OF a]
  have "successively name_adj a"
  proof (cases "length a = 1")
    case True
    then show ?thesis by (cases a) auto
  qed (use s successively_plain in auto)
  with s b show "successively name_adj (a @ b)" "list_all name_char (a @ b)"
    by (auto simp: successively_append_iff name_shape_def name_adj_def)
qed

lemma name_shape_snoc:
  assumes w: "name_shape w" and a: "lang repoSep a" and b: "name_shape b"
  shows "name_shape (w @ a @ b)"
proof -
  have "successively name_adj (w @ a @ b)"
    using name_shape_sep [OF a b] w lang_repoSep [OF a]
    by (cases a) (auto simp: successively_append_iff name_shape_def name_adj_def)
  with w b name_shape_sep(2) [OF a b] show ?thesis by (auto simp: name_shape_def)
qed

lemma in_star_name_shape:
  "in_star (lang (Seq repoSep (Plus (Cls is_alnum)))) t \<Longrightarrow> name_shape w \<Longrightarrow> name_shape (w @ t)"
proof (induction t arbitrary: w rule: in_star.induct)
  case (star_step x t)
  from star_step(1) obtain a b where x: "x = a @ b" "lang repoSep a" "lang (Plus (Cls is_alnum)) b"
    by (auto simp only: lang.simps(5))
  from x(3) have "name_shape b" unfolding lang_Plus_Cls by (simp add: name_shape_alnum)
  with x star_step(4) have "name_shape (w @ x)" by (simp add: name_shape_snoc)
  from star_step.IH [OF this] show ?case by simp
qed simp

lemma repo_name_shape:
  assumes "ValidateRepositoryName field w = None" shows "name_shape w"
proof -
  from assms have "lang repoNameRe w"
    by (auto simp: ValidateRepositoryName_def re_match_lang split: if_splits)
  then obtain a t where w: "w = a @ t" "lang (Plus (Cls is_alnum)) a"
      "in_star (lang (Seq repoSep (Plus (Cls is_alnum)))) t"
    unfolding repoNameRe_def lang.simps(5,6) by blast
  from w(2) have "name_shape a" unfolding lang_Plus_Cls by (simp add: name_shape_alnum)
  with w in_star_name_shape show ?thesis by blast
qed

lemma successively_split_on:
  "successively name_adj w \<Longrightarrow> w \<noteq> [] \<Longrightarrow> last w \<noteq> CHR ''/'' \<Longrightarrow>
   (\<forall>seg \<in> set (tl (split_on CHR ''/'' w)). seg \<noteq> [] \<and> is_alnum (hd seg)) \<and>
   (hd w \<noteq> CHR ''/'' \<longrightarrow> hd (split_on CHR ''/'' w) \<noteq> [] \<and> hd (hd (split_on CHR ''/'' w)) = hd w)"
proof (induction w)
  case (Cons x xs)
  show ?case
  proof (cases xs)
    case Nil
    with Cons.prems show ?thesis by simp
  next
    case (Cons y ys)
    with Cons.prems have adj: "name_adj x y" and rest: "successively name_adj xs" "xs \<noteq> []" "last xs \<noteq> CHR ''/''"
      by auto
    obtain v vs where v: "split_on CHR ''/'' xs = v # vs" by (cases "split_on CHR ''/'' xs") auto
    from Cons.IH [OF rest] v Cons
    have ih: "\<forall>seg \<in> set vs. seg \<noteq> [] \<and> is_alnum (hd seg)"
        "y \<noteq> CHR ''/'' \<longrightarrow> v \<noteq> [] \<and> hd v = y" by auto
    show ?thesis
    proof (cases "x = CHR ''/''")
      case True
      with adj have "is_alnum y" by (simp add: name_adj_def)
      then have "y \<noteq> CHR ''/''" by auto
      with ih \<open>is_alnum y\<close> True v show ?thesis by auto
    next
      case False
      with ih v show ?thesis by auto
    qed
  qed
qed simp

text \<open>Every path segment of a valid repository name starts with an alphanumeric: no empty
  segment, no \<open>.\<close> and no \<open>..\<close>.\<close>

lemma repo_name_segments:
  assumes "ValidateRepositoryName field w = None" and "seg \<in> set (split_on CHR ''/'' w)"
  shows "seg \<noteq> [] \<and> is_alnum (hd seg)"
proof -
  have sh: "name_shape w" by (rule repo_name_shape [OF assms(1)])
  then have "hd w \<noteq> CHR ''/''" "last w \<noteq> CHR ''/''" by (auto simp: name_shape_def)
  with sh successively_split_on [of w]
  have "(\<forall>seg \<in> set (tl (split_on CHR ''/'' w)). seg \<noteq> [] \<and> is_alnum (hd seg)) \<and>
      hd (split_on CHR ''/'' w) \<noteq> [] \<and> is_alnum (hd (hd (split_on CHR ''/'' w)))"
    by (simp add: name_shape_def)
  with assms(2) show ?thesis by (cases "split_on CHR ''/'' w") auto
qed

lemma segment_not_dots: "seg \<noteq> [] \<and> is_alnum (hd seg) \<Longrightarrow> seg \<noteq> ''.'' \<and> seg \<noteq> ''..''"
  by auto

lemma repo_name_chars:
  "ValidateRepositoryName field w = None \<Longrightarrow> c \<in> set w \<Longrightarrow> name_char c"
  using repo_name_shape by (auto simp: name_shape_def list_all_iff)

lemma lang_dnsName: "lang dnsName w \<longleftrightarrow> w \<noteq> [] \<and> is_alnum (hd w) \<and> is_alnum (last w)
    \<and> list_all (\<lambda>c. is_alnum c \<or> c = CHR ''.'' \<or> c = CHR ''-'') w"
proof (cases w)
  case Nil
  then show ?thesis by (simp add: dnsName_def lang_Seq_Cls del: lang.simps(5))
next
  case (Cons x xs)
  let ?p = "\<lambda>c. is_alnum c \<or> c = CHR ''.'' \<or> c = CHR ''-''"
  have "lang (Seq (Star (Cls ?p)) (Cls is_alnum)) xs \<longleftrightarrow>
      (\<exists>a y. xs = a @ [y] \<and> list_all ?p a \<and> is_alnum y)"
    unfolding lang.simps(5) lang_Star_Cls lang.simps(3) by blast
  also have "\<dots> \<longleftrightarrow> xs \<noteq> [] \<and> list_all ?p xs \<and> is_alnum (last xs)"
    by (cases xs rule: rev_cases) auto
  finally show ?thesis
    unfolding dnsName_def Cons lang_Seq_Cls lang.simps(4) lang.simps(2) list.case by auto
qed

end
