(* ===== verification/Fga.thy ===== *)
theory Fga
  imports DomainTypes
begin

text \<open>
  \<open>internal/domain/fga_intent.go\<close>: the vocabulary of the authorization model (object types,
  relations, subjects), the owner-hierarchy tuples and the register/unregister intents the
  writers put into the transactional outbox. An outbox row holds the intent itself; its JSON text
  and that it encodes this intent is the matter of \<open>Payload\<close>.
\<close>

section \<open>Vocabulary\<close>

definition FGAObjectTypeRegistry :: string where "FGAObjectTypeRegistry = ''registry_registry''"
definition FGAObjectTypeRepository :: string where "FGAObjectTypeRepository = ''registry_repository''"
definition FGAObjectTypeProject :: string where "FGAObjectTypeProject = ''project''"

definition FGARelationProject :: string where "FGARelationProject = ''project''"
definition FGARelationOwner :: string where "FGARelationOwner = ''owner''"
definition FGARelationParent :: string where "FGARelationParent = ''parent''"

definition FGAEventRegister :: string where "FGAEventRegister = ''fga.register''"
definition FGAEventUnregister :: string where "FGAEventUnregister = ''fga.unregister''"

definition FGARelationVGet :: string where "FGARelationVGet = ''v_get''"
definition FGARelationVList :: string where "FGARelationVList = ''v_list''"
definition FGARelationVCreate :: string where "FGARelationVCreate = ''v_create''"
definition FGARelationVUpdate :: string where "FGARelationVUpdate = ''v_update''"
definition FGARelationVDelete :: string where "FGARelationVDelete = ''v_delete''"
definition FGARelationAdmin :: string where "FGARelationAdmin = ''admin''"

definition FGASubjectTypeUser :: string where "FGASubjectTypeUser = ''user''"
definition FGASubjectTypeServiceAccount :: string where "FGASubjectTypeServiceAccount = ''service_account''"
definition FGASubjectPublicWildcard :: string where
  "FGASubjectPublicWildcard = FGASubjectTypeUser @ '':*''"

definition principalIDPrefixUser :: string where "principalIDPrefixUser = ''usr''"
definition principalIDPrefixServiceAccount :: string where "principalIDPrefixServiceAccount = ''sva''"

lemmas fga_relations = FGARelationVGet_def FGARelationVList_def FGARelationVCreate_def
  FGARelationVUpdate_def FGARelationVDelete_def FGARelationAdmin_def FGARelationProject_def
  FGARelationOwner_def FGARelationParent_def

lemmas fga_object_types = FGAObjectTypeRegistry_def FGAObjectTypeRepository_def FGAObjectTypeProject_def

lemmas fga_events = FGAEventRegister_def FGAEventUnregister_def

lemmas fga_subject_types = FGASubjectTypeUser_def FGASubjectTypeServiceAccount_def
  FGASubjectPublicWildcard_def principalIDPrefixUser_def principalIDPrefixServiceAccount_def

section \<open>Tuples and subjects\<close>

record fga_tuple =
  tp_subject_id :: string
  tp_relation :: string
  tp_object :: string

definition tuple_valid :: "fga_tuple \<Rightarrow> bool" where
  "tuple_valid t \<longleftrightarrow> tp_subject_id t \<noteq> [] \<and> tp_relation t \<noteq> [] \<and> tp_object t \<noteq> []"

record register_intent =
  i_kind :: string
  i_resource_id :: string
  i_tuples :: "fga_tuple list"
  i_labels :: labels
  i_parent_project_id :: string

definition FGAObjectRef :: "string \<Rightarrow> string \<Rightarrow> string" where
  "FGAObjectRef objectType objectID = objectType @ '':'' @ objectID"

definition FGAProjectTuple :: "string \<Rightarrow> string \<Rightarrow> fga_tuple" where
  "FGAProjectTuple registryID projectID =
     \<lparr>tp_subject_id = FGAObjectRef FGAObjectTypeProject projectID,
      tp_relation = FGARelationProject,
      tp_object = FGAObjectRef FGAObjectTypeRegistry registryID\<rparr>"

definition FGAOwnerTuple :: "string \<Rightarrow> string \<Rightarrow> fga_tuple" where
  "FGAOwnerTuple subject registryID =
     \<lparr>tp_subject_id = subject, tp_relation = FGARelationOwner,
      tp_object = FGAObjectRef FGAObjectTypeRegistry registryID\<rparr>"

definition FGASubjectFromPrincipal :: "string \<Rightarrow> string \<Rightarrow> string" where
  "FGASubjectFromPrincipal principalType principalID =
     (if principalType = [] \<or> principalID = [] \<or> principalType = ''system'' then []
      else principalType @ '':'' @ principalID)"

definition FGASubjectFromID :: "string \<Rightarrow> string" where
  "FGASubjectFromID principalID =
     (if principalID = [] then []
      else if has_prefix principalID principalIDPrefixUser
      then FGAObjectRef FGASubjectTypeUser principalID
      else if has_prefix principalID principalIDPrefixServiceAccount
      then FGAObjectRef FGASubjectTypeServiceAccount principalID
      else FGAObjectRef FGASubjectTypeServiceAccount principalID)"

definition FGASubjectForPrincipalID :: "string \<Rightarrow> string \<Rightarrow> string" where
  "FGASubjectForPrincipalID principalID anonPrincipalID =
     (if anonPrincipalID \<noteq> [] \<and> principalID = anonPrincipalID then FGASubjectPublicWildcard
      else FGASubjectFromID principalID)"

section \<open>Intents\<close>

definition copyLabels :: "labels \<Rightarrow> labels" where
  "copyLabels ls = (if length ls = 0 then [] else ls)"

definition RegisterIntentForCreate :: "registry \<Rightarrow> string \<Rightarrow> string \<Rightarrow> register_intent" where
  "RegisterIntentForCreate r principalType principalID =
     (let subject = FGASubjectFromPrincipal principalType principalID in
      \<lparr>i_kind = ''Registry'', i_resource_id = r_id r,
       i_tuples = [FGAProjectTuple (r_id r) (r_project_id r)] @
         (if subject \<noteq> [] then [FGAOwnerTuple subject (r_id r)] else []),
       i_labels = copyLabels (r_labels r), i_parent_project_id = r_project_id r\<rparr>)"

definition RegisterIntentForUpdate :: "registry \<Rightarrow> register_intent" where
  "RegisterIntentForUpdate r =
     \<lparr>i_kind = ''Registry'', i_resource_id = r_id r,
      i_tuples = [FGAProjectTuple (r_id r) (r_project_id r)],
      i_labels = copyLabels (r_labels r), i_parent_project_id = r_project_id r\<rparr>"

definition UnregisterIntentForDelete :: "string \<Rightarrow> string \<Rightarrow> register_intent" where
  "UnregisterIntentForDelete registryID projectID =
     \<lparr>i_kind = ''Registry'', i_resource_id = registryID,
      i_tuples = [FGAProjectTuple registryID projectID], i_labels = [], i_parent_project_id = []\<rparr>"

definition repoObjectID :: "string \<Rightarrow> string \<Rightarrow> string" where
  "repoObjectID registryID repo = registryID @ ''/'' @ repo"

definition FGARepoParentTuple :: "string \<Rightarrow> string \<Rightarrow> fga_tuple" where
  "FGARepoParentTuple registryID repo =
     \<lparr>tp_subject_id = FGAObjectRef FGAObjectTypeRegistry registryID,
      tp_relation = FGARelationParent,
      tp_object = FGAObjectRef FGAObjectTypeRepository (repoObjectID registryID repo)\<rparr>"

definition FGARepoOwnerTuple :: "string \<Rightarrow> string \<Rightarrow> string \<Rightarrow> fga_tuple" where
  "FGARepoOwnerTuple registryID repo subject =
     \<lparr>tp_subject_id = subject, tp_relation = FGARelationOwner,
      tp_object = FGAObjectRef FGAObjectTypeRepository (repoObjectID registryID repo)\<rparr>"

definition RegisterIntentForRepoPush :: "string \<Rightarrow> string \<Rightarrow> string \<Rightarrow> string \<Rightarrow> register_intent" where
  "RegisterIntentForRepoPush registryID repo projectID subject =
     \<lparr>i_kind = ''Repository'', i_resource_id = repoObjectID registryID repo,
      i_tuples = [FGARepoParentTuple registryID repo] @
        (if subject \<noteq> [] then [FGARepoOwnerTuple registryID repo subject] else []),
      i_labels = [], i_parent_project_id = projectID\<rparr>"

definition UnregisterIntentForRepo :: "string \<Rightarrow> string \<Rightarrow> register_intent" where
  "UnregisterIntentForRepo registryID repo =
     \<lparr>i_kind = ''Repository'', i_resource_id = repoObjectID registryID repo,
      i_tuples = [FGARepoParentTuple registryID repo], i_labels = [], i_parent_project_id = []\<rparr>"

definition FGARepoPublicGetTuple :: "string \<Rightarrow> string \<Rightarrow> fga_tuple" where
  "FGARepoPublicGetTuple registryID repo =
     \<lparr>tp_subject_id = FGASubjectPublicWildcard, tp_relation = FGARelationVGet,
      tp_object = FGAObjectRef FGAObjectTypeRepository (repoObjectID registryID repo)\<rparr>"

definition RegisterIntentForRepoPublicGrant :: "string \<Rightarrow> string \<Rightarrow> register_intent" where
  "RegisterIntentForRepoPublicGrant registryID repo =
     \<lparr>i_kind = ''RepositoryPublicGrant'', i_resource_id = repoObjectID registryID repo,
      i_tuples = [FGARepoPublicGetTuple registryID repo], i_labels = [], i_parent_project_id = []\<rparr>"

definition UnregisterIntentForRepoPublicGrant :: "string \<Rightarrow> string \<Rightarrow> register_intent" where
  "UnregisterIntentForRepoPublicGrant registryID repo =
     \<lparr>i_kind = ''RepositoryPublicGrant'', i_resource_id = repoObjectID registryID repo,
      i_tuples = [FGARepoPublicGetTuple registryID repo], i_labels = [], i_parent_project_id = []\<rparr>"

lemmas fga_tuple_defs = FGAProjectTuple_def FGAOwnerTuple_def FGARepoParentTuple_def
  FGARepoOwnerTuple_def FGARepoPublicGetTuple_def

lemmas fga_intent_defs = RegisterIntentForCreate_def RegisterIntentForUpdate_def
  UnregisterIntentForDelete_def RegisterIntentForRepoPush_def UnregisterIntentForRepo_def
  RegisterIntentForRepoPublicGrant_def UnregisterIntentForRepoPublicGrant_def

section \<open>Lemmas\<close>

lemma copyLabels_id [simp]: "copyLabels ls = ls"
  by (simp add: copyLabels_def)

lemma FGAObjectRef_ne [simp]: "FGAObjectRef t i \<noteq> []"
  by (simp add: FGAObjectRef_def)

lemma intents_nonempty [simp]:
  "i_tuples (RegisterIntentForCreate r pt pid) \<noteq> []"
  "i_tuples (RegisterIntentForUpdate r) \<noteq> []"
  "i_tuples (UnregisterIntentForDelete reg prj) \<noteq> []"
  "i_tuples (RegisterIntentForRepoPush reg repo prj sub) \<noteq> []"
  "i_tuples (UnregisterIntentForRepo reg repo) \<noteq> []"
  "i_tuples (RegisterIntentForRepoPublicGrant reg repo) \<noteq> []"
  "i_tuples (UnregisterIntentForRepoPublicGrant reg repo) \<noteq> []"
  by (simp_all add: fga_intent_defs Let_def)

lemma relations_ne [simp]: "FGARelationProject \<noteq> []" "FGARelationOwner \<noteq> []"
  "FGARelationParent \<noteq> []" "FGARelationVGet \<noteq> []" "FGASubjectPublicWildcard \<noteq> []"
  by (simp_all add: fga_relations fga_subject_types)

lemma intent_tuples_valid:
  "list_all tuple_valid (i_tuples (RegisterIntentForCreate r pt pid))"
  "list_all tuple_valid (i_tuples (RegisterIntentForUpdate r))"
  "list_all tuple_valid (i_tuples (UnregisterIntentForDelete reg prj))"
  "list_all tuple_valid (i_tuples (RegisterIntentForRepoPush reg repo prj sub))"
  "list_all tuple_valid (i_tuples (UnregisterIntentForRepo reg repo))"
  "list_all tuple_valid (i_tuples (RegisterIntentForRepoPublicGrant reg repo))"
  "list_all tuple_valid (i_tuples (UnregisterIntentForRepoPublicGrant reg repo))"
  by (simp_all add: fga_intent_defs fga_tuple_defs tuple_valid_def Let_def)

lemma FGAObjectRef_inj:
  "CHR '':'' \<notin> set t \<Longrightarrow> CHR '':'' \<notin> set u \<Longrightarrow>
   FGAObjectRef t i = FGAObjectRef u j \<longleftrightarrow> t = u \<and> i = j"
  by (auto simp: FGAObjectRef_def append_eq_append_conv2 Cons_eq_append_conv append_eq_Cons_conv)

lemma object_types_plain: "CHR '':'' \<notin> set FGAObjectTypeRegistry" "CHR '':'' \<notin> set FGAObjectTypeRepository"
  by (simp_all add: fga_object_types)

lemma repoObjectID_inj:
  "CHR ''/'' \<notin> set r \<Longrightarrow> CHR ''/'' \<notin> set r' \<Longrightarrow> repoObjectID r n = repoObjectID r' n' \<longleftrightarrow> r = r' \<and> n = n'"
  by (auto simp: repoObjectID_def append_eq_append_conv2 Cons_eq_append_conv append_eq_Cons_conv)

text \<open>The data plane's subject of an id equals the control plane's subject of the principal that
  carries this id, when the id prefix and the principal type agree.\<close>

lemma subject_planes_agree:
  "has_prefix pid principalIDPrefixUser \<Longrightarrow>
     FGASubjectFromID pid = FGASubjectFromPrincipal FGASubjectTypeUser pid"
  "has_prefix pid principalIDPrefixServiceAccount \<Longrightarrow>
     FGASubjectFromID pid = FGASubjectFromPrincipal FGASubjectTypeServiceAccount pid"
  by (auto simp: FGASubjectFromID_def FGASubjectFromPrincipal_def FGAObjectRef_def
      fga_subject_types has_prefix_iff)

lemma FGASubjectFromID_not_wildcard: "FGASubjectFromID pid \<noteq> FGASubjectPublicWildcard"
  by (auto simp: FGASubjectFromID_def FGAObjectRef_def fga_subject_types has_prefix_iff)

lemma wildcard_iff: "FGASubjectForPrincipalID pid anon = FGASubjectPublicWildcard \<longleftrightarrow> anon \<noteq> [] \<and> pid = anon"
  using FGASubjectFromID_not_wildcard by (auto simp: FGASubjectForPrincipalID_def)

end
