(* ===== verification/Paging.thy ===== *)
theory Paging
  imports Fga "HOL-Library.Char_ord" "HOL-Library.List_Lexorder"
begin

text \<open>
  Cursor pagination. First the interface of \<open>kacho-corelib\<close> (not part of the repository) as a
  record of functions with its documented behaviour as named predicates; then
  \<open>shared/namepage\<close> and the data plane's catalogue window; and the contract they all meet,
  a locale whose lemma says that following the cursors lists every item once, in order.
  Go compares strings bytewise, which is the lexicographic order on lists of characters.
\<close>

section \<open>corelib\<close>

record corelib =
  cl_PrefixRegistry :: string
  cl_ResourceID :: "string \<Rightarrow> string \<Rightarrow> string \<Rightarrow> gerror option"
  cl_PageSize :: "string \<Rightarrow> int \<Rightarrow> gerror + int"
  cl_Labels :: "string \<Rightarrow> labels \<Rightarrow> gerror option"
  cl_Description :: "string \<Rightarrow> string \<Rightarrow> gerror option"
  cl_UpdateMask :: "string \<Rightarrow> string list \<Rightarrow> string list \<Rightarrow> gerror option"

text \<open>\<open>validate.PageSize\<close>: 0 means 50, anything outside \<open>[0..1000]\<close> is refused.\<close>

definition page_size_contract :: "corelib \<Rightarrow> bool" where
  "page_size_contract L \<longleftrightarrow> (\<forall>f n.
     if 0 \<le> n \<and> n \<le> 1000 then cl_PageSize L f n = Inr (if n = 0 then 50 else n)
     else (\<exists>m. cl_PageSize L f n = Inl (GStatus InvalidArgument m)))"

text \<open>\<open>validate.UpdateMask\<close>: a mask is accepted when all its paths are known.\<close>

definition update_mask_contract :: "corelib \<Rightarrow> bool" where
  "update_mask_contract L \<longleftrightarrow> (\<forall>f mask known.
     if set mask \<subseteq> set known then cl_UpdateMask L f mask known = None
     else (\<exists>m. cl_UpdateMask L f mask known = Some (GStatus InvalidArgument m)))"

text \<open>\<open>validate.ResourceID\<close> accepts an id or refuses it with \<open>InvalidArgument\<close>.\<close>

definition resource_id_contract :: "corelib \<Rightarrow> bool" where
  "resource_id_contract L \<longleftrightarrow> (\<forall>r p i e. cl_ResourceID L r p i = Some e \<longrightarrow>
     (\<exists>m. e = GStatus InvalidArgument m))"

text \<open>A slice expression or an index out of range panics.\<close>

definition go_panic :: gerror where
  "go_panic = Raw ''runtime error: index out of range''"

section \<open>namepage\<close>

definition invalid_token :: gerror where
  "invalid_token = wrapE ErrInvalidArg ''invalid page_token''"

definition Encode :: "string \<Rightarrow> string" where
  "Encode name = b64_encode False name"

definition Decode :: "string \<Rightarrow> string option" where
  "Decode token = b64_decode False token"

definition encodeOffset :: "nat \<Rightarrow> string" where
  "encodeOffset off = b64_encode False (itoa (int off))"

definition decodeOffset :: "string \<Rightarrow> int option" where
  "decodeOffset token = (case b64_decode False token of None \<Rightarrow> None | Some b \<Rightarrow> atoi b)"

definition cut_window :: "'a list \<Rightarrow> nat \<Rightarrow> int \<Rightarrow> ('a list \<Rightarrow> nat \<Rightarrow> string) \<Rightarrow> gerror + ('a list \<times> string)" where
  "cut_window items start sz nxt =
     (if length items \<le> start then Inr ([], [])
      else let e = int start + sz in
        if int (length items) \<le> e then Inr (drop start items, [])
        else if sz \<le> 0 then Inl go_panic
        else Inr (take (nat sz) (drop start items), nxt (take (nat sz) (drop start items)) (nat e)))"

definition Window :: "corelib \<Rightarrow> ('a \<Rightarrow> string) \<Rightarrow> 'a list \<Rightarrow> int \<Rightarrow> string \<Rightarrow> gerror + ('a list \<times> string)" where
  "Window L keyOf items pageSize pageToken =
     (case cl_PageSize L ''page_size'' pageSize of Inl e \<Rightarrow> Inl e
      | Inr sz \<Rightarrow>
        (if pageToken \<noteq> [] then
           (case Decode pageToken of None \<Rightarrow> Inl invalid_token
            | Some tok \<Rightarrow> cut_window items (length (takeWhile (\<lambda>x. keyOf x \<le> tok) items)) sz
                 (\<lambda>page _. Encode (keyOf (last page))))
         else cut_window items 0 sz (\<lambda>page _. Encode (keyOf (last page)))))"

definition WindowByOffset :: "corelib \<Rightarrow> 'a list \<Rightarrow> int \<Rightarrow> string \<Rightarrow> gerror + ('a list \<times> string)" where
  "WindowByOffset L items pageSize pageToken =
     (case cl_PageSize L ''page_size'' pageSize of Inl e \<Rightarrow> Inl e
      | Inr sz \<Rightarrow>
        (if pageToken \<noteq> [] then
           (case decodeOffset pageToken of None \<Rightarrow> Inl invalid_token
            | Some off \<Rightarrow> if off < 0 then Inl invalid_token
                else cut_window items (nat off) sz (\<lambda>_ e. encodeOffset e))
         else cut_window items 0 sz (\<lambda>_ e. encodeOffset e)))"

section \<open>The catalogue window of the data plane\<close>

definition catalogMaxPageSize :: int where "catalogMaxPageSize = 1000"

definition parseCatalogPageSize :: "string \<Rightarrow> int" where
  "parseCatalogPageSize n =
     (if n = [] then catalogMaxPageSize
      else case atoi n of None \<Rightarrow> catalogMaxPageSize
      | Some v \<Rightarrow> if v \<le> 0 \<or> v > catalogMaxPageSize then catalogMaxPageSize else v)"

definition encodeCatalogCursor :: "int \<Rightarrow> string" where
  "encodeCatalogCursor offset = b64_encode True (itoa offset)"

definition decodeCatalogCursor :: "string \<Rightarrow> int" where
  "decodeCatalogCursor cursor =
     (if cursor = [] then 0
      else case b64_decode True cursor of None \<Rightarrow> 0
      | Some raw \<Rightarrow> (case atoi raw of None \<Rightarrow> 0 | Some off \<Rightarrow> off))"

definition catalogWindow :: "string list \<Rightarrow> string \<Rightarrow> int \<Rightarrow> string list \<times> int \<times> bool" where
  "catalogWindow names lastTok pageSize =
     (let start = decodeCatalogCursor lastTok;
          start = (if start < 0 then 0 else start);
          start = (if start > int (length names) then int (length names) else start);
          rest = drop (nat start) names
      in if int (length rest) > pageSize then (take (nat pageSize) rest, start + pageSize, True)
         else (rest, start + int (length rest), False))"

section \<open>The paging contract\<close>

text \<open>A client that follows the cursors; \<open>None\<close> when the fuel ends or a page is refused.\<close>

fun walk :: "nat \<Rightarrow> (string \<Rightarrow> gerror + ('a list \<times> string)) \<Rightarrow> string \<Rightarrow> 'a list option" where
  "walk 0 page t = None"
| "walk (Suc n) page t =
     (case page t of Inl e \<Rightarrow> None
      | Inr (p, t') \<Rightarrow> if t' = [] then Some p else map_option (\<lambda>r. p @ r) (walk n page t'))"

locale paging =
  fixes page :: "'a list \<Rightarrow> nat \<Rightarrow> string \<Rightarrow> gerror + ('a list \<times> string)"
    and tok :: "'a list \<Rightarrow> nat \<Rightarrow> string"
    and ok :: "'a list \<Rightarrow> nat \<Rightarrow> bool"
  assumes size_pos: "ok xs n \<Longrightarrow> 0 < n"
    and tok_zero: "tok xs 0 = []"
    and tok_ne: "ok xs n \<Longrightarrow> 0 < i \<Longrightarrow> i < length xs \<Longrightarrow> tok xs i \<noteq> []"
    and page_at: "ok xs n \<Longrightarrow> i \<le> length xs \<Longrightarrow> i = 0 \<or> i < length xs \<Longrightarrow>
      page xs n (tok xs i) = Inr (take n (drop i xs), if i + n < length xs then tok xs (i + n) else [])"
begin

lemma walk_from:
  "ok xs n \<Longrightarrow> i \<le> length xs \<Longrightarrow> i = 0 \<or> i < length xs \<Longrightarrow> length xs - i < k \<Longrightarrow>
   walk k (page xs n) (tok xs i) = Some (drop i xs)"
proof (induction k arbitrary: i)
  case (Suc k)
  note p = page_at [OF Suc.prems(1,2,3)]
  show ?case
  proof (cases "i + n < length xs")
    case True
    have "take n (drop i xs) @ drop (i + n) xs = drop i xs"
      by (metis add.commute append_take_drop_id drop_drop)
    with True p tok_ne [OF Suc.prems(1), of "i + n"] size_pos [OF Suc.prems(1)]
      Suc.IH [of "i + n"] Suc.prems show ?thesis by simp
  next
    case False
    with p show ?thesis by simp
  qed
qed simp

lemma walk_all: "ok xs n \<Longrightarrow> walk (Suc (length xs)) (page xs n) [] = Some xs"
  using walk_from [of xs n 0 "Suc (length xs)"] by (simp add: tok_zero)

lemma page_bound: "ok xs n \<Longrightarrow> i \<le> length xs \<Longrightarrow> i = 0 \<or> i < length xs \<Longrightarrow>
   page xs n (tok xs i) = Inr (p, t) \<Longrightarrow> length p \<le> n"
  using page_at [of xs n i] by auto

end

lemma b64_encode_ne [simp]: "b64_encode url s = [] \<longleftrightarrow> s = []"
  by (cases "(url, s)" rule: b64_encode.cases) auto

lemma itoa_ne [simp]: "itoa i \<noteq> []"
  by (simp add: itoa_def)

definition offset_tok :: "'a list \<Rightarrow> nat \<Rightarrow> string" where
  "offset_tok xs i = (if i = 0 then [] else encodeOffset i)"

definition offset_ok :: "corelib \<Rightarrow> 'a list \<Rightarrow> nat \<Rightarrow> bool" where
  "offset_ok L xs n \<longleftrightarrow> page_size_contract L \<and> 1 \<le> n \<and> n \<le> 1000 \<and> length xs < 2 ^ 63"

lemma page_size_in: "page_size_contract L \<Longrightarrow> 1 \<le> n \<Longrightarrow> n \<le> 1000 \<Longrightarrow> cl_PageSize L f n = Inr n"
  by (simp add: page_size_contract_def)

lemma decode_encodeOffset: "i < 2 ^ 63 \<Longrightarrow> decodeOffset (encodeOffset i) = Some (int i)"
  using atoi_itoa [of "int i"] by (simp add: decodeOffset_def encodeOffset_def b64_decode_encode)

lemma cut_window_at:
  "i \<le> length xs \<Longrightarrow> i = 0 \<or> i < length xs \<Longrightarrow> 1 \<le> n \<Longrightarrow>
   cut_window xs i (int n) nx = Inr (take n (drop i xs),
     if i + n < length xs then nx (take n (drop i xs)) (i + n) else [])"
  by (auto simp: cut_window_def Let_def nat_int_add)

lemma encodeOffset_ne [simp]: "encodeOffset i \<noteq> []"
  by (simp add: encodeOffset_def)

interpretation offset_paging: paging "\<lambda>xs n. WindowByOffset L xs (int n)" offset_tok "offset_ok L" for L
proof unfold_locales
  fix xs :: "'a list" and n i :: nat
  assume ok: "offset_ok L xs n" and i: "i \<le> length xs" "i = 0 \<or> i < length xs"
  then have "i < 2 ^ 63" by (auto simp: offset_ok_def)
  note d = decode_encodeOffset [OF this]
  show "WindowByOffset L xs (int n) (offset_tok xs i) =
      Inr (take n (drop i xs), if i + n < length xs then offset_tok xs (i + n) else [])"
    using ok i by (auto simp: WindowByOffset_def offset_tok_def offset_ok_def page_size_in d cut_window_at)
qed (auto simp: offset_ok_def offset_tok_def)

text \<open>Cursors that name the last item shown: \<open>Window\<close> over a list strictly sorted by its keys.\<close>

definition name_tok :: "('a \<Rightarrow> string) \<Rightarrow> 'a list \<Rightarrow> nat \<Rightarrow> string" where
  "name_tok keyOf xs i = (if i = 0 then [] else Encode (keyOf (xs ! (i - 1))))"

definition name_ok :: "corelib \<Rightarrow> ('a \<Rightarrow> string) \<Rightarrow> 'a list \<Rightarrow> nat \<Rightarrow> bool" where
  "name_ok L keyOf xs n \<longleftrightarrow> page_size_contract L \<and> 1 \<le> n \<and> n \<le> 1000 \<and>
     sorted_wrt (<) (map keyOf xs) \<and> [] \<notin> set (map keyOf xs)"

lemma takeWhile_sorted:
  "sorted_wrt (<) (map f xs) \<Longrightarrow> i < length xs \<Longrightarrow>
   length (takeWhile (\<lambda>x. f x \<le> (f (xs ! i) :: 'b :: linorder)) xs) = Suc i"
proof (induction xs arbitrary: i)
  case (Cons x xs)
  show ?case
  proof (cases i)
    case 0
    with Cons.prems show ?thesis by (cases xs) auto
  next
    case (Suc j)
    with Cons.prems have "f x \<le> f (xs ! j)" "j < length xs" by (auto simp: less_imp_le)
    then show ?thesis using Suc Cons.IH [of j] Cons.prems by simp
  qed
qed simp

lemma last_page: "i + n < length xs \<Longrightarrow> 1 \<le> n \<Longrightarrow> last (take n (drop i xs)) = xs ! (i + n - 1)"
  by (simp add: last_conv_nth min_def)

interpretation name_paging: paging "\<lambda>xs n. Window L keyOf xs (int n)" "name_tok keyOf" "name_ok L keyOf"
  for L keyOf
proof unfold_locales
  fix xs :: "'a list" and n i :: nat
  assume ok: "name_ok L keyOf xs n" and i: "i \<le> length xs" "i = 0 \<or> i < length xs"
  show "Window L keyOf xs (int n) (name_tok keyOf xs i) =
      Inr (take n (drop i xs), if i + n < length xs then name_tok keyOf xs (i + n) else [])"
  proof (cases "i = 0")
    case True
    with ok i show ?thesis
      by (auto simp: Window_def name_tok_def name_ok_def page_size_in cut_window_at
          last_page [of 0, simplified])
  next
    case False
    then obtain j where j: "i = Suc j" by (cases i) auto
    from ok have s: "sorted_wrt (<) (map keyOf xs)" and ne: "[] \<notin> set (map keyOf xs)"
      by (auto simp: name_ok_def)
    from i j have lt: "j < length xs" by auto
    with ne have k: "keyOf (xs ! j) \<noteq> []" by (metis length_map nth_map nth_mem)
    have "takeWhile (\<lambda>x. keyOf x \<le> keyOf (xs ! j)) xs = take i xs"
      using takeWhile_sorted [OF s lt] j by (metis takeWhile_eq_take)
    then show ?thesis using takeWhile_sorted [OF s lt] ok i j k
      by (auto simp: Window_def name_tok_def name_ok_def page_size_in cut_window_at last_page
          Encode_def Decode_def b64_decode_encode)
  qed
next
  fix xs :: "'a list" and n i :: nat
  assume ok: "name_ok L keyOf xs n" and i: "0 < i" "i < length xs"
  then have "keyOf (xs ! (i - 1)) \<in> set (map keyOf xs)" by auto
  with ok i show "name_tok keyOf xs i \<noteq> []"
    by (auto simp: name_ok_def name_tok_def Encode_def simp del: set_map)
qed (auto simp: name_ok_def name_tok_def)

text \<open>The catalogue's offset cursors are unpadded and URL-safe.\<close>

definition catalog_page :: "string list \<Rightarrow> nat \<Rightarrow> string \<Rightarrow> gerror + (string list \<times> string)" where
  "catalog_page xs n t = (case catalogWindow xs t (int n) of
     (p, e, hm) \<Rightarrow> Inr (p, if hm then encodeCatalogCursor e else []))"

definition catalog_tok :: "string list \<Rightarrow> nat \<Rightarrow> string" where
  "catalog_tok xs i = (if i = 0 then [] else encodeCatalogCursor (int i))"

definition catalog_ok :: "string list \<Rightarrow> nat \<Rightarrow> bool" where
  "catalog_ok xs n \<longleftrightarrow> 1 \<le> n \<and> length xs < 2 ^ 63"

lemma decodeCatalog_nil [simp]: "decodeCatalogCursor [] = 0"
  by (simp add: decodeCatalogCursor_def)

lemma decode_encodeCatalog: "i < 2 ^ 63 \<Longrightarrow> decodeCatalogCursor (encodeCatalogCursor (int i)) = int i"
  using atoi_itoa [of "int i"]
  by (simp add: decodeCatalogCursor_def encodeCatalogCursor_def b64_decode_encode)

interpretation catalog_paging: paging catalog_page catalog_tok catalog_ok
proof unfold_locales
  fix xs :: "string list" and n i :: nat
  assume ok: "catalog_ok xs n" and i: "i \<le> length xs" "i = 0 \<or> i < length xs"
  have d: "decodeCatalogCursor (catalog_tok xs i) = int i"
    using decode_encodeCatalog [of i] ok i
    by (auto simp: catalog_tok_def catalog_ok_def)
  show "catalog_page xs n (catalog_tok xs i) =
      Inr (take n (drop i xs), if i + n < length xs then catalog_tok xs (i + n) else [])"
    using ok i by (auto simp: catalog_page_def catalogWindow_def Let_def d catalog_ok_def)
      (auto simp: catalog_tok_def)
qed (auto simp: catalog_ok_def catalog_tok_def encodeCatalogCursor_def)

end
