(* ===== verification/OciPath.thy ===== *)
theory OciPath
  imports Paging
begin

text \<open>
  \<open>dataplane/path.go\<close>: the escaped request path is cut into segments first and each segment is
  decoded on its own, so an encoded separator or dot segment cannot change the shape of the
  path. What a parsed request addresses is then the registry and the repository whose
  authorization objects \<open>dataplane/authz.go\<close> builds.
\<close>

section \<open>Definitions\<close>

datatype route = routeInvalid | routePing | routeCatalog | routeManifest | routeBlob
  | routeUpload | routeTagsList | routeReferrers

record parsed =
  o_route :: route
  o_registryID :: string
  o_repo :: string
  o_reference :: string

definition parsed_of :: "route \<Rightarrow> parsed" where
  "parsed_of rt = \<lparr>o_route = rt, o_registryID = [], o_repo = [], o_reference = []\<rparr>"

definition errTraversal :: gerror where
  "errTraversal = Raw ''path traversal rejected''"

definition unsafe_segment :: "string \<Rightarrow> bool" where
  "unsafe_segment dec \<longleftrightarrow> dec = ''.'' \<or> dec = ''..'' \<or> CHR ''/'' \<in> set dec \<or> CHR 0x5C \<in> set dec"

fun path_segments :: "string list \<Rightarrow> string list option" where
  "path_segments [] = Some []"
| "path_segments (raw # rest) =
     (if raw = [] then path_segments rest
      else case path_unescape raw of None \<Rightarrow> None
      | Some dec \<Rightarrow> if unsafe_segment dec then None
          else map_option (\<lambda>segs. dec # segs) (path_segments rest))"

definition finishName :: "corelib \<Rightarrow> string list \<Rightarrow> route \<Rightarrow> string \<Rightarrow> gerror + parsed" where
  "finishName L nameSegs rt ref =
     (if length nameSegs < 2 then Inr (parsed_of routeInvalid)
      else let registryID = nameSegs ! 0 in
        (case cl_ResourceID L ''registry'' (cl_PrefixRegistry L) registryID of
           Some e \<Rightarrow> Inr (parsed_of routeInvalid)
         | None \<Rightarrow> Inr \<lparr>o_route = rt, o_registryID = registryID,
             o_repo = join_with CHR ''/'' (drop 1 nameSegs), o_reference = ref\<rparr>))"

definition route_segments :: "corelib \<Rightarrow> string list \<Rightarrow> gerror + parsed" where
  "route_segments L segs =
     (let n = length segs in
      if n = 1 \<and> segs ! 0 = ''_catalog'' then Inr (parsed_of routeCatalog)
      else if n \<ge> 3 \<and> segs ! (n - 2) = ''tags'' \<and> segs ! (n - 1) = ''list''
      then finishName L (take (n - 2) segs) routeTagsList []
      else if n \<ge> 3 \<and> segs ! (n - 2) = ''blobs'' \<and> segs ! (n - 1) = ''uploads''
      then finishName L (take (n - 2) segs) routeUpload []
      else if n \<ge> 4 \<and> segs ! (n - 3) = ''blobs'' \<and> segs ! (n - 2) = ''uploads''
      then finishName L (take (n - 3) segs) routeUpload []
      else if n \<ge> 3 \<and> segs ! (n - 2) = ''manifests''
      then finishName L (take (n - 2) segs) routeManifest (segs ! (n - 1))
      else if n \<ge> 3 \<and> segs ! (n - 2) = ''referrers''
      then finishName L (take (n - 2) segs) routeReferrers (segs ! (n - 1))
      else if n \<ge> 3 \<and> segs ! (n - 2) = ''blobs''
      then finishName L (take (n - 2) segs) routeBlob (segs ! (n - 1))
      else Inr (parsed_of routeInvalid))"

definition parsePath :: "corelib \<Rightarrow> string \<Rightarrow> gerror + parsed" where
  "parsePath L escapedPath =
     (if escapedPath = ''/v2'' \<or> escapedPath = ''/v2/'' then Inr (parsed_of routePing)
      else case cut_prefix escapedPath ''/v2/'' of None \<Rightarrow> Inr (parsed_of routeInvalid)
      | Some trimmed \<Rightarrow>
          (case path_segments (split_on CHR ''/'' trimmed) of None \<Rightarrow> Inl errTraversal
           | Some segs \<Rightarrow> route_segments L segs))"

definition registryObject :: "string \<Rightarrow> string" where
  "registryObject registryID = FGAObjectRef FGAObjectTypeRegistry registryID"

definition repositoryObject :: "string \<Rightarrow> string \<Rightarrow> string" where
  "repositoryObject registryID repo = FGAObjectRef FGAObjectTypeRepository (registryID @ ''/'' @ repo)"

definition repositoryObjectFull :: "string \<Rightarrow> string" where
  "repositoryObjectFull fullName = FGAObjectRef FGAObjectTypeRepository fullName"

definition fgaSubject :: "string \<Rightarrow> string \<Rightarrow> string" where
  "fgaSubject sub anonSubjectID = FGASubjectForPrincipalID sub anonSubjectID"

section \<open>Lemmas\<close>

definition repo_route :: "route \<Rightarrow> bool" where
  "repo_route rt \<longleftrightarrow> rt \<in> {routeManifest, routeBlob, routeUpload, routeTagsList, routeReferrers}"

definition safe_segment :: "string \<Rightarrow> bool" where
  "safe_segment s \<longleftrightarrow> s \<noteq> [] \<and> \<not> unsafe_segment s"

lemma path_unescape_ne: "path_unescape raw = Some dec \<Longrightarrow> raw \<noteq> [] \<Longrightarrow> dec \<noteq> []"
  by (cases raw) (auto split: if_splits list.splits option.splits)

lemma path_segments_safe:
  "path_segments ws = Some segs \<Longrightarrow> s \<in> set segs \<Longrightarrow> safe_segment s"
  by (induction ws arbitrary: segs)
    (auto simp: safe_segment_def dest: path_unescape_ne split: if_splits option.splits)

lemma path_segments_None:
  "raw \<in> set ws \<Longrightarrow> path_unescape raw = Some dec \<Longrightarrow> unsafe_segment dec \<Longrightarrow> path_segments ws = None"
proof (induction ws)
  case (Cons w ws)
  have "path_unescape [] = Some []" by simp
  with Cons show ?case by (cases "w = []") (auto simp: unsafe_segment_def split: option.splits)
qed simp

lemma path_segments_plain:
  "\<forall>w \<in> set ws. safe_segment w \<and> CHR ''%'' \<notin> set w \<Longrightarrow> path_segments ws = Some ws"
  by (induction ws) (auto simp: safe_segment_def path_unescape_plain)

lemma safe_split_join:
  "ws \<noteq> [] \<Longrightarrow> \<forall>w \<in> set ws. safe_segment w \<Longrightarrow> split_on CHR ''/'' (join_with CHR ''/'' ws) = ws"
  by (rule split_join) (auto simp: safe_segment_def unsafe_segment_def)

lemma parsed_of_simps [simp]: "o_route (parsed_of rt) = rt" "o_registryID (parsed_of rt) = []"
  by (simp_all add: parsed_of_def)

text \<open>A manifest, a blob and referrers have a reference, the other routes none.\<close>

definition reference_ok :: "route \<Rightarrow> string \<Rightarrow> bool" where
  "reference_ok rt ref \<longleftrightarrow>
     (if rt \<in> {routeManifest, routeBlob, routeReferrers} then safe_segment ref else ref = [])"

definition parsed_ok :: "corelib \<Rightarrow> parsed \<Rightarrow> bool" where
  "parsed_ok L p \<longleftrightarrow>
     cl_ResourceID L ''registry'' (cl_PrefixRegistry L) (o_registryID p) = None \<and>
     safe_segment (o_registryID p) \<and>
     (\<forall>s \<in> set (split_on CHR ''/'' (o_repo p)). safe_segment s) \<and>
     reference_ok (o_route p) (o_reference p)"

lemma finishName_ok:
  assumes f: "finishName L segs rt ref = Inr p" and r: "repo_route (o_route p)"
    and s: "\<forall>w \<in> set segs. safe_segment w" and ref: "reference_ok rt ref"
  shows "parsed_ok L p"
proof -
  from f r have len: "2 \<le> length segs"
    by (auto simp: finishName_def repo_route_def split: if_splits)
  then obtain a b rest where segs: "segs = a # b # rest" by (cases segs; cases "tl segs") auto
  from s segs have "split_on CHR ''/'' (join_with CHR ''/'' (b # rest)) = b # rest"
    by (intro safe_split_join) auto
  with f r s ref segs show ?thesis
    by (auto simp: finishName_def repo_route_def parsed_ok_def Let_def split: option.splits)
qed

lemma route_segments_ok:
  assumes f: "route_segments L segs = Inr p" and r: "repo_route (o_route p)"
    and s: "\<forall>w \<in> set segs. safe_segment w"
  shows "parsed_ok L p"
proof -
  define P where "P x \<longleftrightarrow> (x = Inr p \<longrightarrow> parsed_ok L p)" for x :: "gerror + parsed"
  have t: "\<forall>w \<in> set (take k segs). safe_segment w" for k using s by (auto dest: in_set_takeD)
  have inv: "P (Inr (parsed_of routeInvalid))" "P (Inr (parsed_of routeCatalog))"
    using r by (auto simp: P_def repo_route_def)
  have fin: "rt \<in> {routeUpload, routeTagsList} \<Longrightarrow> P (finishName L (take k segs) rt [])" for k rt
    using finishName_ok [OF _ r t] by (auto simp: P_def reference_ok_def)
  have fin': "3 \<le> length segs \<Longrightarrow> rt \<in> {routeManifest, routeBlob, routeReferrers} \<Longrightarrow>
      P (finishName L (take k segs) rt (segs ! (length segs - Suc 0)))" for k rt
    using finishName_ok [OF _ r t] s by (auto simp: P_def reference_ok_def)
  have "P (route_segments L segs)"
    unfolding route_segments_def Let_def by (simp add: inv fin fin' )
  with f show ?thesis by (simp add: P_def)
qed

lemma parsePath_ok:
  "parsePath L e = Inr p \<Longrightarrow> repo_route (o_route p) \<Longrightarrow> parsed_ok L p"
  using route_segments_ok path_segments_safe
  by (auto simp: parsePath_def repo_route_def split: if_splits option.splits)

lemma parsePath_error: "parsePath L e = Inl x \<Longrightarrow> x = errTraversal"
  by (auto simp: parsePath_def route_segments_def finishName_def Let_def
      split: if_splits option.splits)

lemma repositoryObject_inj:
  "safe_segment r \<Longrightarrow> safe_segment r' \<Longrightarrow>
   repositoryObject r n = repositoryObject r' n' \<longleftrightarrow> r = r' \<and> n = n'"
  using repoObjectID_inj [of r r' n n'] object_types_plain
  by (auto simp: repositoryObject_def FGAObjectRef_def repoObjectID_def safe_segment_def unsafe_segment_def)

lemma registry_repository_objects_ne: "registryObject r \<noteq> repositoryObject r' n"
  by (simp add: registryObject_def repositoryObject_def FGAObjectRef_def fga_object_types)

section \<open>The canonical paths\<close>

definition oci_path :: "string list \<Rightarrow> string" where
  "oci_path segs = ''/v2/'' @ join_with CHR ''/'' segs"

definition plain_segment :: "string \<Rightarrow> bool" where
  "plain_segment s \<longleftrightarrow> safe_segment s \<and> CHR ''%'' \<notin> set s"

lemma plain_segment_of_name:
  assumes v: "ValidateRepositoryName f repo = None" and s: "s \<in> set (split_on CHR ''/'' repo)"
  shows "plain_segment s"
proof -
  have c: "name_char x" if "x \<in> set s" for x
    using repo_name_chars [OF v split_on_subset [OF s that]] .
  have "CHR ''/'' \<notin> set s" using s by (rule split_on_no_sep)
  moreover have "CHR 0x5C \<notin> set s" "CHR ''%'' \<notin> set s"
    using c [of "CHR 0x5C"] c [of "CHR ''%''"] by (auto simp: name_char_def is_alnum_def in_range_def)
  moreover have "s \<noteq> []" "s \<noteq> ''.''" "s \<noteq> ''..''"
    using segment_not_dots [OF repo_name_segments [OF v s]] repo_name_segments [OF v s] by auto
  ultimately show ?thesis by (simp add: plain_segment_def safe_segment_def unsafe_segment_def)
qed

lemma parsePath_oci_path:
  assumes "list_all plain_segment segs" and "segs \<noteq> []"
  shows "parsePath L (oci_path segs) = route_segments L segs"
proof -
  from assms have "\<forall>w \<in> set segs. safe_segment w" by (auto simp: list_all_iff plain_segment_def)
  with assms have sp: "split_on CHR ''/'' (join_with CHR ''/'' segs) = segs"
    by (intro safe_split_join) auto
  from assms have ps: "path_segments segs = Some segs"
    by (intro path_segments_plain) (auto simp: list_all_iff plain_segment_def)
  from assms obtain a as where "segs = a # as" "a \<noteq> []"
    by (cases segs) (auto simp: plain_segment_def safe_segment_def)
  then have "join_with CHR ''/'' segs \<noteq> []" by (cases as) auto
  then show ?thesis using sp ps
    by (simp add: parsePath_def oci_path_def cut_prefix_def)
qed

definition repo_segments :: "string \<Rightarrow> string \<Rightarrow> string list" where
  "repo_segments reg repo = reg # split_on CHR ''/'' repo"

lemma repo_segments_length: "2 \<le> length (repo_segments reg repo)"
  by (cases "split_on CHR ''/'' repo") (auto simp: repo_segments_def)

lemma finishName_repo:
  assumes "cl_ResourceID L ''registry'' (cl_PrefixRegistry L) reg = None"
  shows "finishName L (repo_segments reg repo) rt ref =
    Inr \<lparr>o_route = rt, o_registryID = reg, o_repo = repo, o_reference = ref\<rparr>"
  using assms repo_segments_length [of reg repo]
  by (simp add: finishName_def repo_segments_def join_split)

lemma route_segments_tail:
  assumes "2 \<le> length pre" and "b \<noteq> ''uploads''" and "c \<noteq> ''uploads''"
  shows "b = ''manifests'' \<Longrightarrow> route_segments L (pre @ [b, c]) = finishName L pre routeManifest c"
    and "b = ''referrers'' \<Longrightarrow> route_segments L (pre @ [b, c]) = finishName L pre routeReferrers c"
    and "b = ''blobs'' \<Longrightarrow> route_segments L (pre @ [b, c]) = finishName L pre routeBlob c"
    and "b = ''tags'' \<Longrightarrow> c = ''list'' \<Longrightarrow> route_segments L (pre @ [b, c]) = finishName L pre routeTagsList []"
  using assms by (auto simp: route_segments_def Let_def nth_append)

section \<open>Properties\<close>

text \<open>
  C16. Whatever bytes the client sends, a path that parses to a repository route addresses a
  well-formed registry id and a repository all of whose segments are real names after decoding: not
  empty, not \<open>.\<close> or \<open>..\<close>, without slash or backslash. A manifest, a blob or referrers are addressed by a
  reference that is one such segment, and the other routes carry no reference.
\<close>

theorem parsed_paths_stay_in_namespace:
  assumes "parsePath L path = Inr p"
    and "o_route p \<in> {routeManifest, routeBlob, routeUpload, routeTagsList, routeReferrers}"
  shows "cl_ResourceID L ''registry'' (cl_PrefixRegistry L) (o_registryID p) = None \<and>
    (\<forall>s \<in> set (o_registryID p # split_on CHR ''/'' (o_repo p) @
        (if o_route p \<in> {routeManifest, routeBlob, routeReferrers} then [o_reference p] else [])).
      s \<noteq> [] \<and> s \<noteq> ''.'' \<and> s \<noteq> ''..'' \<and> CHR ''/'' \<notin> set s \<and> CHR 0x5C \<notin> set s) \<and>
    (o_route p \<in> {routeUpload, routeTagsList} \<longrightarrow> o_reference p = [])"
proof -
  have "parsed_ok L p"
    by (rule parsePath_ok [OF assms(1)]) (simp only: repo_route_def assms(2))
  moreover have "safe_segment s \<Longrightarrow> s \<noteq> [] \<and> s \<noteq> ''.'' \<and> s \<noteq> ''..'' \<and> CHR ''/'' \<notin> set s \<and> CHR 0x5C \<notin> set s" for s
    unfolding safe_segment_def unsafe_segment_def by blast
  ultimately show ?thesis unfolding parsed_ok_def reference_ok_def by (auto split: if_splits)
qed

text \<open>
  C18. Parsing is the inverse of building: for a valid registry id and a valid repository name the
  manifest, blob, referrers and tags paths parse to exactly the registry, repository and reference
  they were built from.
\<close>

theorem oci_path_roundtrip:
  assumes reg: "cl_ResourceID L ''registry'' (cl_PrefixRegistry L) reg = None" "plain_segment reg"
    and repo: "ValidateRepositoryName ''repository'' repo = None"
    and ref: "plain_segment ref" "ref \<noteq> ''uploads''"
  shows "parsePath L (oci_path (repo_segments reg repo @ [''manifests'', ref])) =
      Inr \<lparr>o_route = routeManifest, o_registryID = reg, o_repo = repo, o_reference = ref\<rparr> \<and>
    parsePath L (oci_path (repo_segments reg repo @ [''blobs'', ref])) =
      Inr \<lparr>o_route = routeBlob, o_registryID = reg, o_repo = repo, o_reference = ref\<rparr> \<and>
    parsePath L (oci_path (repo_segments reg repo @ [''referrers'', ref])) =
      Inr \<lparr>o_route = routeReferrers, o_registryID = reg, o_repo = repo, o_reference = ref\<rparr> \<and>
    parsePath L (oci_path (repo_segments reg repo @ [''tags'', ''list''])) =
      Inr \<lparr>o_route = routeTagsList, o_registryID = reg, o_repo = repo, o_reference = []\<rparr>"
proof -
  have pre: "list_all plain_segment (repo_segments reg repo)"
    using plain_segment_of_name [OF repo] reg(2) by (simp add: repo_segments_def list_all_iff)
  have go: "parsePath L (oci_path (repo_segments reg repo @ [b, c])) =
      route_segments L (repo_segments reg repo @ [b, c])"
    if "plain_segment b" "plain_segment c" for b c
    using pre that by (intro parsePath_oci_path) auto
  have lits: "plain_segment ''manifests''" "plain_segment ''blobs''" "plain_segment ''referrers''"
      "plain_segment ''tags''" "plain_segment ''list''"
    by (simp_all add: plain_segment_def safe_segment_def unsafe_segment_def)
  note tail = route_segments_tail [OF repo_segments_length]
  note fin = finishName_repo [OF reg(1)]
  show ?thesis
    unfolding go [OF lits(1) ref(1)] go [OF lits(2) ref(1)] go [OF lits(3) ref(1)] go [OF lits(4) lits(5)]
    using ref(2) tail(1) [of "''manifests''" ref] tail(3) [of "''blobs''" ref]
      tail(2) [of "''referrers''" ref] tail(4) [of "''tags''" "''list''"]
    by (simp add: fin)
qed

text \<open>A corelib that accepts the ids with a fixed prefix, for concrete evaluations.\<close>

definition demo_corelib :: corelib where
  "demo_corelib = \<lparr>cl_PrefixRegistry = ''reg'',
     cl_ResourceID = (\<lambda>_ p i. if has_prefix i p \<and> length i \<le> 20 then None
        else Some (GStatus InvalidArgument ''invalid id'')),
     cl_PageSize = (\<lambda>_ n. if 0 \<le> n \<and> n \<le> 1000 then Inr (if n = 0 then 50 else n)
        else Inl (GStatus InvalidArgument ''page_size'')),
     cl_Labels = (\<lambda>_ ls. if length ls \<le> 64 then None else Some (GStatus InvalidArgument ''labels'')),
     cl_Description = (\<lambda>_ d. if length d \<le> 256 then None else Some (GStatus InvalidArgument ''description'')),
     cl_UpdateMask = (\<lambda>_ mask known. if set mask \<subseteq> set known then None
        else Some (GStatus InvalidArgument ''update_mask''))\<rparr>"

lemma demo_corelib_contracts:
  "page_size_contract demo_corelib" "update_mask_contract demo_corelib" "resource_id_contract demo_corelib"
  by (auto simp: page_size_contract_def update_mask_contract_def resource_id_contract_def demo_corelib_def)

lemma oci_path_roundtrip_witness:
  "parsePath demo_corelib (oci_path (repo_segments ''reg1'' ''team/app'' @ [''manifests'', ''v1''])) =
     Inr \<lparr>o_route = routeManifest, o_registryID = ''reg1'', o_repo = ''team/app'', o_reference = ''v1''\<rparr>"
proof (rule oci_path_roundtrip [THEN conjunct1])
  show "ValidateRepositoryName ''repository'' ''team/app'' = None" by code_simp
qed (simp_all add: demo_corelib_def plain_segment_def safe_segment_def unsafe_segment_def)

lemma parsed_paths_stay_in_namespace_witness:
  "cl_ResourceID demo_corelib ''registry'' (cl_PrefixRegistry demo_corelib) ''reg1'' = None"
proof -
  have "parsePath demo_corelib ''/v2/reg1/a%62/manifests/v1'' =
      Inr \<lparr>o_route = routeManifest, o_registryID = ''reg1'', o_repo = ''ab'', o_reference = ''v1''\<rparr>"
    by code_simp
  from parsed_paths_stay_in_namespace [OF this] show ?thesis by simp
qed

text \<open>
  C17. An encoded traversal is refused: if any segment of the path decodes to \<open>.\<close>, \<open>..\<close> or
  something with a slash or a backslash in it, the request is answered before any route is chosen.
\<close>

theorem encoded_traversal_is_rejected:
  assumes "raw \<in> set (split_on CHR ''/'' rest)" and "path_unescape raw = Some dec"
    and "dec \<in> {''.'', ''..''} \<or> CHR ''/'' \<in> set dec \<or> CHR 0x5C \<in> set dec"
  shows "parsePath L (''/v2/'' @ rest) = Inl errTraversal"
proof -
  from assms(3) have u: "unsafe_segment dec" by (auto simp: unsafe_segment_def)
  have "rest \<noteq> []" using assms(1,2) u by (auto simp: unsafe_segment_def)
  with path_segments_None [OF assms(1,2) u] show ?thesis
    by (simp add: parsePath_def cut_prefix_def)
qed

lemma encoded_traversal_is_rejected_witness:
  "parsePath demo_corelib ''/v2/reg1/%2e%2E/manifests/v1'' = Inl errTraversal"
proof -
  have "''%2e%2E'' \<in> set (split_on CHR ''/'' ''reg1/%2e%2E/manifests/v1'')" by code_simp
  moreover have "path_unescape ''%2e%2E'' = Some ''..''" by code_simp
  ultimately show ?thesis
    using encoded_traversal_is_rejected [of "''%2e%2E''" "''reg1/%2e%2E/manifests/v1''" "''..''" demo_corelib]
    by simp
qed

end
