(* ===== verification/DataPlane.thy ===== *)
theory DataPlane
  imports OciPath
begin

text \<open>
  \<open>dataplane/handler.go\<close>: the OCI authorization proxy. The ports of \<open>dataplane/ports.go\<close> are the
  fields of a record of state transformers over a world the model knows nothing about, so a port
  may answer anything, errors included, and differently each time. The handler runs in that world
  extended with a trace of the calls it made and of what it sent to the client, and with the
  deletions it started in the background. Logging, deadlines and streaming are left out: a
  deadline that passes is an error the port returns.
\<close>

section \<open>Requests, responses and the trace\<close>

record request =
  rq_Method :: string
  rq_EscapedPath :: string
  rq_Query :: "(string \<times> string) list"
  rq_Authorization :: string

datatype body = ErrorBody string string | Repositories "string list" | Bytes string

record response =
  rs_Status :: int
  rs_Header :: "(string \<times> string) list"
  rs_Body :: body

datatype event =
    EVerify string "gerror + string"
  | ECheck string string string "gerror + bool"
  | ERepoExists string string "gerror + bool"
  | EBlobInRepo string string string "gerror + bool"
  | ECatalog "gerror + string list"
  | EBlobUploaded string string string "gerror + bool"
  | ERecordBlob string string string "gerror + unit"
  | EPushGranted string string string "gerror + bool"
  | ERecordGrant string string string "gerror + unit"
  | EDropGrant string string string "gerror + unit"
  | EProject string "gerror + string"
  | ERegister register_intent "gerror + unit"
  | EForward request response
  | ECapture request response
  | EReply response

record 'w hstate =
  hs_world :: 'w
  hs_trace :: "event list"
  hs_background :: "(string \<times> string \<times> string) list"

section \<open>Ports\<close>

record 'w upload_recorder =
  up_RecordUploadedBlob :: "string \<Rightarrow> string \<Rightarrow> string \<Rightarrow> ('w, gerror + unit) state"
  up_BlobUploaded :: "string \<Rightarrow> string \<Rightarrow> string \<Rightarrow> ('w, gerror + bool) state"

record 'w push_grant_recorder =
  pg_RecordPushGrant :: "string \<Rightarrow> string \<Rightarrow> string \<Rightarrow> ('w, gerror + unit) state"
  pg_PushGranted :: "string \<Rightarrow> string \<Rightarrow> string \<Rightarrow> ('w, gerror + bool) state"
  pg_DeletePushGrant :: "string \<Rightarrow> string \<Rightarrow> string \<Rightarrow> ('w, gerror + unit) state"

record 'w backend =
  be_RepoExists :: "string \<Rightarrow> string \<Rightarrow> ('w, gerror + bool) state"
  be_BlobInRepo :: "string \<Rightarrow> string \<Rightarrow> string \<Rightarrow> ('w, gerror + bool) state"
  be_CatalogRepoNames :: "('w, gerror + string list) state"

record 'w forwarder =
  fw_Forward :: "request \<Rightarrow> ('w, response) state"
  fw_ForwardCapture :: "request \<Rightarrow> ('w, response) state"

record 'w handler =
  h_verifier :: "(string \<Rightarrow> ('w, gerror + string) state) option"
  h_authz :: "(string \<Rightarrow> string \<Rightarrow> string \<Rightarrow> ('w, gerror + bool) state) option"
  h_backend :: "'w backend"
  h_forwarder :: "'w forwarder"
  h_repoReg :: "(register_intent \<Rightarrow> ('w, gerror + unit) state) option"
  h_regLookup :: "(string \<Rightarrow> ('w, gerror + string) state) option"
  h_uploads :: "'w upload_recorder option"
  h_pushGrants :: "'w push_grant_recorder option"
  h_realm :: string
  h_service :: string
  h_anonSubjectID :: string

definition NewHandler where
  "NewHandler verifier authz backend forwarder repoReg regLookup uploads pushGrants realm service =
     \<lparr>h_verifier = verifier, h_authz = authz, h_backend = backend, h_forwarder = forwarder,
      h_repoReg = repoReg, h_regLookup = regLookup, h_uploads = uploads, h_pushGrants = pushGrants,
      h_realm = (if realm = [] then ''https://api.kacho.local/iam/token'' else realm),
      h_service = (if service = [] then ''registry.kacho.local'' else service),
      h_anonSubjectID = []\<rparr>"

definition WithAnonymousSubject :: "'w handler \<Rightarrow> string \<Rightarrow> 'w handler" where
  "WithAnonymousSubject h anonSubjectID = h\<lparr>h_anonSubjectID := anonSubjectID\<rparr>"

definition emit :: "event \<Rightarrow> ('w hstate, unit) state" where
  "emit e = State_Monad.update (\<lambda>s. s\<lparr>hs_trace := hs_trace s @ [e]\<rparr>)"

text \<open>A port call: it runs in the world and leaves its answer in the trace.\<close>

definition call :: "('w, 'a) state \<Rightarrow> ('a \<Rightarrow> event) \<Rightarrow> ('w hstate, 'a) state" where
  "call m ev = State (\<lambda>s. case run_state m (hs_world s) of
     (a, w) \<Rightarrow> (a, s\<lparr>hs_world := w, hs_trace := hs_trace s @ [ev a]\<rparr>))"

section \<open>Responses\<close>

definition errorResponse :: "int \<Rightarrow> string \<Rightarrow> string \<Rightarrow> response" where
  "errorResponse status code message = \<lparr>rs_Status = status,
     rs_Header = [(''Content-Type'', ''application/json'')], rs_Body = ErrorBody code message\<rparr>"

definition writeError :: "int \<Rightarrow> string \<Rightarrow> string \<Rightarrow> ('w hstate, unit) state" where
  "writeError status code message = emit (EReply (errorResponse status code message))"

definition notFoundResponse :: response where
  "notFoundResponse = errorResponse 404 ''NAME_UNKNOWN'' ''not found''"

definition writeNotFound :: "('w hstate, unit) state" where
  "writeNotFound = emit (EReply notFoundResponse)"

definition deniedResponse :: response where
  "deniedResponse = errorResponse 403 ''DENIED'' ''requested access to the resource is denied''"

definition writeDenied :: "('w hstate, unit) state" where
  "writeDenied = emit (EReply deniedResponse)"

definition unavailableResponse :: response where
  "unavailableResponse = errorResponse 503 ''UNAVAILABLE'' ''service unavailable''"

definition failClosed :: "('w hstate, unit) state" where
  "failClosed = emit (EReply unavailableResponse)"

definition relayed :: "response \<Rightarrow> response" where
  "relayed cr = cr\<lparr>rs_Status := (if rs_Status cr = 0 then 200 else rs_Status cr)\<rparr>"

definition writeCaptured :: "response \<Rightarrow> ('w hstate, unit) state" where
  "writeCaptured cr = emit (EReply (relayed cr))"

definition methodIs :: "request \<Rightarrow> string list \<Rightarrow> bool" where
  "methodIs r ms \<longleftrightarrow> rq_Method r \<in> set ms"

definition queryGet :: "request \<Rightarrow> string \<Rightarrow> string" where
  "queryGet r k = (case map_of (rq_Query r) k of Some v \<Rightarrow> v | None \<Rightarrow> [])"

definition writePing :: "request \<Rightarrow> ('w hstate, unit) state" where
  "writePing r =
     (if \<not> methodIs r [''GET'', ''HEAD''] then writeNotFound
      else emit (EReply \<lparr>rs_Status = 200,
        rs_Header = [(''Docker-Distribution-Api-Version'', ''registry/2.0''),
          (''Content-Type'', ''application/json'')],
        rs_Body = Bytes ''{}''\<rparr>))"

definition challenge :: "'w handler \<Rightarrow> bool \<Rightarrow> ('w hstate, unit) state" where
  "challenge h invalidToken =
     (let c = ''Bearer realm='' @ [CHR 0x22] @ h_realm h @ [CHR 0x22] @ '',service='' @ [CHR 0x22] @
            h_service h @ [CHR 0x22];
          c = (if invalidToken then c @ '',error='' @ [CHR 0x22] @ ''invalid_token'' @ [CHR 0x22] else c);
          e = errorResponse 401 ''UNAUTHORIZED'' ''authentication required''
      in emit (EReply (e\<lparr>rs_Header := (''WWW-Authenticate'', c) # rs_Header e\<rparr>)))"

section \<open>Authentication and the single check\<close>

definition bearerToken :: "request \<Rightarrow> string option" where
  "bearerToken r =
     (let auth = rq_Authorization r; scheme = ''bearer '' in
      if auth = [] then None
      else if length auth \<le> length scheme \<or> \<not> equal_fold (take (length scheme) auth) scheme then None
      else Some (trim_space (drop (length scheme) auth)))"

definition authenticate :: "'w handler \<Rightarrow> request \<Rightarrow> ('w hstate, string \<times> bool \<times> bool) state" where
  "authenticate h r =
     (case h_verifier h of None \<Rightarrow> State_Monad.return (''bootstrap'', False, True)
      | Some verify \<Rightarrow>
        (case bearerToken r of None \<Rightarrow> State_Monad.return ([], False, False)
         | Some raw \<Rightarrow>
             do { v \<leftarrow> call (verify raw) (EVerify raw);
                  State_Monad.return (case v of Inl e \<Rightarrow> ([], True, False)
                    | Inr sub \<Rightarrow> if sub = [] then ([], True, False) else (sub, False, True)) }))"

definition checkAllowed :: "'w handler \<Rightarrow> string \<Rightarrow> string \<Rightarrow> string \<Rightarrow> ('w hstate, gerror + bool) state" where
  "checkAllowed h subject relation object =
     (case h_authz h of None \<Rightarrow> State_Monad.return (Inr True)
      | Some chk \<Rightarrow> call (chk subject relation object) (ECheck subject relation object))"

definition check :: "'w handler \<Rightarrow> string \<Rightarrow> string \<Rightarrow> string \<Rightarrow> ('w hstate, bool) state" where
  "check h subject relation object =
     do { v \<leftarrow> checkAllowed h subject relation object;
          (case v of Inl e \<Rightarrow> do { failClosed; State_Monad.return False }
           | Inr False \<Rightarrow> do { writeDenied; State_Monad.return False }
           | Inr True \<Rightarrow> State_Monad.return True) }"

definition repoExists :: "'w handler \<Rightarrow> parsed \<Rightarrow> ('w hstate, gerror + bool) state" where
  "repoExists h p = call (be_RepoExists (h_backend h) (o_registryID p) (o_repo p))
     (ERepoExists (o_registryID p) (o_repo p))"

definition blobInRepo :: "'w handler \<Rightarrow> string \<Rightarrow> string \<Rightarrow> string \<Rightarrow> ('w hstate, gerror + bool) state" where
  "blobInRepo h reg repo digest = call (be_BlobInRepo (h_backend h) reg repo digest) (EBlobInRepo reg repo digest)"

definition forward :: "'w handler \<Rightarrow> request \<Rightarrow> ('w hstate, int) state" where
  "forward h r =
     do { resp \<leftarrow> call (fw_Forward (h_forwarder h) r) (EForward r);
          State_Monad.return (rs_Status resp) }"

definition forwardOnly :: "'w handler \<Rightarrow> request \<Rightarrow> ('w hstate, unit) state" where
  "forwardOnly h r = do { st \<leftarrow> forward h r; State_Monad.return () }"

section \<open>Reads\<close>

definition blobUploadedToRepo :: "'w handler \<Rightarrow> string \<Rightarrow> string \<Rightarrow> string \<Rightarrow> ('w hstate, gerror + bool) state" where
  "blobUploadedToRepo h reg repo digest =
     (case h_uploads h of None \<Rightarrow> State_Monad.return (Inr False)
      | Some u \<Rightarrow> call (up_BlobUploaded u reg repo digest) (EBlobUploaded reg repo digest))"

definition pushContextRevealsBlob :: "'w handler \<Rightarrow> parsed \<Rightarrow> string \<Rightarrow> ('w hstate, gerror + bool) state" where
  "pushContextRevealsBlob h p subject =
     andThen (repoExists h p) (\<lambda>exists.
       if exists then State_Monad.return (Inr False)
       else andThen (checkAllowed h subject FGARelationVCreate (registryObject (o_registryID p))) (\<lambda>allowed.
         if \<not> allowed then State_Monad.return (Inr False)
         else blobUploadedToRepo h (o_registryID p) (o_repo p) (o_reference p)))"

definition pushOwnerRevealsRepo :: "'w handler \<Rightarrow> parsed \<Rightarrow> string \<Rightarrow> ('w hstate, gerror + bool) state" where
  "pushOwnerRevealsRepo h p subject =
     (case h_pushGrants h of None \<Rightarrow> State_Monad.return (Inr False)
      | Some g \<Rightarrow> call (pg_PushGranted g (o_registryID p) (o_repo p) subject)
          (EPushGranted (o_registryID p) (o_repo p) subject))"

definition dropPushGrantMaterialized :: "'w handler \<Rightarrow> parsed \<Rightarrow> string \<Rightarrow> ('w hstate, unit) state" where
  "dropPushGrantMaterialized h p subject =
     (case h_pushGrants h of None \<Rightarrow> State_Monad.return ()
      | Some g \<Rightarrow> State_Monad.update (\<lambda>s. s\<lparr>hs_background :=
          hs_background s @ [(o_registryID p, o_repo p, subject)]\<rparr>))"

text \<open>The goroutine: it deletes the grant some time after the request; its error is logged only.\<close>

definition runBackground :: "'w handler \<Rightarrow> ('w hstate, unit) state" where
  "runBackground h = do { s \<leftarrow> State_Monad.get;
     (case (h_pushGrants h, hs_background s) of
        (Some g, (reg, repo, subject) # jobs) \<Rightarrow>
          do { State_Monad.update (\<lambda>s. s\<lparr>hs_background := jobs\<rparr>);
               r \<leftarrow> call (pg_DeletePushGrant g reg repo subject) (EDropGrant reg repo subject);
               State_Monad.return () }
      | _ \<Rightarrow> State_Monad.return ()) }"

definition serveBlobScoped :: "'w handler \<Rightarrow> request \<Rightarrow> parsed \<Rightarrow> ('w hstate, unit) state" where
  "serveBlobScoped h r p =
     do { v \<leftarrow> blobInRepo h (o_registryID p) (o_repo p) (o_reference p);
          (case v of Inl e \<Rightarrow> failClosed
           | Inr True \<Rightarrow> forwardOnly h r
           | Inr False \<Rightarrow>
               do { u \<leftarrow> blobUploadedToRepo h (o_registryID p) (o_repo p) (o_reference p);
                    (case u of Inl e \<Rightarrow> failClosed
                     | Inr False \<Rightarrow> writeNotFound
                     | Inr True \<Rightarrow> forwardOnly h r) }) }"

definition serveBlob :: "'w handler \<Rightarrow> request \<Rightarrow> parsed \<Rightarrow> string \<Rightarrow> ('w hstate, unit) state" where
  "serveBlob h r p subject =
     (if \<not> methodIs r [''GET'', ''HEAD''] then writeNotFound
      else do { v \<leftarrow> checkAllowed h subject FGARelationVGet (repositoryObject (o_registryID p) (o_repo p));
        (case v of Inl e \<Rightarrow> failClosed
         | Inr False \<Rightarrow>
             do { rv \<leftarrow> pushContextRevealsBlob h p subject;
                  (case rv of Inl e \<Rightarrow> failClosed
                   | Inr True \<Rightarrow> forwardOnly h r
                   | Inr False \<Rightarrow>
                       do { ow \<leftarrow> pushOwnerRevealsRepo h p subject;
                            (case ow of Inl e \<Rightarrow> failClosed
                             | Inr False \<Rightarrow> writeNotFound
                             | Inr True \<Rightarrow> serveBlobScoped h r p) }) }
         | Inr True \<Rightarrow> do { dropPushGrantMaterialized h p subject; serveBlobScoped h r p }) })"

definition servePullOnly :: "'w handler \<Rightarrow> request \<Rightarrow> parsed \<Rightarrow> string \<Rightarrow> string \<Rightarrow> ('w hstate, unit) state" where
  "servePullOnly h r p subject relation =
     (if \<not> methodIs r [''GET'', ''HEAD''] then writeNotFound
      else do { v \<leftarrow> checkAllowed h subject relation (repositoryObject (o_registryID p) (o_repo p));
        (case v of Inl e \<Rightarrow> failClosed
         | Inr False \<Rightarrow>
             do { rv \<leftarrow> pushOwnerRevealsRepo h p subject;
                  (case rv of Inl e \<Rightarrow> failClosed
                   | Inr False \<Rightarrow> writeNotFound
                   | Inr True \<Rightarrow> forwardOnly h r) }
         | Inr True \<Rightarrow> do { dropPushGrantMaterialized h p subject; forwardOnly h r }) })"

section \<open>Pushes\<close>

definition isBlobFinalize :: "parsed \<Rightarrow> request \<Rightarrow> bool" where
  "isBlobFinalize p r \<longleftrightarrow> o_route p = routeUpload \<and> methodIs r [''PUT'', ''POST''] \<and> queryGet r ''digest'' \<noteq> []"

definition twoXX :: "int \<Rightarrow> bool" where
  "twoXX st \<longleftrightarrow> 200 \<le> st \<and> st < 300"

definition forwardBlobFinalize :: "'w handler \<Rightarrow> request \<Rightarrow> parsed \<Rightarrow> ('w hstate, unit) state" where
  "forwardBlobFinalize h r p =
     do { captured \<leftarrow> call (fw_ForwardCapture (h_forwarder h) r) (ECapture r);
          (case h_uploads h of
             Some u \<Rightarrow>
               if twoXX (rs_Status captured) then
                 do { rerr \<leftarrow> call (up_RecordUploadedBlob u (o_registryID p) (o_repo p) (queryGet r ''digest''))
                        (ERecordBlob (o_registryID p) (o_repo p) (queryGet r ''digest''));
                      (case rerr of Inl e \<Rightarrow> failClosed | Inr _ \<Rightarrow> writeCaptured captured) }
               else writeCaptured captured
           | None \<Rightarrow> writeCaptured captured) }"

definition resolveRegistryProject :: "'w handler \<Rightarrow> string \<Rightarrow> ('w hstate, string) state" where
  "resolveRegistryProject h registryID =
     (case h_regLookup h of None \<Rightarrow> State_Monad.return []
      | Some look \<Rightarrow> do { v \<leftarrow> call (look registryID) (EProject registryID);
          State_Monad.return (case v of Inl e \<Rightarrow> [] | Inr projectID \<Rightarrow> projectID) })"

definition serveMount :: "'w handler \<Rightarrow> request \<Rightarrow> parsed \<Rightarrow> string \<Rightarrow> string \<Rightarrow> ('w hstate, unit) state" where
  "serveMount h r p subject fromName =
     (if contains fromName ''..'' then writeError 400 ''NAME_INVALID'' ''malformed mount source''
      else do { src \<leftarrow> checkAllowed h subject FGARelationVGet (repositoryObjectFull fromName);
        (case src of Inl e \<Rightarrow> failClosed
         | Inr allowedSrc \<Rightarrow>
           do { ex \<leftarrow> repoExists h p;
             (case ex of Inl e \<Rightarrow> failClosed
              | Inr dstExists \<Rightarrow>
                do { dst \<leftarrow> (if dstExists
                       then checkAllowed h subject FGARelationVUpdate (repositoryObject (o_registryID p) (o_repo p))
                       else checkAllowed h subject FGARelationVCreate (registryObject (o_registryID p)));
                  (case dst of Inl e \<Rightarrow> failClosed
                   | Inr allowedDst \<Rightarrow>
                     (if \<not> allowedSrc \<or> \<not> allowedDst then writeDenied
                      else case cut_at CHR ''/'' fromName of None \<Rightarrow> writeNotFound
                      | Some (fromRegistryID, fromRepo) \<Rightarrow>
                        do { inb \<leftarrow> blobInRepo h fromRegistryID fromRepo (queryGet r ''mount'');
                             (case inb of Inl e \<Rightarrow> failClosed
                              | Inr False \<Rightarrow> writeNotFound
                              | Inr True \<Rightarrow> forwardOnly h r) })) }) }) })"

text \<open>The durable side effects of a pushed manifest, after the response has been streamed.\<close>

definition manifestPushed :: "'w handler \<Rightarrow> parsed \<Rightarrow> string \<Rightarrow> bool \<Rightarrow> ('w hstate, unit) state" where
  "manifestPushed h p subject exists =
     do { (case h_pushGrants h of None \<Rightarrow> State_Monad.return ()
           | Some g \<Rightarrow> do { gerr \<leftarrow> call (pg_RecordPushGrant g (o_registryID p) (o_repo p) subject)
                 (ERecordGrant (o_registryID p) (o_repo p) subject);
               State_Monad.return () });
          (if \<not> exists then
             do { projectID \<leftarrow> resolveRegistryProject h (o_registryID p);
                  (case h_repoReg h of None \<Rightarrow> State_Monad.return ()
                   | Some reg \<Rightarrow>
                       do { rerr \<leftarrow> call (reg (RegisterIntentForRepoPush (o_registryID p) (o_repo p) projectID subject))
                              (ERegister (RegisterIntentForRepoPush (o_registryID p) (o_repo p) projectID subject));
                            State_Monad.return () }) }
           else State_Monad.return ()) }"

definition servePush :: "'w handler \<Rightarrow> request \<Rightarrow> parsed \<Rightarrow> string \<Rightarrow> ('w hstate, unit) state" where
  "servePush h r p subject =
     (if o_route p = routeUpload \<and> methodIs r [''POST''] \<and> queryGet r ''mount'' \<noteq> [] \<and> queryGet r ''from'' \<noteq> []
      then serveMount h r p subject (queryGet r ''from'')
      else do { ex \<leftarrow> repoExists h p;
        (case ex of Inl e \<Rightarrow> failClosed
         | Inr exists \<Rightarrow>
           do { ok \<leftarrow> (if exists
                  then check h subject FGARelationVUpdate (repositoryObject (o_registryID p) (o_repo p))
                  else check h subject FGARelationVCreate (registryObject (o_registryID p)));
                (if \<not> ok then State_Monad.return ()
                 else if isBlobFinalize p r then forwardBlobFinalize h r p
                 else do { status \<leftarrow> forward h r;
                   (if o_route p = routeManifest \<and> methodIs r [''PUT''] \<and> twoXX status
                    then manifestPushed h p subject exists
                    else State_Monad.return ()) }) }) })"

definition serveManifest :: "'w handler \<Rightarrow> request \<Rightarrow> parsed \<Rightarrow> string \<Rightarrow> ('w hstate, unit) state" where
  "serveManifest h r p subject =
     (if methodIs r [''GET'', ''HEAD''] then servePullOnly h r p subject FGARelationVGet
      else if methodIs r [''PUT'', ''POST'', ''PATCH''] then servePush h r p subject
      else writeNotFound)"

section \<open>The catalogue and the dispatcher\<close>

text \<open>The verdicts of a window, in the order of the names; the calls are concurrent in the program,
  and an error of any of them is the error of the group.\<close>

fun catalogFlags :: "'w handler \<Rightarrow> string \<Rightarrow> string list \<Rightarrow> ('w hstate, gerror + bool list) state" where
  "catalogFlags h subject [] = State_Monad.return (Inr [])"
| "catalogFlags h subject (full # rest) =
     do { v \<leftarrow> checkAllowed h subject FGARelationVList (repositoryObjectFull full);
          vs \<leftarrow> catalogFlags h subject rest;
          State_Monad.return (case (v, vs) of (Inl e, _) \<Rightarrow> Inl e | (_, Inl e) \<Rightarrow> Inl e
            | (Inr b, Inr bs) \<Rightarrow> Inr (b # bs)) }"

definition catalogLink :: "int \<Rightarrow> int \<Rightarrow> string" where
  "catalogLink pageSize nextOffset =
     ''</v2/_catalog?last='' @ encodeCatalogCursor nextOffset @ ''&n='' @ itoa pageSize @
     ''>; rel='' @ [CHR 0x22] @ ''next'' @ [CHR 0x22]"

definition catalogResponse :: "string list \<Rightarrow> int \<Rightarrow> string list \<Rightarrow> int \<Rightarrow> bool \<Rightarrow> response" where
  "catalogResponse window pageSize visible nextOffset hasMore = \<lparr>rs_Status = 200,
     rs_Header = (if hasMore \<and> window \<noteq> [] then [(''Link'', catalogLink pageSize nextOffset)] else []) @
       [(''Content-Type'', ''application/json'')],
     rs_Body = Repositories visible\<rparr>"

definition serveCatalog :: "'w handler \<Rightarrow> request \<Rightarrow> string \<Rightarrow> ('w hstate, unit) state" where
  "serveCatalog h r subject =
     (if \<not> methodIs r [''GET''] then writeNotFound
      else do { v \<leftarrow> call (be_CatalogRepoNames (h_backend h)) ECatalog;
        (case v of Inl e \<Rightarrow> failClosed
         | Inr names \<Rightarrow>
           (let pageSize = parseCatalogPageSize (queryGet r ''n'') in
            case catalogWindow names (queryGet r ''last'') pageSize of (window, nextOffset, hasMore) \<Rightarrow>
              do { fs \<leftarrow> catalogFlags h subject window;
                   (case fs of Inl e \<Rightarrow> failClosed
                    | Inr flags \<Rightarrow> emit (EReply (catalogResponse window pageSize
                        (keep_flags window flags) nextOffset hasMore))) })) })"

definition ServeHTTP :: "corelib \<Rightarrow> 'w handler \<Rightarrow> request \<Rightarrow> ('w hstate, unit) state" where
  "ServeHTTP L h r =
     do { a \<leftarrow> authenticate h r;
       (case a of (subject, invalidToken, ok) \<Rightarrow>
        if \<not> ok then challenge h invalidToken
        else if methodIs r [''DELETE'']
        then writeError 405 ''METHOD_NOT_ALLOWED'' ''method not allowed''
        else (case parsePath L (rq_EscapedPath r) of
          Inl e \<Rightarrow> writeError 400 ''NAME_INVALID'' ''malformed path''
        | Inr p \<Rightarrow>
           (let fga = fgaSubject subject (h_anonSubjectID h) in
            case o_route p of
              routePing \<Rightarrow> writePing r
            | routeCatalog \<Rightarrow> serveCatalog h r fga
            | routeManifest \<Rightarrow> serveManifest h r p fga
            | routeBlob \<Rightarrow> serveBlob h r p fga
            | routeTagsList \<Rightarrow> servePullOnly h r p fga FGARelationVList
            | routeReferrers \<Rightarrow> servePullOnly h r p fga FGARelationVGet
            | routeUpload \<Rightarrow> servePush h r p fga
            | routeInvalid \<Rightarrow> writeNotFound))) }"

end
