(* ===== verification/DataPlaneSafety.thy ===== *)
theory DataPlaneSafety
  imports DataPlane
begin

text \<open>
  What the proxy of \<open>DataPlane\<close> does for one request, whatever its ports answer: nothing reaches
  the engine without the checks its route calls for, a failing dependency closes the request, the
  client gets one response, and the side effects of a push are ordered against that response.
\<close>

section \<open>The events a program can emit\<close>

named_theorems emits "rules that bound the events of a program over all answers of its ports"

definition emits :: "('w hstate, 'a) state \<Rightarrow> ('a \<Rightarrow> event list \<Rightarrow> bool) \<Rightarrow> bool" where
  "emits m P \<longleftrightarrow> (\<forall>s. wp m (\<lambda>a t. \<exists>es. hs_trace t = hs_trace s @ es \<and> P a es) s)"

lemma emits_runD:
  assumes "emits m P" and "run_state m s = (a, t)"
  shows "\<exists>es. hs_trace t = hs_trace s @ es \<and> P a es"
  using assms by (auto simp: emits_def dest: wp_runD)

lemma emits_mono: "emits m P \<Longrightarrow> (\<And>a es. P a es \<Longrightarrow> Q a es) \<Longrightarrow> emits m Q"
  unfolding emits_def by (blast intro: wp_mono)

lemma emits_conj: "emits m P \<Longrightarrow> emits m Q \<Longrightarrow> emits m (\<lambda>a es. P a es \<and> Q a es)"
  unfolding emits_def wp_def by (fastforce split: prod.splits)

lemma emits_return [emits]: "P a [] \<Longrightarrow> emits (State_Monad.return a) P"
  by (simp add: emits_def)

lemma emits_bind [emits]:
  assumes "emits m (\<lambda>a es. emits (f a) (\<lambda>b es'. P b (es @ es')))"
  shows "emits (State_Monad.bind m f) P"
  unfolding emits_def
proof
  fix s
  obtain a t where m: "run_state m s = (a, t)" by force
  from emits_runD [OF assms m] obtain es where
    es: "hs_trace t = hs_trace s @ es" "emits (f a) (\<lambda>b es'. P b (es @ es'))" by blast
  obtain b u where f: "run_state (f a) t = (b, u)" by force
  from emits_runD [OF es(2) f] es(1) m f
  show "wp (State_Monad.bind m f) (\<lambda>a t. \<exists>es. hs_trace t = hs_trace s @ es \<and> P a es) s"
    by (auto simp: wp_def run)
qed

lemma emits_andThen [emits]:
  assumes "emits m (\<lambda>a es. case a of Inl e \<Rightarrow> P (Inl e) es
    | Inr b \<Rightarrow> emits (f b) (\<lambda>c es'. P c (es @ es')))"
  shows "emits (andThen m f) P"
  unfolding andThen_def
  by (rule emits_bind, rule emits_mono [OF assms]) (auto split: sum.splits intro: emits_return)

lemma emits_emit [emits]: "P () [e] \<Longrightarrow> emits (emit e) P"
  by (simp add: emits_def emit_def)

lemma emits_call [emits]: "(\<And>a. P a [ev a]) \<Longrightarrow> emits (call m ev) P"
  by (simp add: emits_def call_def split: prod.splits)

lemma emits_background [emits]: "P () [] \<Longrightarrow> emits (State_Monad.update (\<lambda>s. s\<lparr>hs_background := f s\<rparr>)) P"
  by (simp add: emits_def)

lemma emits_verdict [emits]:
  "(\<And>a. v = Inl a \<Longrightarrow> emits (f a) P) \<Longrightarrow> (v = Inr True \<Longrightarrow> emits m P) \<Longrightarrow>
   (v = Inr False \<Longrightarrow> emits n P) \<Longrightarrow> emits (case v of Inl a \<Rightarrow> f a | Inr True \<Rightarrow> m | Inr False \<Rightarrow> n) P"
  by (cases v) (auto split: bool.splits)

lemma emits_case_sum [emits]:
  "(\<And>a. v = Inl a \<Longrightarrow> emits (f a) P) \<Longrightarrow> (\<And>b. v = Inr b \<Longrightarrow> emits (g b) P) \<Longrightarrow>
   emits (case v of Inl a \<Rightarrow> f a | Inr b \<Rightarrow> g b) P"
  by (cases v) auto

lemma emits_case_bool [emits]:
  "(b \<Longrightarrow> emits m P) \<Longrightarrow> (\<not> b \<Longrightarrow> emits n P) \<Longrightarrow> emits (case b of True \<Rightarrow> m | False \<Rightarrow> n) P"
  by (cases b) auto

lemma emits_if [emits]:
  "(b \<Longrightarrow> emits m P) \<Longrightarrow> (\<not> b \<Longrightarrow> emits n P) \<Longrightarrow> emits (if b then m else n) P"
  by auto

lemma emits_case_option [emits]:
  "(v = None \<Longrightarrow> emits m P) \<Longrightarrow> (\<And>a. v = Some a \<Longrightarrow> emits (f a) P) \<Longrightarrow>
   emits (case v of None \<Rightarrow> m | Some a \<Rightarrow> f a) P"
  by (cases v) auto

lemma emits_case_prod [emits]:
  "(\<And>a b. v = (a, b) \<Longrightarrow> emits (f a b) P) \<Longrightarrow> emits (case v of (a, b) \<Rightarrow> f a b) P"
  by (cases v) auto

lemma case_sum_I: "(\<And>a. v = Inl a \<Longrightarrow> P a) \<Longrightarrow> (\<And>b. v = Inr b \<Longrightarrow> Q b) \<Longrightarrow>
   case v of Inl a \<Rightarrow> P a | Inr b \<Rightarrow> Q b"
  by (cases v) auto

section \<open>The licence of a forwarded request\<close>

fun engine_event :: "event \<Rightarrow> bool" where
  "engine_event (EForward r resp) = True"
| "engine_event (ECapture r resp) = True"
| "engine_event _ = False"

definition isRead :: "request \<Rightarrow> bool" where
  "isRead r \<longleftrightarrow> methodIs r [''GET'', ''HEAD'']"

definition isMount :: "parsed \<Rightarrow> request \<Rightarrow> bool" where
  "isMount p r \<longleftrightarrow> o_route p = routeUpload \<and> methodIs r [''POST''] \<and> queryGet r ''mount'' \<noteq> [] \<and>
     queryGet r ''from'' \<noteq> []"

definition read_allowed :: "parsed \<Rightarrow> string \<Rightarrow> string \<Rightarrow> event set \<Rightarrow> bool" where
  "read_allowed p subject relation E \<longleftrightarrow>
     ECheck subject relation (repositoryObject (o_registryID p) (o_repo p)) (Inr True) \<in> E \<or>
     EPushGranted (o_registryID p) (o_repo p) subject (Inr True) \<in> E"

definition blob_in_scope :: "parsed \<Rightarrow> event set \<Rightarrow> bool" where
  "blob_in_scope p E \<longleftrightarrow>
     EBlobInRepo (o_registryID p) (o_repo p) (o_reference p) (Inr True) \<in> E \<or>
     EBlobUploaded (o_registryID p) (o_repo p) (o_reference p) (Inr True) \<in> E"

definition first_push :: "parsed \<Rightarrow> string \<Rightarrow> event set \<Rightarrow> bool" where
  "first_push p subject E \<longleftrightarrow>
     ERepoExists (o_registryID p) (o_repo p) (Inr False) \<in> E \<and>
     ECheck subject FGARelationVCreate (registryObject (o_registryID p)) (Inr True) \<in> E"

definition write_allowed :: "parsed \<Rightarrow> string \<Rightarrow> event set \<Rightarrow> bool" where
  "write_allowed p subject E \<longleftrightarrow> first_push p subject E \<or>
     ERepoExists (o_registryID p) (o_repo p) (Inr True) \<in> E \<and>
     ECheck subject FGARelationVUpdate (repositoryObject (o_registryID p) (o_repo p)) (Inr True) \<in> E"

definition mount_source_allowed :: "request \<Rightarrow> string \<Rightarrow> event set \<Rightarrow> bool" where
  "mount_source_allowed r subject E \<longleftrightarrow>
     ECheck subject FGARelationVGet (repositoryObjectFull (queryGet r ''from'')) (Inr True) \<in> E \<and>
     (\<exists>reg repo. queryGet r ''from'' = reg @ ''/'' @ repo \<and> CHR ''/'' \<notin> set reg \<and>
        EBlobInRepo reg repo (queryGet r ''mount'') (Inr True) \<in> E)"

definition licence :: "parsed \<Rightarrow> request \<Rightarrow> string \<Rightarrow> event set \<Rightarrow> bool" where
  "licence p r subject E \<longleftrightarrow> (case o_route p of
       routeTagsList \<Rightarrow> isRead r \<and> read_allowed p subject FGARelationVList E
     | routeReferrers \<Rightarrow> isRead r \<and> read_allowed p subject FGARelationVGet E
     | routeBlob \<Rightarrow> isRead r \<and>
         (read_allowed p subject FGARelationVGet E \<and> blob_in_scope p E \<or>
          first_push p subject E \<and> EBlobUploaded (o_registryID p) (o_repo p) (o_reference p) (Inr True) \<in> E)
     | routeManifest \<Rightarrow>
         (if isRead r then read_allowed p subject FGARelationVGet E
          else methodIs r [''PUT'', ''POST'', ''PATCH''] \<and> write_allowed p subject E)
     | routeUpload \<Rightarrow> write_allowed p subject E \<and> (isMount p r \<longrightarrow> mount_source_allowed r subject E)
     | _ \<Rightarrow> False)"

text \<open>Every event of the kind \<open>T\<close> comes after events that satisfy \<open>A\<close>.\<close>

fun preceded :: "(event \<Rightarrow> bool) \<Rightarrow> (event set \<Rightarrow> bool) \<Rightarrow> event set \<Rightarrow> event list \<Rightarrow> bool" where
  "preceded T A E [] = True"
| "preceded T A E (e # es) = ((T e \<longrightarrow> A E) \<and> preceded T A (insert e E) es)"

lemma precededD:
  "preceded T A E (pre @ e # post) \<Longrightarrow> T e \<Longrightarrow> A (E \<union> set pre)"
proof (induction pre arbitrary: E)
  case (Cons a pre)
  from Cons.prems have "preceded T A (insert a E) (pre @ e # post)" by simp
  from Cons.IH [OF this Cons.prems(2)] show ?case by simp
qed simp

abbreviation guarded :: "(event set \<Rightarrow> bool) \<Rightarrow> event set \<Rightarrow> event list \<Rightarrow> bool" where
  "guarded \<equiv> preceded engine_event"

lemmas licence_defs = licence_def isRead_def isMount_def read_allowed_def blob_in_scope_def first_push_def
  write_allowed_def mount_source_allowed_def

lemma emits_checkAllowed [emits]:
  "h_authz h \<noteq> None \<Longrightarrow> (\<And>a. P a [ECheck subject rel obj a]) \<Longrightarrow> emits (checkAllowed h subject rel obj) P"
  unfolding checkAllowed_def by (cases "h_authz h") (auto intro: emits)

lemma emits_check [emits]:
  assumes "h_authz h \<noteq> None"
    and "\<And>e. P False [ECheck subject rel obj (Inl e), EReply unavailableResponse]"
    and "P False [ECheck subject rel obj (Inr False), EReply deniedResponse]"
    and "P True [ECheck subject rel obj (Inr True)]"
  shows "emits (check h subject rel obj) P"
  unfolding check_def writeDenied_def failClosed_def by (intro emits) (simp_all add: assms)

lemma emits_repoExists [emits]:
  "(\<And>a. P a [ERepoExists (o_registryID p) (o_repo p) a]) \<Longrightarrow> emits (repoExists h p) P"
  unfolding repoExists_def by (intro emits)

lemma emits_blobInRepo [emits]:
  "(\<And>a. P a [EBlobInRepo reg repo d a]) \<Longrightarrow> emits (blobInRepo h reg repo d) P"
  unfolding blobInRepo_def by (intro emits)

lemma emits_forward [emits]:
  "(\<And>resp. P (rs_Status resp) [EForward r resp]) \<Longrightarrow> emits (forward h r) P"
  unfolding forward_def by (intro emits) auto

lemma emits_forwardOnly [emits]:
  "(\<And>resp. P () [EForward r resp]) \<Longrightarrow> emits (forwardOnly h r) P"
  unfolding forwardOnly_def by (intro emits) auto

lemma emits_blobUploadedToRepo [emits]:
  "P (Inr False) [] \<Longrightarrow> (\<And>a. P a [EBlobUploaded reg repo d a]) \<Longrightarrow> emits (blobUploadedToRepo h reg repo d) P"
  unfolding blobUploadedToRepo_def by (intro emits) auto

lemma emits_pushOwnerRevealsRepo [emits]:
  "P (Inr False) [] \<Longrightarrow> (\<And>a. P a [EPushGranted (o_registryID p) (o_repo p) subject a]) \<Longrightarrow>
   emits (pushOwnerRevealsRepo h p subject) P"
  unfolding pushOwnerRevealsRepo_def by (intro emits) auto

lemma emits_dropPushGrant [emits]: "P () [] \<Longrightarrow> emits (dropPushGrantMaterialized h p subject) P"
  unfolding dropPushGrantMaterialized_def by (intro emits)

lemma emits_resolve [emits]:
  "P [] [] \<Longrightarrow> (\<And>e. P [] [EProject reg (Inl e)]) \<Longrightarrow>
   (\<And>prj. P prj [EProject reg (Inr prj)]) \<Longrightarrow> emits (resolveRegistryProject h reg) P"
  unfolding resolveRegistryProject_def by (intro emits) (auto split: sum.splits)

lemma emits_writes [emits]:
  "P () [EReply notFoundResponse] \<Longrightarrow> emits writeNotFound P"
  "P () [EReply deniedResponse] \<Longrightarrow> emits writeDenied P"
  "P () [EReply unavailableResponse] \<Longrightarrow> emits failClosed P"
  "P () [EReply (errorResponse c k m)] \<Longrightarrow> emits (writeError c k m) P"
  "P () [EReply (relayed cr)] \<Longrightarrow> emits (writeCaptured cr) P"
  unfolding writeNotFound_def writeDenied_def failClosed_def writeError_def writeCaptured_def
  by (auto intro: emits)

lemma emits_pushContextRevealsBlob [emits]:
  assumes "h_authz h \<noteq> None"
    and "\<And>e. P (Inl e) [ERepoExists (o_registryID p) (o_repo p) (Inl e)]"
    and "P (Inr False) [ERepoExists (o_registryID p) (o_repo p) (Inr True)]"
    and "\<And>e. P (Inl e) [ERepoExists (o_registryID p) (o_repo p) (Inr False),
      ECheck subject FGARelationVCreate (registryObject (o_registryID p)) (Inl e)]"
    and "\<And>v. P (Inr False) [ERepoExists (o_registryID p) (o_repo p) (Inr False),
      ECheck subject FGARelationVCreate (registryObject (o_registryID p)) (Inr v)]"
    and "\<And>a. P a [ERepoExists (o_registryID p) (o_repo p) (Inr False),
      ECheck subject FGARelationVCreate (registryObject (o_registryID p)) (Inr True),
      EBlobUploaded (o_registryID p) (o_repo p) (o_reference p) a]"
  shows "emits (pushContextRevealsBlob h p subject) P"
  unfolding pushContextRevealsBlob_def by (intro emits case_sum_I) (simp_all add: assms)

section \<open>What every request does\<close>

fun client_event :: "event \<Rightarrow> bool" where
  "client_event (EForward r resp) = True"
| "client_event (EReply resp) = True"
| "client_event _ = False"

text \<open>A call whose failure must close the request.\<close>

fun dependency_failed :: "event \<Rightarrow> bool" where
  "dependency_failed (ECheck subject relation object v) = (\<exists>e. v = Inl e)"
| "dependency_failed (ERepoExists reg repo v) = (\<exists>e. v = Inl e)"
| "dependency_failed (EBlobInRepo reg repo d v) = (\<exists>e. v = Inl e)"
| "dependency_failed (ECatalog v) = (\<exists>e. v = Inl e)"
| "dependency_failed (EBlobUploaded reg repo d v) = (\<exists>e. v = Inl e)"
| "dependency_failed (EPushGranted reg repo subject v) = (\<exists>e. v = Inl e)"
| "dependency_failed (ERecordBlob reg repo d v) = (\<exists>e. v = Inl e)"
| "dependency_failed _ = False"

definition one_response :: "event list \<Rightarrow> bool" where
  "one_response es \<longleftrightarrow> length (filter client_event es) = 1"

fun is_forward :: "event \<Rightarrow> bool" where
  "is_forward (EForward r resp) = True"
| "is_forward _ = False"

definition fails_closed :: "event list \<Rightarrow> bool" where
  "fails_closed es \<longleftrightarrow> (list_ex dependency_failed es \<longrightarrow>
     \<not> list_ex is_forward es \<and> last es = EReply unavailableResponse)"

definition sound :: "(event set \<Rightarrow> bool) \<Rightarrow> event list \<Rightarrow> bool" where
  "sound A es \<longleftrightarrow> guarded A {} es \<and> one_response es \<and> fails_closed es"

lemmas sound_defs = sound_def one_response_def fails_closed_def

lemma guarded_mono:
  assumes A: "\<And>E F. E \<subseteq> F \<Longrightarrow> A E \<Longrightarrow> B F"
  shows "E \<subseteq> F \<Longrightarrow> guarded A E es \<Longrightarrow> guarded B F es"
proof (induction es arbitrary: E F)
  case (Cons e es)
  from Cons.prems have "guarded B (insert e F) es"
    by (intro Cons.IH [of "insert e E"]) auto
  with Cons.prems A show ?case by auto
qed simp

lemma licence_mono: "E \<subseteq> F \<Longrightarrow> licence p r subject E \<Longrightarrow> licence p r subject F"
  by (cases "o_route p") (auto simp: licence_defs)

lemma servePullOnly_sound:
  assumes "h_authz h \<noteq> None"
  shows "emits (servePullOnly h r p subject rel) (\<lambda>_. sound (\<lambda>E. isRead r \<and> read_allowed p subject rel E))"
  unfolding servePullOnly_def
  by (intro emits) (simp_all add: assms isRead_def read_allowed_def sound_defs)

definition blob_licence :: "parsed \<Rightarrow> request \<Rightarrow> string \<Rightarrow> event set \<Rightarrow> bool" where
  "blob_licence p r subject E \<longleftrightarrow> isRead r \<and>
     (read_allowed p subject FGARelationVGet E \<and> blob_in_scope p E \<or>
      first_push p subject E \<and> EBlobUploaded (o_registryID p) (o_repo p) (o_reference p) (Inr True) \<in> E)"

lemma serveBlob_sound:
  assumes "h_authz h \<noteq> None"
  shows "emits (serveBlob h r p subject) (\<lambda>_. sound (blob_licence p r subject))"
  unfolding serveBlob_def serveBlobScoped_def
  by (intro emits) (simp_all add: assms isRead_def read_allowed_def blob_in_scope_def first_push_def
      blob_licence_def sound_defs)

lemma serveMount_sound:
  assumes "h_authz h \<noteq> None" and "fromName = queryGet r ''from''"
  shows "emits (serveMount h r p subject fromName)
    (\<lambda>_. sound (\<lambda>E. write_allowed p subject E \<and> mount_source_allowed r subject E))"
  unfolding serveMount_def
  by (intro emits)
    (simp_all add: assms write_allowed_def first_push_def mount_source_allowed_def cut_at_Some sound_defs)

text \<open>The calls after a pushed manifest has been answered.\<close>

fun durable_event :: "event \<Rightarrow> bool" where
  "durable_event (ERecordGrant reg repo subject v) = True"
| "durable_event (EProject reg v) = True"
| "durable_event (ERegister i v) = True"
| "durable_event _ = False"

definition quiet :: "event list \<Rightarrow> bool" where
  "quiet es \<longleftrightarrow> list_all durable_event es"

lemma durable_event_quiet:
  "durable_event e \<Longrightarrow> \<not> engine_event e \<and> \<not> client_event e \<and> \<not> dependency_failed e \<and> (\<forall>s r ob v. e \<noteq> ECheck s r ob v)"
  by (cases e) auto

lemma quiet_simps [simp]:
  assumes "quiet es"
  shows "preceded engine_event A E es" "preceded client_event A E es"
    "filter client_event es = []" "\<not> list_ex dependency_failed es" "ECheck sub rel obj v \<notin> set es"
  using assms
  by (induction es arbitrary: E) (auto simp: quiet_def dest: durable_event_quiet)

lemma quiet_no_engine: "quiet es \<Longrightarrow> e \<in> set es \<Longrightarrow> \<not> engine_event e"
  by (auto simp: quiet_def list_all_iff dest: durable_event_quiet)

lemma emits_manifestPushed [emits]:
  assumes "\<And>es. quiet es \<Longrightarrow> P () es"
  shows "emits (manifestPushed h p subject exists) P"
  unfolding manifestPushed_def by (intro emits; rule assms) (simp_all add: quiet_def)

lemma servePush_sound:
  assumes "h_authz h \<noteq> None"
  shows "emits (servePush h r p subject) (\<lambda>_. sound (\<lambda>E. write_allowed p subject E \<and>
    (isMount p r \<longrightarrow> mount_source_allowed r subject E)))" (is "emits _ (\<lambda>_. sound ?A)")
proof (cases "isMount p r")
  case True
  then have "servePush h r p subject = serveMount h r p subject (queryGet r ''from'')"
    by (simp add: servePush_def isMount_def)
  with True serveMount_sound [OF assms refl] show ?thesis by simp
next
  case False
  then have mount: "\<not> (o_route p = routeUpload \<and> methodIs r [''POST''] \<and> queryGet r ''mount'' \<noteq> [] \<and>
      queryGet r ''from'' \<noteq> [])" by (simp add: isMount_def)
  have "emits (servePush h r p subject) (\<lambda>_. sound (write_allowed p subject))"
    unfolding servePush_def forwardBlobFinalize_def if_not_P [OF mount]
    by (intro emits) (simp_all add: assms write_allowed_def first_push_def sound_defs)
  with False show ?thesis by simp
qed

lemma serveManifest_sound:
  assumes "h_authz h \<noteq> None" and "o_route p = routeManifest"
  shows "emits (serveManifest h r p subject) (\<lambda>_. sound (licence p r subject))"
proof -
  have nm: "\<not> isMount p r" by (simp add: isMount_def assms)
  show ?thesis
  proof (cases "isRead r")
    case True
    then have "serveManifest h r p subject = servePullOnly h r p subject FGARelationVGet"
      "licence p r subject = (\<lambda>E. isRead r \<and> read_allowed p subject FGARelationVGet E)"
      by (simp_all add: serveManifest_def licence_def assms isRead_def fun_eq_iff)
    with servePullOnly_sound [OF assms(1)] show ?thesis by simp
  next
    case False
    show ?thesis
    proof (cases "methodIs r [''PUT'', ''POST'', ''PATCH'']")
      case True
      with False nm have "serveManifest h r p subject = servePush h r p subject"
        "licence p r subject = (\<lambda>E. write_allowed p subject E \<and> (isMount p r \<longrightarrow> mount_source_allowed r subject E))"
        by (simp_all add: serveManifest_def licence_def assms isRead_def fun_eq_iff)
      with servePush_sound [OF assms(1)] show ?thesis by simp
    next
      case bad: False
      with False have "serveManifest h r p subject = writeNotFound"
        by (simp add: serveManifest_def isRead_def)
      then show ?thesis by (auto intro!: emits simp: sound_defs)
    qed
  qed
qed

lemma catalogFlags_events:
  assumes "h_authz h \<noteq> None"
  shows "emits (catalogFlags h subject ws) (\<lambda>a es. \<exists>vs. length vs = length ws \<and>
    es = map2 (\<lambda>w v. ECheck subject FGARelationVList (repositoryObjectFull w) v) ws vs \<and>
    (case a of Inl e \<Rightarrow> \<exists>v \<in> set vs. \<exists>e. v = Inl e | Inr bs \<Rightarrow> vs = map Inr bs))"
proof (induction ws)
  case Nil
  show ?case by (auto intro!: emits)
next
  case (Cons w ws)
  show ?case unfolding catalogFlags.simps
    apply (rule emits)
    apply (rule emits_checkAllowed [OF assms])
    apply (rule emits)
    apply (rule emits_mono [OF Cons.IH])
    apply (rule emits)
    subgoal premises prems for v a es
    proof -
      from prems obtain vs where vs: "length vs = length ws"
          "es = map2 (\<lambda>w v. ECheck subject FGARelationVList (repositoryObjectFull w) v) ws vs"
          "case a of Inl e \<Rightarrow> \<exists>v \<in> set vs. \<exists>e. v = Inl e | Inr bs \<Rightarrow> vs = map Inr bs" by blast
      then show ?thesis by (intro exI [of _ "v # vs"]) (simp split: sum.splits)
    qed
    done
qed

lemma emits_catalogFlags [emits]:
  assumes "h_authz h \<noteq> None"
    and "\<And>vs e. length vs = length ws \<Longrightarrow> \<exists>v \<in> set vs. \<exists>e. v = Inl e \<Longrightarrow>
      P (Inl e) (map2 (\<lambda>w v. ECheck subject FGARelationVList (repositoryObjectFull w) v) ws vs)"
    and "\<And>bs. length bs = length ws \<Longrightarrow>
      P (Inr bs) (map2 (\<lambda>w v. ECheck subject FGARelationVList (repositoryObjectFull w) v) ws (map Inr bs))"
  shows "emits (catalogFlags h subject ws) P"
proof (rule emits_mono [OF catalogFlags_events [OF assms(1)]])
  fix a :: "gerror + bool list" and es
  assume "\<exists>vs. length vs = length ws \<and>
    es = map2 (\<lambda>w v. ECheck subject FGARelationVList (repositoryObjectFull w) v) ws vs \<and>
    (case a of Inl e \<Rightarrow> \<exists>v \<in> set vs. \<exists>e. v = Inl e | Inr bs \<Rightarrow> vs = map Inr bs)"
  then show "P a es" by (cases a) (auto intro: assms(2,3))
qed

lemma list_checks [simp]:
  "guarded A E (map2 (\<lambda>w v. ECheck subject rel (f w) v) ws vs @ es) =
     guarded A (E \<union> set (map2 (\<lambda>w v. ECheck subject rel (f w) v) ws vs)) es"
  "filter client_event (map2 (\<lambda>w v. ECheck subject rel (f w) v) ws vs) = []"
  "list_ex is_forward (map2 (\<lambda>w v. ECheck subject rel (f w) v) ws vs) = False"
  by (induction ws vs arbitrary: E rule: list_induct2') auto

lemma list_checks_ok: "length vs = length ws \<Longrightarrow> (\<forall>v \<in> set vs. \<not> (\<exists>e. v = Inl e)) \<Longrightarrow>
  \<not> list_ex dependency_failed (map2 (\<lambda>w v. ECheck subject rel (f w) v) ws vs)"
  by (induction ws vs rule: list_induct2') auto

lemma serveCatalog_sound:
  assumes "h_authz h \<noteq> None"
  shows "emits (serveCatalog h r subject) (\<lambda>_. sound (\<lambda>_. False))"
  unfolding serveCatalog_def Let_def
  by (intro emits) (simp_all add: assms sound_defs list_checks_ok)

lemma emits_authenticate [emits]:
  assumes "h_verifier h \<noteq> None"
    and "bearerToken r = None \<Longrightarrow> P ([], False, False) []"
    and "\<And>raw v. bearerToken r = Some raw \<Longrightarrow> v = Inr [] \<or> (\<exists>e. v = Inl e) \<Longrightarrow> P ([], True, False) [EVerify raw v]"
    and "\<And>raw sub. bearerToken r = Some raw \<Longrightarrow> sub \<noteq> [] \<Longrightarrow> P (sub, False, True) [EVerify raw (Inr sub)]"
  shows "emits (authenticate h r) P"
  using assms unfolding authenticate_def
  by (cases "h_verifier h") (auto intro!: emits split: sum.splits)

definition request_licence :: "corelib \<Rightarrow> string \<Rightarrow> request \<Rightarrow> event set \<Rightarrow> bool" where
  "request_licence L anon r E \<longleftrightarrow> \<not> methodIs r [''DELETE''] \<and>
     (\<exists>raw sub p. bearerToken r = Some raw \<and> sub \<noteq> [] \<and> EVerify raw (Inr sub) \<in> E \<and>
        parsePath L (rq_EscapedPath r) = Inr p \<and> licence p r (fgaSubject sub anon) E)"

lemma sound_prefix:
  assumes "sound A es" and "\<And>E F. E \<subseteq> F \<Longrightarrow> x \<in> F \<Longrightarrow> A E \<Longrightarrow> B F" and "\<not> engine_event x"
    and "\<not> client_event x" and "\<not> dependency_failed x"
  shows "sound B (x # es)"
proof -
  have "guarded (\<lambda>E. B (insert x E)) {} es"
  proof (rule guarded_mono [where A = A and E = "{}"])
    show "B (insert x F)" if "E \<subseteq> F" "A E" for E F
      by (rule assms(2) [of E]) (use that in auto)
    show "guarded A {} es" using assms(1) by (simp add: sound_def)
  qed simp
  moreover have "guarded (\<lambda>E. B (insert x E)) E es \<Longrightarrow> guarded B (insert x E) es" for E
  proof (induction es arbitrary: E)
    case (Cons a es)
    from Cons.prems have "guarded (\<lambda>E. B (insert x E)) (insert a E) es" by simp
    from Cons.IH [OF this] Cons.prems show ?case by (simp add: insert_commute)
  qed simp
  moreover have "es \<noteq> []" using assms(1) by (auto simp: sound_defs)
  moreover have "\<not> is_forward x" using assms(3) by (cases x) auto
  ultimately show ?thesis using assms by (auto simp: sound_defs)
qed

lemma sound_reply [simp]: "sound A [EReply resp]"
  by (simp add: sound_defs)

lemma route_sound:
  assumes "h_authz h \<noteq> None"
  shows "emits (case o_route p of
              routePing \<Rightarrow> writePing r
            | routeCatalog \<Rightarrow> serveCatalog h r subject
            | routeManifest \<Rightarrow> serveManifest h r p subject
            | routeBlob \<Rightarrow> serveBlob h r p subject
            | routeTagsList \<Rightarrow> servePullOnly h r p subject FGARelationVList
            | routeReferrers \<Rightarrow> servePullOnly h r p subject FGARelationVGet
            | routeUpload \<Rightarrow> servePush h r p subject
            | routeInvalid \<Rightarrow> writeNotFound) (\<lambda>_. sound (licence p r subject))"
proof (cases "o_route p")
  case routePing
  then show ?thesis by (auto simp: writePing_def intro!: emits)
next
  case routeCatalog
  then have "licence p r subject = (\<lambda>_. False)" by (simp add: licence_def fun_eq_iff)
  with serveCatalog_sound [OF assms] routeCatalog show ?thesis by simp
next
  case routeManifest
  with serveManifest_sound [OF assms] show ?thesis by simp
next
  case routeBlob
  then have "licence p r subject = blob_licence p r subject"
    by (simp add: licence_def blob_licence_def fun_eq_iff)
  with serveBlob_sound [OF assms] routeBlob show ?thesis by simp
next
  case routeTagsList
  then have "licence p r subject = (\<lambda>E. isRead r \<and> read_allowed p subject FGARelationVList E)"
    by (simp add: licence_def fun_eq_iff)
  with servePullOnly_sound [OF assms] routeTagsList show ?thesis by simp
next
  case routeReferrers
  then have "licence p r subject = (\<lambda>E. isRead r \<and> read_allowed p subject FGARelationVGet E)"
    by (simp add: licence_def fun_eq_iff)
  with servePullOnly_sound [OF assms] routeReferrers show ?thesis by simp
next
  case routeUpload
  then have "licence p r subject = (\<lambda>E. write_allowed p subject E \<and> (isMount p r \<longrightarrow> mount_source_allowed r subject E))"
    by (simp add: licence_def fun_eq_iff)
  with servePush_sound [OF assms, of r p subject] routeUpload show ?thesis by simp
next
  case routeInvalid
  then show ?thesis by (auto intro!: emits)
qed

lemma ServeHTTP_sound:
  assumes "h_verifier h \<noteq> None" and "h_authz h \<noteq> None"
  shows "emits (ServeHTTP L h r) (\<lambda>_. sound (request_licence L (h_anonSubjectID h) r))"
  unfolding ServeHTTP_def challenge_def Let_def
proof (intro emits assms(1); simp?)
  fix raw sub :: string and p
  assume *: "bearerToken r = Some raw" "sub \<noteq> []" "\<not> methodIs r [''DELETE'']"
    "parsePath L (rq_EscapedPath r) = Inr p"
  show "emits (case o_route p of
              routePing \<Rightarrow> writePing r
            | routeCatalog \<Rightarrow> serveCatalog h r (fgaSubject sub (h_anonSubjectID h))
            | routeManifest \<Rightarrow> serveManifest h r p (fgaSubject sub (h_anonSubjectID h))
            | routeBlob \<Rightarrow> serveBlob h r p (fgaSubject sub (h_anonSubjectID h))
            | routeTagsList \<Rightarrow> servePullOnly h r p (fgaSubject sub (h_anonSubjectID h)) FGARelationVList
            | routeReferrers \<Rightarrow> servePullOnly h r p (fgaSubject sub (h_anonSubjectID h)) FGARelationVGet
            | routeUpload \<Rightarrow> servePush h r p (fgaSubject sub (h_anonSubjectID h))
            | routeInvalid \<Rightarrow> writeNotFound)
          (\<lambda>_ es. sound (request_licence L (h_anonSubjectID h) r) (EVerify raw (Inr sub) # es))"
  proof (rule emits_mono [OF route_sound [OF assms(2)]], rule sound_prefix)
    fix E F :: "event set"
    assume "E \<subseteq> F" "EVerify raw (Inr sub) \<in> F" "licence p r (fgaSubject sub (h_anonSubjectID h)) E"
    with * licence_mono show "request_licence L (h_anonSubjectID h) r F"
      unfolding request_licence_def by blast
  qed simp_all
qed (auto simp: sound_defs)

section \<open>Rules for whole requests\<close>

lemma emits_ServeHTTP:
  assumes "h_verifier h \<noteq> None" and "\<not> methodIs r [''DELETE'']" and "parsePath L (rq_EscapedPath r) = Inr p"
    and "\<And>resp. rs_Status resp = 401 \<Longrightarrow>
      rs_Body resp = ErrorBody ''UNAUTHORIZED'' ''authentication required'' \<Longrightarrow> P () [EReply resp]"
    and "\<And>raw v resp. rs_Status resp = 401 \<Longrightarrow>
      rs_Body resp = ErrorBody ''UNAUTHORIZED'' ''authentication required'' \<Longrightarrow> P () [EVerify raw v, EReply resp]"
    and "\<And>raw sub. sub \<noteq> [] \<Longrightarrow> bearerToken r = Some raw \<Longrightarrow>
      emits (let fga = fgaSubject sub (h_anonSubjectID h) in
            case o_route p of
              routePing \<Rightarrow> writePing r
            | routeCatalog \<Rightarrow> serveCatalog h r fga
            | routeManifest \<Rightarrow> serveManifest h r p fga
            | routeBlob \<Rightarrow> serveBlob h r p fga
            | routeTagsList \<Rightarrow> servePullOnly h r p fga FGARelationVList
            | routeReferrers \<Rightarrow> servePullOnly h r p fga FGARelationVGet
            | routeUpload \<Rightarrow> servePush h r p fga
            | routeInvalid \<Rightarrow> writeNotFound) (\<lambda>_ es. P () (EVerify raw (Inr sub) # es))"
  shows "emits (ServeHTTP L h r) P"
proof -
  note assms(6) [unfolded Let_def, intro]
  show ?thesis
    unfolding ServeHTTP_def challenge_def Let_def
    by (intro emits_bind emits_authenticate emits_case_prod emits_if)
      (auto simp: assms(1,2,3) errorResponse_def intro!: emits assms(4,5))
qed

end
