(* ===== verification/DataPlaneProps.thy ===== *)
theory DataPlaneProps
  imports DataPlaneSafety
begin

text \<open>
  The properties of the data-plane proxy, and concrete deployments on which they are evaluated.
  They quantify over every world and every behaviour of the ports.
\<close>

section \<open>A deployment for concrete evaluations\<close>

text \<open>The verifier accepts one token, the checks answer from a list of allowed triples, and the
  engine holds the listed repositories and blobs and answers 201 to a forwarded \<open>PUT\<close>.\<close>

definition demo_handler :: "(string \<times> string \<times> string) list \<Rightarrow> string list \<Rightarrow> unit handler" where
  "demo_handler perms repos = \<lparr>
     h_verifier = Some (\<lambda>raw. State_Monad.return (if raw = ''tok'' then Inr ''sva1'' else Inl (bare ErrInvalidArg))),
     h_authz = Some (\<lambda>s r ob. State_Monad.return (Inr ((s, r, ob) \<in> set perms))),
     h_backend = \<lparr>be_RepoExists = (\<lambda>reg repo. State_Monad.return (Inr (reg @ ''/'' @ repo \<in> set repos))),
       be_BlobInRepo = (\<lambda>reg repo d. State_Monad.return (Inr False)),
       be_CatalogRepoNames = State_Monad.return (Inr repos)\<rparr>,
     h_forwarder = \<lparr>fw_Forward = (\<lambda>r. State_Monad.return \<lparr>rs_Status = 201, rs_Header = [], rs_Body = Bytes []\<rparr>),
       fw_ForwardCapture = (\<lambda>r. State_Monad.return \<lparr>rs_Status = 201, rs_Header = [], rs_Body = Bytes []\<rparr>)\<rparr>,
     h_repoReg = Some (\<lambda>i. State_Monad.return (Inr ())),
     h_regLookup = Some (\<lambda>reg. State_Monad.return (Inr ''prj1'')),
     h_uploads = Some \<lparr>up_RecordUploadedBlob = (\<lambda>_ _ _. State_Monad.return (Inr ())),
       up_BlobUploaded = (\<lambda>_ _ _. State_Monad.return (Inr False))\<rparr>,
     h_pushGrants = Some \<lparr>pg_RecordPushGrant = (\<lambda>_ _ _. State_Monad.return (Inr ())),
       pg_PushGranted = (\<lambda>_ _ _. State_Monad.return (Inr False)),
       pg_DeletePushGrant = (\<lambda>_ _ _. State_Monad.return (Inr ()))\<rparr>,
     h_realm = ''r'', h_service = ''s'', h_anonSubjectID = []\<rparr>"

definition demo_request :: "string \<Rightarrow> string \<Rightarrow> (string \<times> string) list \<Rightarrow> request" where
  "demo_request m path q = \<lparr>rq_Method = m, rq_EscapedPath = path, rq_Query = q, rq_Authorization = ''Bearer tok''\<rparr>"

definition demo_start :: "unit hstate" where
  "demo_start = \<lparr>hs_world = (), hs_trace = [], hs_background = []\<rparr>"

definition demo_trace :: "(string \<times> string \<times> string) list \<Rightarrow> string list \<Rightarrow> request \<Rightarrow> event list" where
  "demo_trace perms repos r = hs_trace (snd (run_state (ServeHTTP demo_corelib (demo_handler perms repos) r) demo_start))"

lemma demo_handler_secured: "h_verifier (demo_handler perms repos) \<noteq> None" "h_authz (demo_handler perms repos) \<noteq> None"
  by (simp_all add: demo_handler_def)

lemma demo_run: "run_state (ServeHTTP demo_corelib (demo_handler perms repos) r) demo_start =
    ((), snd (run_state (ServeHTTP demo_corelib (demo_handler perms repos) r) demo_start))"
  by (simp add: prod_eq_iff)

section \<open>Authorization\<close>

text \<open>
  C2. No request reaches the engine without a licence: whenever a request is proxied, a token that
  verified and, earlier in the same request, exactly the checks its route and method demand have
  answered yes for the subject of this token - the read relation on the repository, the update
  relation on an existing repository or the create relation on the registry of a new one, the
  blob being in the scope of the repository, and for a cross-repository mount also the read
  relation on the source and the digest being a blob of the source - or the recorded push of this
  very subject stands in for the read relation.
\<close>

theorem engine_only_with_licence:
  assumes "h_verifier h \<noteq> None" and "h_authz h \<noteq> None"
    and "run_state (ServeHTTP L h r) s = ((), t)" and "hs_trace t = hs_trace s @ pre @ e # post"
    and "engine_event e"
  shows "request_licence L (h_anonSubjectID h) r (set pre)"
proof -
  from emits_runD [OF ServeHTTP_sound [OF assms(1,2)] assms(3)] assms(4)
  have "sound (request_licence L (h_anonSubjectID h) r) (pre @ e # post)" by auto
  then have "preceded engine_event (request_licence L (h_anonSubjectID h) r) {} (pre @ e # post)"
    by (simp add: sound_def)
  from precededD [OF this assms(5)] show ?thesis by simp
qed

lemma demo_pull:
  "demo_trace [(''service_account:sva1'', ''v_get'', ''registry_repository:reg1/app'')] [''reg1/app'']
     (demo_request ''GET'' ''/v2/reg1/app/manifests/v1'' []) =
   [EVerify ''tok'' (Inr ''sva1''),
    ECheck ''service_account:sva1'' ''v_get'' ''registry_repository:reg1/app'' (Inr True),
    EForward (demo_request ''GET'' ''/v2/reg1/app/manifests/v1'' [])
      \<lparr>rs_Status = 201, rs_Header = [], rs_Body = Bytes []\<rparr>]"
  by code_simp

lemma engine_only_with_licence_witness:
  "request_licence demo_corelib [] (demo_request ''GET'' ''/v2/reg1/app/manifests/v1'' [])
     {EVerify ''tok'' (Inr ''sva1''),
      ECheck ''service_account:sva1'' ''v_get'' ''registry_repository:reg1/app'' (Inr True)}"
proof -
  let ?ps = "[(''service_account:sva1'', ''v_get'', ''registry_repository:reg1/app'')]"
  have "request_licence demo_corelib (h_anonSubjectID (demo_handler ?ps [''reg1/app'']))
      (demo_request ''GET'' ''/v2/reg1/app/manifests/v1'' [])
      (set [EVerify ''tok'' (Inr ''sva1''),
        ECheck ''service_account:sva1'' ''v_get'' ''registry_repository:reg1/app'' (Inr True)])"
    by (rule engine_only_with_licence [OF demo_handler_secured demo_run,
          where post = "[]" and e = "EForward (demo_request ''GET'' ''/v2/reg1/app/manifests/v1'' [])
            \<lparr>rs_Status = 201, rs_Header = [], rs_Body = Bytes []\<rparr>"])
      (use demo_pull in \<open>simp_all add: demo_trace_def demo_start_def\<close>)
  then show ?thesis by (simp add: demo_handler_def)
qed

text \<open>
  C3. Every request is answered once, and a dependency that fails closes it: whatever the ports
  answer, the client gets exactly one response; and if a check, a look at the engine or a look at
  the durable records of the request failed, that response is 503 and nothing was streamed from
  the engine to the client.
\<close>

theorem one_response_and_fail_closed:
  assumes "h_verifier h \<noteq> None" and "h_authz h \<noteq> None"
    and "run_state (ServeHTTP L h r) s = ((), t)" and "hs_trace t = hs_trace s @ es"
  shows "length (filter client_event es) = 1 \<and>
    ((\<exists>e \<in> set es. dependency_failed e) \<longrightarrow> filter client_event es = [EReply unavailableResponse])"
proof -
  from emits_runD [OF ServeHTTP_sound [OF assms(1,2)] assms(3)] assms(4)
  have snd: "one_response es" "fails_closed es" by (auto simp: sound_def)
  have "filter client_event es = [EReply unavailableResponse]" if "\<exists>e \<in> set es. dependency_failed e"
  proof -
    from that snd(2) have l: "last es = EReply unavailableResponse" "es \<noteq> []"
      by (auto simp: fails_closed_def list_ex_iff)
    then have "filter client_event es = filter client_event (butlast es) @ [EReply unavailableResponse]"
      by (metis append_butlast_last_id client_event.simps(2) filter.simps filter_append)
    with snd(1) show ?thesis by (simp add: one_response_def)
  qed
  with snd(1) show ?thesis by (simp add: one_response_def)
qed

lemma one_response_and_fail_closed_witness:
  "length (filter client_event
    (demo_trace [] [] (demo_request ''GET'' ''/v2/reg1/app/manifests/v1'' []))) = 1"
proof -
  have "hs_trace (snd (run_state (ServeHTTP demo_corelib (demo_handler [] []) r) demo_start)) =
      hs_trace demo_start @ demo_trace [] [] r" for r
    by (simp add: demo_start_def demo_trace_def)
  from one_response_and_fail_closed [OF demo_handler_secured demo_run this] show ?thesis by blast
qed

text \<open>
  The data plane deletes nothing: a \<open>DELETE\<close> is answered 401 or 405 before any authorization
  check and before the engine, whoever sends it.
\<close>

theorem delete_never_proxied:
  assumes "h_verifier h \<noteq> None" and "methodIs r [''DELETE'']"
    and "run_state (ServeHTTP L h r) s = ((), t)"
  shows "\<exists>es resp. hs_trace t = hs_trace s @ es @ [EReply resp] \<and> rs_Status resp \<in> {401, 405} \<and>
    (\<forall>e \<in> set es. \<exists>raw v. e = EVerify raw v)"
proof -
  have "emits (ServeHTTP L h r) (\<lambda>_ es. \<exists>es' resp. es = es' @ [EReply resp] \<and>
      rs_Status resp \<in> {401, 405} \<and> (\<forall>e \<in> set es'. \<exists>raw v. e = EVerify raw v))"
    unfolding ServeHTTP_def challenge_def Let_def writeError_def
    by (intro emits_bind emits_authenticate emits_case_prod emits_if)
      (auto simp: assms(1,2) errorResponse_def intro!: emits)
  from emits_runD [OF this assms(3)] show ?thesis by auto
qed

lemma delete_never_proxied_witness:
  "\<exists>es resp. demo_trace [] [] (demo_request ''DELETE'' ''/v2/reg1/app/manifests/v1'' []) =
     es @ [EReply resp] \<and> rs_Status resp \<in> {401, 405} \<and> (\<forall>e \<in> set es. \<exists>raw v. e = EVerify raw v)"
  using delete_never_proxied [OF demo_handler_secured(1) _ demo_run,
      where r = "demo_request ''DELETE'' ''/v2/reg1/app/manifests/v1'' []"]
  by (auto simp: demo_start_def demo_trace_def demo_request_def methodIs_def)

section \<open>What a refused request can learn\<close>

text \<open>
  C4. Reads hide existence: a read of a repository that is not streamed from the engine is answered
  with one and the same 404, whether the repository does not exist, the subject may not read it or
  the blob is not in its scope; the only other answers are the 401 of a bad token and the 503 of a
  failed dependency.
\<close>

theorem refused_reads_are_uniform:
  assumes sec: "h_verifier h \<noteq> None" "h_authz h \<noteq> None"
    and p: "parsePath L (rq_EscapedPath r) = Inr p"
      "o_route p \<in> {routeManifest, routeBlob, routeTagsList, routeReferrers}" and m: "isRead r"
    and run: "run_state (ServeHTTP L h r) s = ((), t)" "hs_trace t = hs_trace s @ es"
  shows "(\<exists>resp. filter client_event es = [EForward r resp]) \<or>
    filter client_event es = [EReply notFoundResponse] \<or>
    filter client_event es = [EReply unavailableResponse] \<and> (\<exists>e \<in> set es. dependency_failed e) \<or>
    (\<exists>resp. filter client_event es = [EReply resp] \<and> rs_Status resp = 401)"
proof -
  let ?Q = "\<lambda>es. (\<exists>resp. filter client_event es = [EForward r resp]) \<or>
    filter client_event es = [EReply notFoundResponse] \<or>
    filter client_event es = [EReply unavailableResponse] \<and> (\<exists>e \<in> set es. dependency_failed e) \<or>
    (\<exists>resp. filter client_event es = [EReply resp] \<and> rs_Status resp = 401)"
  have nd: "\<not> methodIs r [''DELETE'']" using m by (auto simp: isRead_def methodIs_def)
  have pull: "emits (servePullOnly h r p subject rel) (\<lambda>_ es. ?Q (EVerify raw v # es))" for subject rel raw v
    unfolding servePullOnly_def by (intro emits) (simp_all add: sec)
  have blob: "emits (serveBlob h r p subject) (\<lambda>_ es. ?Q (EVerify raw v # es))" for subject raw v
    unfolding serveBlob_def serveBlobScoped_def by (intro emits) (simp_all add: sec)
  have manifest: "serveManifest h r p subject = servePullOnly h r p subject FGARelationVGet" for subject
    using m by (simp add: serveManifest_def isRead_def)
  have "emits (ServeHTTP L h r) (\<lambda>_. ?Q)"
    by (rule emits_ServeHTTP [OF sec(1) nd p(1)])
      (use p(2) pull blob manifest in \<open>auto simp: Let_def\<close>)
  from emits_runD [OF this run(1)] run(2) show ?thesis by auto
qed

lemma refused_reads_are_uniform_witness:
  "\<exists>resp. filter client_event (demo_trace [] [''reg1/app''] (demo_request ''GET'' ''/v2/reg1/app/manifests/v1'' []))
     = [resp]"
proof -
  let ?r = "demo_request ''GET'' ''/v2/reg1/app/manifests/v1'' []"
  have p: "parsePath demo_corelib (rq_EscapedPath ?r) =
      Inr \<lparr>o_route = routeManifest, o_registryID = ''reg1'', o_repo = ''app'', o_reference = ''v1''\<rparr>"
    by code_simp
  have "isRead ?r" by (simp add: isRead_def methodIs_def demo_request_def)
  from refused_reads_are_uniform [OF demo_handler_secured p _ this demo_run]
  show ?thesis by (fastforce simp: demo_start_def demo_trace_def)
qed

text \<open>
  C15. Push denials are uniform too: when a check of a write answers no and nothing failed, the
  client gets the same 403 whether or not the repository exists and whichever check refused, and
  the engine is not called.
\<close>

theorem denied_pushes_are_uniform:
  assumes sec: "h_verifier h \<noteq> None" "h_authz h \<noteq> None"
    and p: "parsePath L (rq_EscapedPath r) = Inr p"
      "o_route p = routeUpload \<or> o_route p = routeManifest \<and> methodIs r [''PUT'', ''POST'', ''PATCH'']"
    and nd: "\<not> methodIs r [''DELETE'']"
    and run: "run_state (ServeHTTP L h r) s = ((), t)" "hs_trace t = hs_trace s @ es"
    and denied: "ECheck subject rel obj (Inr False) \<in> set es" "\<forall>e \<in> set es. \<not> dependency_failed e"
  shows "filter client_event es = [EReply deniedResponse] \<and> (\<forall>e \<in> set es. \<not> engine_event e)"
proof -
  let ?Q = "\<lambda>es. (\<exists>s r ob. ECheck s r ob (Inr False) \<in> set es) \<and> (\<forall>e \<in> set es. \<not> dependency_failed e) \<longrightarrow>
    filter client_event es = [EReply deniedResponse] \<and> (\<forall>e \<in> set es. \<not> engine_event e)"
  have mount: "emits (serveMount h r p subject fromName) (\<lambda>_ es. ?Q (EVerify raw v # es))" for subject raw v fromName
    unfolding serveMount_def by (intro emits) (auto simp: sec)
  have push: "emits (servePush h r p subject) (\<lambda>_ es. ?Q (EVerify raw v # es))" for subject raw v
    unfolding servePush_def forwardBlobFinalize_def
    by (rule emits_if, rule mount, intro emits) (simp_all add: sec)
  have "emits (ServeHTTP L h r) (\<lambda>_. ?Q)"
    by (rule emits_ServeHTTP [OF sec(1) nd p(1)])
      (use p(2) push in \<open>auto simp: Let_def serveManifest_def methodIs_def\<close>)
  from emits_runD [OF this run(1)] run(2) denied show ?thesis by auto
qed

lemma demo_denied_push:
  "demo_trace [] [''reg1/app''] (demo_request ''PUT'' ''/v2/reg1/app/manifests/v1'' []) =
   [EVerify ''tok'' (Inr ''sva1''), ERepoExists ''reg1'' ''app'' (Inr True),
    ECheck ''service_account:sva1'' ''v_update'' ''registry_repository:reg1/app'' (Inr False),
    EReply deniedResponse]"
  by code_simp

lemma denied_pushes_are_uniform_witness:
  "filter client_event (demo_trace [] [''reg1/app''] (demo_request ''PUT'' ''/v2/reg1/app/manifests/v1'' []))
     = [EReply deniedResponse]"
proof -
  let ?r = "demo_request ''PUT'' ''/v2/reg1/app/manifests/v1'' []"
  have p: "parsePath demo_corelib (rq_EscapedPath ?r) =
      Inr \<lparr>o_route = routeManifest, o_registryID = ''reg1'', o_repo = ''app'', o_reference = ''v1''\<rparr>"
    by code_simp
  have tr: "hs_trace (snd (run_state (ServeHTTP demo_corelib (demo_handler [] [''reg1/app'']) ?r) demo_start)) =
      hs_trace demo_start @ demo_trace [] [''reg1/app''] ?r"
    by (simp add: demo_start_def demo_trace_def)
  show ?thesis
    by (rule denied_pushes_are_uniform [OF demo_handler_secured p _ _ demo_run tr, THEN conjunct1])
      (simp_all add: demo_denied_push, simp_all add: demo_request_def methodIs_def)
qed

section \<open>The side effects of a push\<close>

text \<open>
  C5. An uploaded blob is on record before the client hears of it: when the finalizing request of a
  blob upload is answered with a success relayed from the engine, the record of this digest for
  this repository had been committed before the answer.
\<close>

theorem blob_recorded_before_relay:
  assumes sec: "h_verifier h \<noteq> None" "h_authz h \<noteq> None" and up: "h_uploads h \<noteq> None"
    and p: "parsePath L (rq_EscapedPath r) = Inr p" "isBlobFinalize p r" "\<not> isMount p r"
    and run: "run_state (ServeHTTP L h r) s = ((), t)"
      "hs_trace t = hs_trace s @ pre @ EReply resp # post" and ok: "twoXX (rs_Status resp)"
  shows "\<exists>cap. resp = relayed cap \<and> ECapture r cap \<in> set pre \<and> (rs_Status cap \<noteq> 0 \<longrightarrow>
    ERecordBlob (o_registryID p) (o_repo p) (queryGet r ''digest'') (Inr ()) \<in> set pre)"
proof -
  let ?B = "\<lambda>resp E. \<exists>cap. resp = relayed cap \<and> ECapture r cap \<in> E \<and> (rs_Status cap \<noteq> 0 \<longrightarrow>
    ERecordBlob (o_registryID p) (o_repo p) (queryGet r ''digest'') (Inr ()) \<in> E)"
  let ?T = "\<lambda>e. e = EReply resp"
  let ?Q = "preceded ?T (?B resp) {}"
  have rt: "o_route p = routeUpload" and nd: "\<not> methodIs r [''DELETE'']"
    using p(2) by (auto simp: isBlobFinalize_def methodIs_def)
  have nm: "\<not> (o_route p = routeUpload \<and> methodIs r [''POST''] \<and> queryGet r ''mount'' \<noteq> [] \<and> queryGet r ''from'' \<noteq> [])"
    using p(3) by (simp add: isMount_def)
  have no: "resp \<noteq> unavailableResponse" "resp \<noteq> deniedResponse" "resp \<noteq> notFoundResponse"
    using ok by (auto simp: unavailableResponse_def deniedResponse_def notFoundResponse_def errorResponse_def twoXX_def)
  have z: "relayed cap = resp \<Longrightarrow> \<not> twoXX (rs_Status cap) \<Longrightarrow> rs_Status cap = 0" for cap
    using ok by (auto simp: relayed_def split: if_splits)
  have push: "emits (servePush h r p subject) (\<lambda>_ es. ?Q (EVerify raw v # es))" for subject raw v
    unfolding servePush_def if_not_P [OF nm] forwardBlobFinalize_def
    by (intro emits) (use no no [symmetric] p(2) up z in \<open>simp_all add: sec\<close>)
  have "emits (ServeHTTP L h r) (\<lambda>_. ?Q)"
    by (rule emits_ServeHTTP [OF sec(1) nd p(1)])
      (use rt push ok in \<open>auto simp: Let_def twoXX_def\<close>)
  from emits_runD [OF this run(1)] run(2) have "?Q (pre @ EReply resp # post)" by auto
  from precededD [OF this] show ?thesis by simp
qed

definition demo_finalize :: request where
  "demo_finalize = demo_request ''PUT'' ''/v2/reg1/app/blobs/uploads/u1'' [(''digest'', ''sha256:ab'')]"

lemma demo_finalize_trace:
  "demo_trace [(''service_account:sva1'', ''v_create'', ''registry_registry:reg1'')] [] demo_finalize =
   [EVerify ''tok'' (Inr ''sva1''), ERepoExists ''reg1'' ''app'' (Inr False),
    ECheck ''service_account:sva1'' ''v_create'' ''registry_registry:reg1'' (Inr True),
    ECapture demo_finalize \<lparr>rs_Status = 201, rs_Header = [], rs_Body = Bytes []\<rparr>,
    ERecordBlob ''reg1'' ''app'' ''sha256:ab'' (Inr ()),
    EReply \<lparr>rs_Status = 201, rs_Header = [], rs_Body = Bytes []\<rparr>]"
  by code_simp

lemma blob_recorded_before_relay_witness:
  "\<exists>cap. \<lparr>rs_Status = 201, rs_Header = [], rs_Body = Bytes []\<rparr> = relayed cap"
proof -
  let ?ps = "[(''service_account:sva1'', ''v_create'', ''registry_registry:reg1'')]"
  have p: "parsePath demo_corelib (rq_EscapedPath demo_finalize) =
      Inr \<lparr>o_route = routeUpload, o_registryID = ''reg1'', o_repo = ''app'', o_reference = []\<rparr>"
    by code_simp
  have tr: "hs_trace (snd (run_state (ServeHTTP demo_corelib (demo_handler ?ps []) demo_finalize) demo_start)) =
      hs_trace demo_start @ butlast (demo_trace ?ps [] demo_finalize) @
      EReply \<lparr>rs_Status = 201, rs_Header = [], rs_Body = Bytes []\<rparr> # []"
    using demo_finalize_trace by (simp add: demo_start_def demo_trace_def)
  have "h_uploads (demo_handler ?ps []) \<noteq> None" by (simp add: demo_handler_def)
  from blob_recorded_before_relay [OF demo_handler_secured this p _ _ demo_run tr]
  show ?thesis
    by (auto simp: isBlobFinalize_def isMount_def demo_finalize_def demo_request_def methodIs_def
        queryGet_def twoXX_def)
qed

text \<open>What the events of a manifest push hold, the first of them being the verification of the token: a
  grant goes to the subject of this token, and a registration puts the parent tuple first, then the
  owner tuple of this subject, under the project that the lookup answered, or none.\<close>

definition looked_up :: "'w handler \<Rightarrow> string \<Rightarrow> event list \<Rightarrow> string \<Rightarrow> bool" where
  "looked_up h reg es project \<longleftrightarrow> (if h_regLookup h = None then project = []
     else \<exists>v. EProject reg v \<in> set es \<and> project = (case v of Inl e \<Rightarrow> [] | Inr x \<Rightarrow> x))"

definition push_grant_ok :: "'w handler \<Rightarrow> parsed \<Rightarrow> event list \<Rightarrow> bool" where
  "push_grant_ok h p es \<longleftrightarrow> (\<forall>reg repo subject v. ERecordGrant reg repo subject v \<in> set es \<longrightarrow>
     reg = o_registryID p \<and> repo = o_repo p \<and>
     (\<exists>raw sub. hd es = EVerify raw (Inr sub) \<and> subject = fgaSubject sub (h_anonSubjectID h)))"

definition push_registration_ok :: "'w handler \<Rightarrow> parsed \<Rightarrow> event list \<Rightarrow> bool" where
  "push_registration_ok h p es \<longleftrightarrow> (\<forall>i v. ERegister i v \<in> set es \<longrightarrow>
     (\<exists>raw sub project. hd es = EVerify raw (Inr sub) \<and> looked_up h (o_registryID p) es project \<and>
       i_kind i = ''Repository'' \<and> i_resource_id i = o_registryID p @ ''/'' @ o_repo p \<and>
       i_labels i = [] \<and> i_parent_project_id i = project \<and>
       i_tuples i = FGARepoParentTuple (o_registryID p) (o_repo p) #
         (let subject = fgaSubject sub (h_anonSubjectID h) in
          if subject \<noteq> [] then [FGARepoOwnerTuple (o_registryID p) (o_repo p) subject] else [])))"

text \<open>
  C6. A pushed manifest leaves its durable trace exactly when it succeeded: a push is granted when
  and only when the engine answered the manifest \<open>PUT\<close> with a success, and the registration of the
  repository is emitted when, besides, the repository did not exist before. The grant is for this
  repository and the subject of the token the request came with, and nobody else; the registration
  carries the parent tuple, then the owner tuple of that subject, and the project that the lookup of
  the registry answered (none if it failed or is not wired). The handler is assumed to have its
  verifier, its authorizer, the push grants and the registration wired.
\<close>

theorem manifest_push_side_effects:
  assumes sec: "h_verifier h \<noteq> None" "h_authz h \<noteq> None"
    and full: "h_pushGrants h \<noteq> None" "h_repoReg h \<noteq> None"
    and p: "parsePath L (rq_EscapedPath r) = Inr p" "o_route p = routeManifest" "methodIs r [''PUT'']"
    and run: "run_state (ServeHTTP L h r) s = ((), t)" "hs_trace t = hs_trace s @ es"
  shows "((\<exists>reg repo sub v. ERecordGrant reg repo sub v \<in> set es) \<longleftrightarrow>
      (\<exists>resp. EForward r resp \<in> set es \<and> twoXX (rs_Status resp))) \<and>
    ((\<exists>i v. ERegister i v \<in> set es) \<longleftrightarrow>
      (\<exists>resp. EForward r resp \<in> set es \<and> twoXX (rs_Status resp)) \<and>
      ERepoExists (o_registryID p) (o_repo p) (Inr False) \<in> set es) \<and>
    push_grant_ok h p es \<and> push_registration_ok h p es"
proof -
  let ?ok = "\<lambda>es. \<exists>resp. EForward r resp \<in> set es \<and> twoXX (rs_Status resp)"
  let ?Q = "\<lambda>es. ((\<exists>reg repo sub v. ERecordGrant reg repo sub v \<in> set es) \<longleftrightarrow> ?ok es) \<and>
    ((\<exists>i v. ERegister i v \<in> set es) \<longleftrightarrow>
      ?ok es \<and> ERepoExists (o_registryID p) (o_repo p) (Inr False) \<in> set es) \<and>
    push_grant_ok h p es \<and> push_registration_ok h p es"
  have m: "rq_Method r = ''PUT''" using p(3) by (simp add: methodIs_def)
  have nf: "\<not> isBlobFinalize p r" by (simp add: isBlobFinalize_def p)
  note defs = push_grant_ok_def push_registration_ok_def looked_up_def RegisterIntentForRepoPush_def repoObjectID_def Let_def
  have push: "emits (servePush h r p (fgaSubject sub (h_anonSubjectID h))) (\<lambda>_ es. ?Q (EVerify raw (Inr sub) # es))"
    for sub raw
    unfolding servePush_def manifestPushed_def resolveRegistryProject_def
    by (intro emits; simp add: sec full nf p defs; blast)
  have "emits (ServeHTTP L h r) (\<lambda>_. ?Q)"
    by (rule emits_ServeHTTP [OF sec(1) _ p(1)])
      (use push p in \<open>auto simp: Let_def serveManifest_def methodIs_def m defs\<close>)
  from emits_runD [OF this run(1)] run(2) show ?thesis by auto
qed

definition demo_put :: request where
  "demo_put = demo_request ''PUT'' ''/v2/reg1/app/manifests/v1'' []"

lemma demo_put_trace:
  "demo_trace [(''service_account:sva1'', ''v_create'', ''registry_registry:reg1'')] [] demo_put =
   [EVerify ''tok'' (Inr ''sva1''), ERepoExists ''reg1'' ''app'' (Inr False),
    ECheck ''service_account:sva1'' ''v_create'' ''registry_registry:reg1'' (Inr True),
    EForward demo_put \<lparr>rs_Status = 201, rs_Header = [], rs_Body = Bytes []\<rparr>,
    ERecordGrant ''reg1'' ''app'' ''service_account:sva1'' (Inr ()),
    EProject ''reg1'' (Inr ''prj1''),
    ERegister (RegisterIntentForRepoPush ''reg1'' ''app'' ''prj1'' ''service_account:sva1'') (Inr ())]"
  by code_simp

lemma manifest_push_side_effects_witness:
  "\<exists>i v. ERegister i v \<in>
     set (demo_trace [(''service_account:sva1'', ''v_create'', ''registry_registry:reg1'')] [] demo_put)"
proof -
  let ?ps = "[(''service_account:sva1'', ''v_create'', ''registry_registry:reg1'')]"
  have p: "parsePath demo_corelib (rq_EscapedPath demo_put) =
      Inr \<lparr>o_route = routeManifest, o_registryID = ''reg1'', o_repo = ''app'', o_reference = ''v1''\<rparr>"
    by code_simp
  have full: "h_pushGrants (demo_handler ?ps []) \<noteq> None" "h_repoReg (demo_handler ?ps []) \<noteq> None"
    by (simp_all add: demo_handler_def)
  have tr: "hs_trace (snd (run_state (ServeHTTP demo_corelib (demo_handler ?ps []) demo_put) demo_start)) =
      hs_trace demo_start @ demo_trace ?ps [] demo_put"
    by (simp add: demo_start_def demo_trace_def)
  have "methodIs demo_put [''PUT'']" by (simp add: demo_put_def demo_request_def methodIs_def)
  from manifest_push_side_effects [OF demo_handler_secured full p _ this demo_run tr]
  show ?thesis by (simp add: demo_put_trace twoXX_def)
qed

section \<open>The catalogue\<close>

definition window_of :: "request \<Rightarrow> string list \<Rightarrow> string list \<times> int \<times> bool" where
  "window_of r names = catalogWindow names (queryGet r ''last'') (parseCatalogPageSize (queryGet r ''n''))"

definition catalog_reply :: "request \<Rightarrow> (string \<Rightarrow> bool) \<Rightarrow> string list \<Rightarrow> response" where
  "catalog_reply r ok names = (case window_of r names of (window, off, mr) \<Rightarrow>
     catalogResponse window (parseCatalogPageSize (queryGet r ''n'')) (filter ok window) off mr)"

lemma run_catalogFlags:
  assumes "h_authz h = Some (\<lambda>sub rel ob. State_Monad.return (Inr (perm sub rel ob)))"
  shows "\<exists>es. run_state (catalogFlags h subject ws) s =
    (Inr (map (\<lambda>w. perm subject FGARelationVList (repositoryObjectFull w)) ws), s\<lparr>hs_trace := hs_trace s @ es\<rparr>)"
proof (induction ws arbitrary: s)
  case (Cons w ws)
  let ?s = "s\<lparr>hs_trace := hs_trace s @ [ECheck subject FGARelationVList (repositoryObjectFull w)
    (Inr (perm subject FGARelationVList (repositoryObjectFull w)))]\<rparr>"
  from Cons.IH [of ?s] obtain es where "run_state (catalogFlags h subject ws) ?s =
      (Inr (map (\<lambda>w. perm subject FGARelationVList (repositoryObjectFull w)) ws), ?s\<lparr>hs_trace := hs_trace ?s @ es\<rparr>)"
    by blast
  then show ?case by (auto simp: run checkAllowed_def call_def assms)
qed (auto simp: run intro: exI [of _ "[]"])

lemma run_serveCatalog:
  assumes "h_authz h = Some (\<lambda>sub rel ob. State_Monad.return (Inr (perm sub rel ob)))"
    and "be_CatalogRepoNames (h_backend h) = State_Monad.return (Inr names)" and "methodIs r [''GET'']"
  shows "last (hs_trace (snd (run_state (serveCatalog h r subject) s))) =
    EReply (catalog_reply r (\<lambda>w. perm subject FGARelationVList (repositoryObjectFull w)) names)"
proof -
  obtain window off mr where w: "window_of r names = (window, off, mr)" by (cases "window_of r names")
  let ?s = "s\<lparr>hs_trace := hs_trace s @ [ECatalog (Inr names)]\<rparr>"
  from run_catalogFlags [OF assms(1), of subject window ?s] w show ?thesis
    by (auto simp: serveCatalog_def run call_def assms emit_def Let_def window_of_def catalog_reply_def)
qed

lemma catalogWindow_all2:
  "list_all2 R xs ys \<Longrightarrow> catalogWindow xs c n = (w, off, mr) \<Longrightarrow> catalogWindow ys c n = (w', off', mr') \<Longrightarrow>
   list_all2 R w w' \<and> off = off' \<and> mr = mr'"
  by (auto simp: catalogWindow_def Let_def list_all2_lengthD split: if_splits
      intro: list_all2_takeI list_all2_dropI)

lemma filter_all2:
  "list_all2 (\<lambda>a b. p a = q b \<and> (p a \<longrightarrow> a = b)) xs ys \<Longrightarrow> filter p xs = filter q ys"
  by (induction rule: list_all2_induct) auto

text \<open>
  C7. The catalogue leaks nothing: two catalogues of the same length that differ only in the
  names the subject may not list produce the same response, cursor included, for every page size
  and every cursor the client sends.
\<close>

theorem catalog_noninterference:
  assumes h: "h_authz h = Some (\<lambda>sub rel ob. State_Monad.return (Inr (perm sub rel ob)))"
      "be_CatalogRepoNames (h_backend h) = State_Monad.return (Inr names)"
    and h': "h_authz h' = Some (\<lambda>sub rel ob. State_Monad.return (Inr (perm' sub rel ob)))"
      "be_CatalogRepoNames (h_backend h') = State_Monad.return (Inr names')"
    and same: "list_all2 (\<lambda>a b. perm subject FGARelationVList (repositoryObjectFull a) =
        perm' subject FGARelationVList (repositoryObjectFull b) \<and>
        (perm subject FGARelationVList (repositoryObjectFull a) \<longrightarrow> a = b)) names names'"
    and get: "methodIs r [''GET'']"
  shows "last (hs_trace (snd (run_state (serveCatalog h r subject) s))) =
    last (hs_trace (snd (run_state (serveCatalog h' r subject) s')))"
proof -
  obtain w off mr where w: "window_of r names = (w, off, mr)" by (cases "window_of r names")
  obtain w' off' mr' where w': "window_of r names' = (w', off', mr')" by (cases "window_of r names'")
  note all = catalogWindow_all2 [OF same w [unfolded window_of_def] w' [unfolded window_of_def]]
  have "filter (\<lambda>a. perm subject FGARelationVList (repositoryObjectFull a)) w =
      filter (\<lambda>a. perm' subject FGARelationVList (repositoryObjectFull a)) w'"
    by (rule filter_all2) (use all in blast)
  moreover have "off = off'" "mr = mr'" using all by blast+
  moreover have "w = [] \<longleftrightarrow> w' = []" using all by (auto dest: list_all2_lengthD)
  ultimately show ?thesis using w w'
    by (simp add: run_serveCatalog [OF h get] run_serveCatalog [OF h' get] catalog_reply_def catalogResponse_def)
qed

lemma demo_handler_authz:
  "h_authz (demo_handler ps repos) = Some (\<lambda>sub rel ob. State_Monad.return (Inr ((sub, rel, ob) \<in> set ps)))"
  "be_CatalogRepoNames (h_backend (demo_handler ps repos)) = State_Monad.return (Inr repos)"
  by (simp_all add: demo_handler_def)

lemma catalog_noninterference_witness:
  "last (hs_trace (snd (run_state (serveCatalog (demo_handler [(''u'', ''v_list'', ''registry_repository:reg1/b'')]
       [''reg1/a'', ''reg1/b'']) (demo_request ''GET'' ''/v2/_catalog'' [(''n'', ''1'')]) ''u'') demo_start))) =
   last (hs_trace (snd (run_state (serveCatalog (demo_handler [(''u'', ''v_list'', ''registry_repository:reg1/b'')]
       [''reg9/secret'', ''reg1/b'']) (demo_request ''GET'' ''/v2/_catalog'' [(''n'', ''1'')]) ''u'') demo_start)))"
  by (rule catalog_noninterference [OF demo_handler_authz demo_handler_authz])
    (simp_all add: repositoryObjectFull_def FGAObjectRef_def fga_relations fga_object_types demo_request_def methodIs_def)

fun is_check :: "event \<Rightarrow> bool" where
  "is_check (ECheck s r ob v) = True"
| "is_check _ = False"

lemma catalogWindow_size: "catalogWindow xs c n = (w, off, mr) \<Longrightarrow> 0 \<le> n \<Longrightarrow> int (length w) \<le> n"
  by (auto simp: catalogWindow_def Let_def split: if_splits)

lemma parseCatalogPageSize_range: "1 \<le> parseCatalogPageSize n \<and> parseCatalogPageSize n \<le> 1000"
  by (auto simp: parseCatalogPageSize_def catalogMaxPageSize_def split: option.splits)

lemma set_map2_check:
  "length vs = length ws \<Longrightarrow> n \<in> set (keep_flags ws vs) \<Longrightarrow>
   ECheck sub rel (f n) (Inr True) \<in> set (map2 (\<lambda>w v. ECheck sub rel (f w) v) ws (map Inr vs))"
  by (induction vs ws rule: list_induct2) (auto simp: keep_flags_def split: if_splits)

lemma checks_map2: "list_all is_check (map2 (\<lambda>w v. ECheck sub rel (f w) v) ws vs)"
  by (induction ws vs rule: list_induct2') auto

lemma checks_only:
  "list_all is_check cs \<Longrightarrow> EReply resp \<notin> set cs"
  "list_all is_check cs \<Longrightarrow> filter is_check cs = cs"
  by (induction cs) auto

lemma catalogFlags_checks:
  assumes "h_authz h \<noteq> None"
    and "\<And>e cs. list_all is_check cs \<Longrightarrow> length cs \<le> length ws \<Longrightarrow> P (Inl e) cs"
    and "\<And>bs cs. list_all is_check cs \<Longrightarrow> length cs \<le> length ws \<Longrightarrow>
      \<forall>n \<in> set (keep_flags ws bs). ECheck subject FGARelationVList (repositoryObjectFull n) (Inr True) \<in> set cs \<Longrightarrow>
      P (Inr bs) cs"
  shows "emits (catalogFlags h subject ws) P"
proof (rule emits_catalogFlags [OF assms(1)])
  fix bs :: "bool list"
  assume l: "length bs = length ws"
  show "P (Inr bs) (map2 (\<lambda>w. ECheck subject FGARelationVList (repositoryObjectFull w)) ws (map Inr bs))"
    by (rule assms(3) [OF checks_map2]) (use set_map2_check [OF l] in \<open>simp_all del: set_map set_zip\<close>)
next
  fix vs :: "(gerror + bool) list" and e
  assume "length vs = length ws"
  then show "P (Inl e) (map2 (\<lambda>w. ECheck subject FGARelationVList (repositoryObjectFull w)) ws vs)"
    by (intro assms(2) [OF checks_map2]) simp
qed

text \<open>
  The catalogue shows a repository only after a check of the list relation on exactly this
  repository answered yes, and one request never makes more than a thousand checks, whatever page
  size it asks for and however long the catalogue is.
\<close>

theorem catalog_lists_only_allowed:
  fixes h :: "'w handler"
  assumes sec: "h_verifier h \<noteq> None" "h_authz h \<noteq> None"
    and p: "parsePath L (rq_EscapedPath r) = Inr p" "o_route p = routeCatalog" "\<not> methodIs r [''DELETE'']"
    and run: "run_state (ServeHTTP L h r) s = ((), t)" "hs_trace t = hs_trace s @ es"
  shows "length (filter is_check es) \<le> 1000 \<and>
    (\<forall>resp visible n. EReply resp \<in> set es \<longrightarrow> rs_Body resp = Repositories visible \<longrightarrow> n \<in> set visible \<longrightarrow>
      (\<exists>raw sub. EVerify raw (Inr sub) \<in> set es \<and>
        ECheck (fgaSubject sub (h_anonSubjectID h)) FGARelationVList (repositoryObjectFull n) (Inr True) \<in> set es))"
proof -
  let ?Q = "\<lambda>es. length (filter is_check es) \<le> 1000 \<and>
    (\<forall>resp visible n. EReply resp \<in> set es \<longrightarrow> rs_Body resp = Repositories visible \<longrightarrow> n \<in> set visible \<longrightarrow>
      (\<exists>raw sub. EVerify raw (Inr sub) \<in> set es \<and>
        ECheck (fgaSubject sub (h_anonSubjectID h)) FGARelationVList (repositoryObjectFull n) (Inr True) \<in> set es))"
  have nb: "rs_Body notFoundResponse \<noteq> Repositories v" "rs_Body unavailableResponse \<noteq> Repositories v" for v
    by (simp_all add: notFoundResponse_def unavailableResponse_def errorResponse_def)
  have catalog: "emits (serveCatalog h r (fgaSubject sub (h_anonSubjectID h))) (\<lambda>_ es. ?Q (EVerify raw (Inr sub) # es))"
    for sub raw
    unfolding serveCatalog_def Let_def
  proof (intro emits_if emits_bind emits_call emits_case_sum emits_case_prod)
    fix v names w b off mr
    assume "catalogWindow names (queryGet r ''last'') (parseCatalogPageSize (queryGet r ''n'')) = (w, b)" "b = (off, mr)"
    then have w: "catalogWindow names (queryGet r ''last'') (parseCatalogPageSize (queryGet r ''n'')) = (w, off, mr)"
      by simp
    have len: "length w \<le> 1000"
      using catalogWindow_size [OF w] parseCatalogPageSize_range [of "queryGet r ''n''"] by linarith
    let ?after = "\<lambda>a :: gerror + bool list. (case a of Inl e \<Rightarrow> failClosed | Inr flags \<Rightarrow>
      emit (EReply (catalogResponse w (parseCatalogPageSize (queryGet r ''n'')) (keep_flags w flags) off mr)))
        :: ('w hstate, unit) state"
    show "emits (catalogFlags h (fgaSubject sub (h_anonSubjectID h)) w)
       (\<lambda>a es. emits (?after a) (\<lambda>b es'. ?Q (EVerify raw (Inr sub) # [ECatalog v] @ es @ es')))"
    proof (rule catalogFlags_checks [OF sec(2)])
      fix e and cs :: "event list"
      assume "list_all is_check cs" "length cs \<le> length w"
      with len show "emits (?after (Inl e)) (\<lambda>b es'. ?Q (EVerify raw (Inr sub) # [ECatalog v] @ cs @ es'))"
        by (auto intro!: emits simp: checks_only nb)
    next
      fix bs and cs :: "event list"
      assume cs: "list_all is_check cs" "length cs \<le> length w"
        "\<forall>n \<in> set (keep_flags w bs). ECheck (fgaSubject sub (h_anonSubjectID h)) FGARelationVList
          (repositoryObjectFull n) (Inr True) \<in> set cs"
      with len show "emits (?after (Inr bs)) (\<lambda>b es'. ?Q (EVerify raw (Inr sub) # [ECatalog v] @ cs @ es'))"
        by (auto intro!: emits simp: checks_only catalogResponse_def) blast+
    qed
  qed (auto intro!: emits simp: nb)
  have "emits (ServeHTTP L h r) (\<lambda>_. ?Q)"
    by (rule emits_ServeHTTP [OF sec(1) p(3,1)])
      (use catalog p(2) in \<open>auto simp: Let_def\<close>)
  from emits_runD [OF this run(1)] run(2) show ?thesis by auto
qed

lemma catalog_lists_only_allowed_witness:
  "length (filter is_check (demo_trace [] [''reg1/a'', ''reg1/b''] (demo_request ''GET'' ''/v2/_catalog'' []))) \<le> 1000"
proof -
  let ?r = "demo_request ''GET'' ''/v2/_catalog'' []"
  have p: "parsePath demo_corelib (rq_EscapedPath ?r) = Inr (parsed_of routeCatalog)" by code_simp
  have tr: "hs_trace (snd (run_state (ServeHTTP demo_corelib (demo_handler [] [''reg1/a'', ''reg1/b'']) ?r) demo_start)) =
      hs_trace demo_start @ demo_trace [] [''reg1/a'', ''reg1/b''] ?r"
    by (simp add: demo_start_def demo_trace_def)
  have "\<not> methodIs ?r [''DELETE'']" by (simp add: methodIs_def demo_request_def)
  from catalog_lists_only_allowed [OF demo_handler_secured p _ this demo_run tr] show ?thesis by simp
qed

end
