(* ===== verification/PgStore.thy ===== *)
theory PgStore
  imports Fga
begin

text \<open>
  \<open>internal/repo/kacho/pg\<close> over the tables of \<open>internal/migrations\<close>. The database is a record of
  its tables; a statement is a function on it that checks the constraints the migrations declare.
  Every exchange with the server pops an injected fault: it may fail before or after it took
  effect. A transaction restores the tables it found on any error, but not the sequence.
  Transactions are applied one after the other: the row locks of the program serialize those
  that touch the same registry. The paged \<open>List\<close> is in \<open>PgList\<close>; the tables hold entities, and that
  nothing is lost in their columns is shown in \<open>PgRows\<close>.
\<close>

section \<open>Tables\<close>

record outbox_row =
  ob_id :: int
  ob_event :: string
  ob_intent :: register_intent
  ob_source_version :: int

datatype pg_error = NoRows | SqlState string | OtherErr string

text \<open>What may go wrong in an exchange: the server refuses with a code, or the connection breaks. An
  empty result is not a failure; only a query that finds nothing reports it.\<close>

datatype failure = ServerError string | Broken string

datatype fault = NoFault | FailBefore failure | FailAfter failure

fun failure_error :: "failure \<Rightarrow> pg_error" where
  "failure_error (ServerError code) = SqlState code"
| "failure_error (Broken m) = OtherErr m"

type_synonym triple = "string \<times> string \<times> string"

record db =
  d_registries :: "registry list"
  d_configs :: "repo_config list"
  d_outbox :: "outbox_row list"
  d_seq :: int
  d_pending_blobs :: "(triple \<times> time) list"
  d_push_grants :: "(triple \<times> time) list"
  d_now :: time
  d_clock :: time
  d_faults :: "fault list"
  d_pool :: bool

section \<open>Errors\<close>

definition wrapPgErr :: "pg_error \<Rightarrow> string \<Rightarrow> string \<Rightarrow> gerror" where
  "wrapPgErr err resource i = (case err of
       NoRows \<Rightarrow> wrapE ErrNotFound (resource @ '' '' @ i @ '' not found'')
     | SqlState code \<Rightarrow>
         (if code = ''23505'' then wrapE ErrAlreadyExists (resource @ '' '' @ i @ '' already exists'')
          else if code = ''23503''
          then wrapE ErrFailedPrecondition (resource @ '' '' @ i @ '' violates a reference constraint'')
          else if code = ''23514'' then wrapE ErrInvalidArg (''invalid '' @ resource)
          else bare ErrInternal)
     | OtherErr m \<Rightarrow> bare ErrInternal)"

definition mapConfigErr :: "pg_error \<Rightarrow> gerror" where
  "mapConfigErr err = (case err of
       NoRows \<Rightarrow> wrapE ErrNotFound ''repository not found''
     | SqlState code \<Rightarrow>
         (if code = ''23505'' then wrapE ErrAlreadyExists ''repository already exists''
          else if code = ''23503'' then wrapE ErrFailedPrecondition ''registry not found''
          else if code = ''23514'' then wrapE ErrInvalidArg ''invalid repository config''
          else bare ErrInternal)
     | OtherErr m \<Rightarrow> bare ErrInternal)"

section \<open>Round trips and transactions\<close>

text \<open>One exchange with the server: the statement \<open>act\<close> under the next injected fault.\<close>

definition trip :: "(db \<Rightarrow> (pg_error + 'a) \<times> db) \<Rightarrow> (db, pg_error + 'a) state" where
  "trip act = State (\<lambda>s. case d_faults s of [] \<Rightarrow> act s
     | NoFault # fs \<Rightarrow> act (s\<lparr>d_faults := fs\<rparr>)
     | FailBefore e # fs \<Rightarrow> (Inl (failure_error e), s\<lparr>d_faults := fs\<rparr>)
     | FailAfter e # fs \<Rightarrow> (Inl (failure_error e), snd (act (s\<lparr>d_faults := fs\<rparr>))))"

definition no_op :: "db \<Rightarrow> (pg_error + unit) \<times> db" where
  "no_op s = (Inr (), s)"

definition rollback :: "db \<Rightarrow> db \<Rightarrow> db" where
  "rollback snap s = snap\<lparr>d_seq := d_seq s, d_faults := d_faults s\<rparr>"

text \<open>\<open>Begin\<close>, the body, \<open>Commit\<close>; \<open>defer tx.Rollback\<close> undoes whatever was not committed. A commit
  that fails \<open>after\<close> it took effect is a lost acknowledgement.\<close>

definition in_tx :: "(pg_error \<Rightarrow> gerror) \<Rightarrow> (db, gerror + 'a) state \<Rightarrow> (db, gerror + 'a) state" where
  "in_tx mapper body = State (\<lambda>s.
     case run_state (trip no_op) s of
       (Inl e, s1) \<Rightarrow> (Inl (mapper e), s1)
     | (Inr _, s1) \<Rightarrow>
         (case run_state body s1 of
            (Inl e, s2) \<Rightarrow> (Inl e, rollback s1 s2)
          | (Inr a, s2) \<Rightarrow>
              (case d_faults s2 of
                 [] \<Rightarrow> (Inr a, s2)
               | NoFault # fs \<Rightarrow> (Inr a, s2\<lparr>d_faults := fs\<rparr>)
               | FailBefore e # fs \<Rightarrow> (Inl (mapper (failure_error e)), rollback s1 (s2\<lparr>d_faults := fs\<rparr>))
               | FailAfter e # fs \<Rightarrow> (Inl (mapper (failure_error e)), s2\<lparr>d_faults := fs\<rparr>))))"

text \<open>\<open>ready\<close>: a repository without a pool answers \<open>Unavailable\<close>.\<close>

definition ready :: "(db, gerror + 'a) state \<Rightarrow> (db, gerror + 'a) state" where
  "ready m = do { s \<leftarrow> State_Monad.get;
     if d_pool s then m else State_Monad.return (Inl (bare ErrUnavailable)) }"

definition wrapped :: "(pg_error \<Rightarrow> gerror) \<Rightarrow> (db, pg_error + 'a) state \<Rightarrow> (db, gerror + 'a) state" where
  "wrapped mapper m = do { r \<leftarrow> m; State_Monad.return (map_err mapper r) }"

section \<open>Statements on registries\<close>

definition statusString :: "int \<Rightarrow> string" where
  "statusString s = (if s = RegistryStatusDeleting then ''DELETING'' else ''ACTIVE'')"

definition statusFromString :: "string \<Rightarrow> int" where
  "statusFromString s = (if s = ''DELETING'' then RegistryStatusDeleting else RegistryStatusActive)"

definition live :: "registry \<Rightarrow> bool" where
  "live r \<longleftrightarrow> r_status r \<noteq> RegistryStatusDeleting"

definition find_registry :: "db \<Rightarrow> string \<Rightarrow> registry option" where
  "find_registry s i = find (\<lambda>r. r_id r = i) (d_registries s)"

definition put_registry :: "registry \<Rightarrow> registry list \<Rightarrow> registry list" where
  "put_registry r rs = map (\<lambda>x. if r_id x = r_id r then r else x) rs"

text \<open>The partial unique index on \<open>(project_id, name)\<close> of the rows that are not DELETING.\<close>

definition name_taken :: "registry list \<Rightarrow> registry \<Rightarrow> bool" where
  "name_taken rs r \<longleftrightarrow> live r \<and> (\<exists>x \<in> set rs. live x \<and> r_id x \<noteq> r_id r \<and>
     r_project_id x = r_project_id r \<and> r_name x = r_name r)"

definition sql_select_registry :: "string \<Rightarrow> db \<Rightarrow> (pg_error + registry) \<times> db" where
  "sql_select_registry i s = ((case find_registry s i of None \<Rightarrow> Inl NoRows | Some r \<Rightarrow> Inr r), s)"

definition sql_insert_registry :: "registry \<Rightarrow> db \<Rightarrow> (pg_error + registry) \<times> db" where
  "sql_insert_registry r s =
     (let row = r\<lparr>r_status := statusFromString (statusString (r_status r)), r_created_at := d_now s,
                  r_default_visibility := VisibilityPrivate\<rparr> in
      if find_registry s (r_id r) \<noteq> None \<or> name_taken (d_registries s) row then (Inl (SqlState ''23505''), s)
      else (Inr row, s\<lparr>d_registries := d_registries s @ [row]\<rparr>))"

record update_spec =
  us_RegistryID :: string
  us_Name :: string
  us_Description :: string
  us_Labels :: labels
  us_Mask :: "string list"
  us_ApplyName :: bool
  us_ApplyDescription :: bool
  us_ApplyLabels :: bool
  us_DefaultVisibility :: int
  us_ApplyDefaultVisibility :: bool

definition set_registry_columns :: "update_spec \<Rightarrow> registry \<Rightarrow> registry" where
  "set_registry_columns u r =
     (let r = (if us_ApplyName u then r\<lparr>r_name := us_Name u\<rparr> else r);
          r = (if us_ApplyDescription u then r\<lparr>r_description := us_Description u\<rparr> else r);
          r = (if us_ApplyLabels u then r\<lparr>r_labels := us_Labels u\<rparr> else r)
      in if us_ApplyDefaultVisibility u
         then r\<lparr>r_default_visibility := visibility_from_string (visibility_string (us_DefaultVisibility u))\<rparr>
         else r)"

text \<open>Both branches of \<open>Update\<close>: without a column to set it is a \<open>SELECT ... FOR UPDATE\<close> of the
  active row, which the update with no columns is too.\<close>

definition sql_update_registry :: "update_spec \<Rightarrow> db \<Rightarrow> (pg_error + registry) \<times> db" where
  "sql_update_registry u s = (case find_registry s (us_RegistryID u) of
       None \<Rightarrow> (Inl NoRows, s)
     | Some r \<Rightarrow>
         (if r_status r \<noteq> RegistryStatusActive then (Inl NoRows, s)
          else let row = set_registry_columns u r in
            if name_taken (d_registries s) row then (Inl (SqlState ''23505''), s)
            else (Inr row, s\<lparr>d_registries := put_registry row (d_registries s)\<rparr>)))"

definition sql_mark_deleting :: "string \<Rightarrow> db \<Rightarrow> (pg_error + registry) \<times> db" where
  "sql_mark_deleting i s = (case find_registry s i of
       None \<Rightarrow> (Inl NoRows, s)
     | Some r \<Rightarrow>
         (if r_status r \<in> {RegistryStatusActive, RegistryStatusDeleting}
          then let row = r\<lparr>r_status := RegistryStatusDeleting\<rparr> in
            (Inr row, s\<lparr>d_registries := put_registry row (d_registries s)\<rparr>)
          else (Inl NoRows, s)))"

text \<open>The overlays of a deleted registry go with it (\<open>ON DELETE CASCADE\<close>).\<close>

definition sql_delete_registry :: "string \<Rightarrow> db \<Rightarrow> (pg_error + unit) \<times> db" where
  "sql_delete_registry i s = (case find_registry s i of
       None \<Rightarrow> (Inl NoRows, s)
     | Some r \<Rightarrow> (Inr (), s\<lparr>d_registries := filter (\<lambda>x. r_id x \<noteq> i) (d_registries s),
                          d_configs := filter (\<lambda>c. c_registry_id c \<noteq> i) (d_configs s)\<rparr>))"

text \<open>The outbox takes its id from the sequence, and the trigger of migration 0002 stamps the
  source version of the payload with this id. A failed insert still consumes the number.\<close>

definition sql_insert_outbox :: "string \<Rightarrow> register_intent \<Rightarrow> db \<Rightarrow> (pg_error + unit) \<times> db" where
  "sql_insert_outbox event intent s =
     (if event \<in> {''fga.register'', ''fga.unregister''}
      then (Inr (), s\<lparr>d_seq := d_seq s + 1, d_outbox := d_outbox s @
        [\<lparr>ob_id = d_seq s, ob_event = event, ob_intent = intent, ob_source_version = d_seq s\<rparr>]\<rparr>)
      else (Inl (SqlState ''23514''), s\<lparr>d_seq := d_seq s + 1\<rparr>))"

definition emitFGAIntent :: "string \<Rightarrow> register_intent \<Rightarrow> (db, gerror + unit) state" where
  "emitFGAIntent event intent =
     (if i_tuples intent = [] then State_Monad.return (Inr ())
      else wrapped (\<lambda>e. wrapPgErr e ''registry_outbox'' (i_resource_id intent))
        (trip (sql_insert_outbox event intent)))"

section \<open>The registry repository\<close>

definition repo_Get :: "string \<Rightarrow> (db, gerror + registry) state" where
  "repo_Get i = ready (wrapped (\<lambda>e. wrapPgErr e ''Registry'' i) (trip (sql_select_registry i)))"

definition repo_RegistryProjectID :: "string \<Rightarrow> (db, gerror + string) state" where
  "repo_RegistryProjectID i = ready (wrapped (\<lambda>e. wrapPgErr e ''Registry'' i)
     (trip (\<lambda>s. (case fst (sql_select_registry i s) of Inl e \<Rightarrow> Inl e | Inr r \<Rightarrow> Inr (r_project_id r), s))))"

definition repo_Insert :: "registry \<Rightarrow> register_intent \<Rightarrow> (db, gerror + registry) state" where
  "repo_Insert r intent = ready (in_tx (\<lambda>e. wrapPgErr e ''Registry'' (r_id r))
     (andThen (wrapped (\<lambda>e. wrapPgErr e ''Registry'' (r_id r)) (trip (sql_insert_registry r))) (\<lambda>created.
      andThen (emitFGAIntent FGAEventRegister intent) (\<lambda>_. State_Monad.return (Inr created)))))"

definition repo_Update :: "update_spec \<Rightarrow> (registry \<Rightarrow> register_intent) \<Rightarrow> (db, gerror + registry) state" where
  "repo_Update u mirror = ready (in_tx (\<lambda>e. wrapPgErr e ''Registry'' (us_RegistryID u))
     (andThen (wrapped (\<lambda>e. wrapPgErr e ''Registry'' (us_RegistryID u)) (trip (sql_update_registry u))) (\<lambda>updated.
      andThen (emitFGAIntent FGAEventRegister (mirror updated)) (\<lambda>_. State_Monad.return (Inr updated)))))"

definition repo_MarkDeleting :: "string \<Rightarrow> (db, gerror + registry) state" where
  "repo_MarkDeleting i = ready (wrapped (\<lambda>e. wrapPgErr e ''Registry'' i) (trip (sql_mark_deleting i)))"

definition repo_Delete :: "string \<Rightarrow> register_intent \<Rightarrow> (db, gerror + unit) state" where
  "repo_Delete i intent = ready (in_tx (\<lambda>e. wrapPgErr e ''Registry'' i)
     (andThen (wrapped (\<lambda>e. wrapPgErr e ''Registry'' i) (trip (sql_delete_registry i))) (\<lambda>_.
      emitFGAIntent FGAEventUnregister intent)))"

text \<open>The advisory lock on the repository object orders the inserts for one repository; it changes
  no table.\<close>

definition emitRepoIntent :: "string \<Rightarrow> register_intent \<Rightarrow> (db, gerror + unit) state" where
  "emitRepoIntent event intent = ready
     (if i_tuples intent = [] then State_Monad.return (Inr ())
      else in_tx (\<lambda>e. wrapPgErr e ''registry_outbox'' (i_resource_id intent))
        (andThen (wrapped (\<lambda>e. wrapPgErr e ''registry_outbox'' (i_resource_id intent)) (trip no_op)) (\<lambda>_.
          emitFGAIntent event intent)))"

definition RegisterRepository :: "register_intent \<Rightarrow> (db, gerror + unit) state" where
  "RegisterRepository intent = emitRepoIntent FGAEventRegister intent"

definition UnregisterRepository :: "register_intent \<Rightarrow> (db, gerror + unit) state" where
  "UnregisterRepository intent = emitRepoIntent FGAEventUnregister intent"

section \<open>The overlay repository\<close>

definition cfg_key :: "repo_config \<Rightarrow> string \<times> string" where
  "cfg_key c = (c_registry_id c, c_name c)"

definition find_config :: "db \<Rightarrow> string \<Rightarrow> string \<Rightarrow> repo_config option" where
  "find_config s reg name = find (\<lambda>c. cfg_key c = (reg, name)) (d_configs s)"

definition sql_select_config :: "string \<Rightarrow> string \<Rightarrow> db \<Rightarrow> (pg_error + repo_config) \<times> db" where
  "sql_select_config reg name s =
     ((case find_config s reg name of None \<Rightarrow> Inl NoRows | Some c \<Rightarrow> Inr c), s)"

definition sql_insert_config :: "repo_config \<Rightarrow> db \<Rightarrow> (pg_error + repo_config) \<times> db" where
  "sql_insert_config c s =
     (let row = c\<lparr>c_visibility := visibility_from_string (visibility_string (c_visibility c)),
                  c_created_at := d_now s\<rparr> in
      if find_config s (c_registry_id c) (c_name c) \<noteq> None then (Inl (SqlState ''23505''), s)
      else if find_registry s (c_registry_id c) = None then (Inl (SqlState ''23503''), s)
      else (Inr row, s\<lparr>d_configs := d_configs s @ [row]\<rparr>))"

record config_update =
  cu_RegistryID :: string
  cu_Name :: string
  cu_Description :: string
  cu_Labels :: labels
  cu_Visibility :: int
  cu_ApplyDescription :: bool
  cu_ApplyLabels :: bool
  cu_ApplyVisibility :: bool

definition set_config_columns :: "config_update \<Rightarrow> repo_config \<Rightarrow> repo_config" where
  "set_config_columns u c =
     (let c = (if cu_ApplyDescription u then c\<lparr>c_description := cu_Description u\<rparr> else c);
          c = (if cu_ApplyLabels u then c\<lparr>c_labels := cu_Labels u\<rparr> else c)
      in if cu_ApplyVisibility u
         then c\<lparr>c_visibility := visibility_from_string (visibility_string (cu_Visibility u))\<rparr> else c)"

definition map_config :: "string \<Rightarrow> string \<Rightarrow> (repo_config \<Rightarrow> repo_config) \<Rightarrow> repo_config list \<Rightarrow> repo_config list" where
  "map_config reg name f cs = map (\<lambda>c. if cfg_key c = (reg, name) then f c else c) cs"

definition sql_update_config :: "config_update \<Rightarrow> db \<Rightarrow> (pg_error + repo_config) \<times> db" where
  "sql_update_config u s = (case find_config s (cu_RegistryID u) (cu_Name u) of
       None \<Rightarrow> (Inl NoRows, s)
     | Some c \<Rightarrow> (Inr (set_config_columns u c),
         s\<lparr>d_configs := map_config (cu_RegistryID u) (cu_Name u) (set_config_columns u) (d_configs s)\<rparr>))"

definition sql_rekey_config :: "string \<Rightarrow> string \<Rightarrow> string \<Rightarrow> db \<Rightarrow> (pg_error + repo_config) \<times> db" where
  "sql_rekey_config reg old new s = (case find_config s reg old of
       None \<Rightarrow> (Inl NoRows, s)
     | Some c \<Rightarrow>
         (if old \<noteq> new \<and> find_config s reg new \<noteq> None then (Inl (SqlState ''23505''), s)
          else (Inr (c\<lparr>c_name := new\<rparr>),
            s\<lparr>d_configs := map_config reg old (\<lambda>c. c\<lparr>c_name := new\<rparr>) (d_configs s)\<rparr>)))"

definition sql_delete_config :: "string \<Rightarrow> string \<Rightarrow> db \<Rightarrow> (pg_error + unit) \<times> db" where
  "sql_delete_config reg name s = (case find_config s reg name of
       None \<Rightarrow> (Inl NoRows, s)
     | Some c \<Rightarrow> (Inr (), s\<lparr>d_configs := filter (\<lambda>c. cfg_key c \<noteq> (reg, name)) (d_configs s)\<rparr>))"

definition guardRegistryActive :: "string \<Rightarrow> (db, gerror + unit) state" where
  "guardRegistryActive registryID =
     do { r \<leftarrow> trip (sql_select_registry registryID);
          State_Monad.return (case r of
            Inl NoRows \<Rightarrow> Inl (wrapE ErrFailedPrecondition ''registry not found'')
          | Inl e \<Rightarrow> Inl (mapConfigErr e)
          | Inr reg \<Rightarrow> if statusString (r_status reg) = ''DELETING''
              then Inl (wrapE ErrFailedPrecondition ''registry is being deleted'') else Inr ()) }"

type_synonym outbox_intent = "string \<times> register_intent"

fun emit_all :: "outbox_intent list \<Rightarrow> (db, gerror + unit) state" where
  "emit_all [] = State_Monad.return (Inr ())"
| "emit_all ((ev, intent) # rest) = andThen (emitFGAIntent ev intent) (\<lambda>_. emit_all rest)"

definition runConfigTx :: "string \<Rightarrow> outbox_intent list \<Rightarrow> (db, pg_error + 'a) state \<Rightarrow> (db, gerror + 'a) state" where
  "runConfigTx registryID intents dml = in_tx mapConfigErr
     (andThen (guardRegistryActive registryID) (\<lambda>_.
      andThen (wrapped mapConfigErr dml) (\<lambda>out.
      andThen (emit_all intents) (\<lambda>_. State_Monad.return (Inr out)))))"

definition GetConfig :: "string \<Rightarrow> string \<Rightarrow> (db, gerror + repo_config) state" where
  "GetConfig reg name = ready (wrapped mapConfigErr (trip (sql_select_config reg name)))"

definition config_order :: "repo_config \<Rightarrow> repo_config \<Rightarrow> bool" where
  "config_order a b \<longleftrightarrow> c_created_at a < c_created_at b \<or> c_created_at a = c_created_at b \<and>
     ord_class.lexordp_eq (map (of_char :: char \<Rightarrow> nat) (c_name a)) (map of_char (c_name b))"

fun insert_config_sorted :: "repo_config \<Rightarrow> repo_config list \<Rightarrow> repo_config list" where
  "insert_config_sorted c [] = [c]"
| "insert_config_sorted c (x # xs) = (if config_order c x then c # x # xs else x # insert_config_sorted c xs)"

definition ListConfigs :: "string \<Rightarrow> (db, gerror + repo_config list) state" where
  "ListConfigs reg = ready (wrapped mapConfigErr (trip (\<lambda>s.
     (Inr (foldr insert_config_sorted (filter (\<lambda>c. c_registry_id c = reg) (d_configs s)) []), s))))"

definition InsertConfig :: "repo_config \<Rightarrow> outbox_intent list \<Rightarrow> (db, gerror + repo_config) state" where
  "InsertConfig c intents = ready (runConfigTx (c_registry_id c) intents (trip (sql_insert_config c)))"

definition UpdateConfig :: "config_update \<Rightarrow> outbox_intent list \<Rightarrow> (db, gerror + repo_config) state" where
  "UpdateConfig u intents = ready (runConfigTx (cu_RegistryID u) intents (trip (sql_update_config u)))"

definition RekeyConfig :: "string \<Rightarrow> string \<Rightarrow> string \<Rightarrow> outbox_intent list \<Rightarrow> (db, gerror + repo_config) state" where
  "RekeyConfig reg old new intents = ready (runConfigTx reg intents (trip (sql_rekey_config reg old new)))"

definition DeleteConfig :: "string \<Rightarrow> string \<Rightarrow> outbox_intent list \<Rightarrow> (db, gerror + unit) state" where
  "DeleteConfig reg name intents = ready (runConfigTx reg intents (trip (sql_delete_config reg name)))"

section \<open>The two freshness tables\<close>

definition upsert_at :: "triple \<Rightarrow> time \<Rightarrow> (triple \<times> time) list \<Rightarrow> (triple \<times> time) list" where
  "upsert_at k t tab = (k, t) # filter (\<lambda>e. fst e \<noteq> k) tab"

definition fresh_in :: "triple \<Rightarrow> time \<Rightarrow> (triple \<times> time) list \<Rightarrow> bool" where
  "fresh_in k cutoff tab \<longleftrightarrow> (\<exists>e \<in> set tab. fst e = k \<and> snd e > cutoff)"

definition RecordUploadedBlob :: "string \<Rightarrow> string \<Rightarrow> string \<Rightarrow> (db, gerror + unit) state" where
  "RecordUploadedBlob reg repo digest = ready
     (wrapped (\<lambda>e. wrapPgErr e ''registry_pending_blob'' (reg @ ''/'' @ repo))
       (trip (\<lambda>s. (Inr (), s\<lparr>d_pending_blobs := upsert_at (reg, repo, digest) (d_now s) (d_pending_blobs s)\<rparr>))))"

definition BlobUploaded :: "time \<Rightarrow> string \<Rightarrow> string \<Rightarrow> string \<Rightarrow> (db, gerror + bool) state" where
  "BlobUploaded ttl reg repo digest = ready
     (wrapped (\<lambda>e. wrapPgErr e ''registry_pending_blob'' (reg @ ''/'' @ repo))
       (trip (\<lambda>s. (Inr (fresh_in (reg, repo, digest) (d_clock s - ttl) (d_pending_blobs s)), s))))"

definition SweepStaleBlobs :: "time \<Rightarrow> (db, gerror + nat) state" where
  "SweepStaleBlobs ttl = ready
     (wrapped (\<lambda>e. wrapPgErr e ''registry_pending_blob'' [])
       (trip (\<lambda>s. (Inr (length (filter (\<lambda>e. snd e \<le> d_clock s - ttl) (d_pending_blobs s))),
         s\<lparr>d_pending_blobs := filter (\<lambda>e. snd e > d_clock s - ttl) (d_pending_blobs s)\<rparr>))))"

definition RecordPushGrant :: "string \<Rightarrow> string \<Rightarrow> string \<Rightarrow> (db, gerror + unit) state" where
  "RecordPushGrant reg repo subject = ready
     (wrapped (\<lambda>e. wrapPgErr e ''registry_push_grant'' (reg @ ''/'' @ repo))
       (trip (\<lambda>s. (Inr (), s\<lparr>d_push_grants := upsert_at (reg, repo, subject) (d_now s) (d_push_grants s)\<rparr>))))"

definition PushGranted :: "time \<Rightarrow> string \<Rightarrow> string \<Rightarrow> string \<Rightarrow> (db, gerror + bool) state" where
  "PushGranted ttl reg repo subject = ready
     (wrapped (\<lambda>e. wrapPgErr e ''registry_push_grant'' (reg @ ''/'' @ repo))
       (trip (\<lambda>s. (Inr (fresh_in (reg, repo, subject) (d_clock s - ttl) (d_push_grants s)), s))))"

definition DeletePushGrant :: "string \<Rightarrow> string \<Rightarrow> string \<Rightarrow> (db, gerror + unit) state" where
  "DeletePushGrant reg repo subject = ready
     (wrapped (\<lambda>e. wrapPgErr e ''registry_push_grant'' (reg @ ''/'' @ repo))
       (trip (\<lambda>s. (Inr (), s\<lparr>d_push_grants := filter (\<lambda>e. fst e \<noteq> (reg, repo, subject)) (d_push_grants s)\<rparr>))))"

definition SweepStaleGrants :: "time \<Rightarrow> (db, gerror + nat) state" where
  "SweepStaleGrants ttl = ready
     (wrapped (\<lambda>e. wrapPgErr e ''registry_push_grant'' [])
       (trip (\<lambda>s. (Inr (length (filter (\<lambda>e. snd e \<le> d_clock s - ttl) (d_push_grants s))),
         s\<lparr>d_push_grants := filter (\<lambda>e. snd e > d_clock s - ttl) (d_push_grants s)\<rparr>))))"

end
