(* ===== verification/PgProps.thy ===== *)
theory PgProps
  imports PgStore
begin

text \<open>
  What the storage layer keeps: the schema's invariant over every sequence of operations and
  faults, the forward-only life of a registry, the atomicity of a change with its authorization
  intent, and the contract of the two freshness tables.
\<close>

section \<open>Relations every operation guarantees\<close>

text \<open>A relation between the database before and after, blind to the fault schedule and kept by a
  rollback: what every statement guarantees every operation guarantees.\<close>

locale guarantee = guaranteed R for R :: "db \<Rightarrow> db \<Rightarrow> bool" +
  assumes faults: "R s (s\<lparr>d_faults := fs\<rparr>)"
    and undo: "R s t \<Longrightarrow> R s (rollback s t)"
begin

lemma g_trip:
  assumes "\<And>s. R s (snd (act s))"
  shows "guar R (trip act)"
proof (rule guarI)
  fix s a t
  assume t: "run_state (trip act) s = (a, t)"
  have "R s (snd (act (s\<lparr>d_faults := fs\<rparr>)))" for fs by (rule trans [OF faults assms])
  with t assms [of s] faults [of s] show "R s t"
    by (auto simp: trip_def split: list.splits fault.splits) (metis snd_conv)+
qed

lemma g_wrapped: "guar R m \<Longrightarrow> guar R (wrapped f m)"
  unfolding wrapped_def by (intro g_bind g_return)

lemma g_ready: "guar R m \<Longrightarrow> guar R (ready m)"
  unfolding ready_def by (intro g_bind g_get) (auto intro: g_return)

lemma g_in_tx:
  assumes "guar R m" shows "guar R (in_tx f m)"
proof (rule guarI)
  fix s a t
  assume t: "run_state (in_tx f m) s = (a, t)"
  obtain b s1 where b: "run_state (trip no_op) s = (b, s1)" by force
  have s1: "R s s1" by (rule guarD [OF g_trip b]) (simp add: no_op_def refl)
  obtain r s2 where m: "run_state m s1 = (r, s2)" by force
  have s2: "R s1 s2" by (rule guarD [OF assms m])
  have u: "R s1 (s2\<lparr>d_faults := fs\<rparr>)" for fs by (rule trans [OF s2 faults])
  have v: "R s1 (rollback s1 s2)" by (rule undo [OF s2])
  have w: "R s1 (rollback s1 (s2\<lparr>d_faults := fs\<rparr>))" for fs by (rule undo [OF u])
  have "t \<in> {s1, s2, rollback s1 s2} \<or> (\<exists>fs. t = s2\<lparr>d_faults := fs\<rparr> \<or> t = rollback s1 (s2\<lparr>d_faults := fs\<rparr>))"
    using t b m by (auto simp: in_tx_def split: sum.splits list.splits fault.splits)
  then show "R s t" using s1 s2 u v w by (auto intro: trans)
qed

lemmas g_rules = g_return g_andThen g_wrapped g_ready g_in_tx g_trip

lemma g_GetConfig: "guar R (GetConfig reg name)"
  unfolding GetConfig_def by (intro g_rules) (simp add: sql_select_config_def refl)

lemma g_Get: "guar R (repo_Get i)"
  unfolding repo_Get_def by (intro g_rules) (simp add: sql_select_registry_def refl)

lemma g_ListConfigs: "guar R (ListConfigs i)"
  unfolding ListConfigs_def by (intro g_rules) (simp add: refl)

lemma g_emitFGAIntent:
  assumes "\<And>s. i_tuples intent \<noteq> [] \<Longrightarrow> R s (snd (sql_insert_outbox ev intent s))"
  shows "guar R (emitFGAIntent ev intent)"
  unfolding emitFGAIntent_def using assms by (auto intro!: g_rules)


end

text \<open>The same, given for the statements that do not write the registry table.\<close>

locale overlay_guarantee = guarantee +
  assumes s_outbox: "i_tuples intent \<noteq> [] \<Longrightarrow> R s (snd (sql_insert_outbox ev intent s))"
    and s_insert_config: "R s (snd (sql_insert_config c s))"
    and s_update_config: "R s (snd (sql_update_config cu s))"
    and s_rekey: "R s (snd (sql_rekey_config reg old new s))"
    and s_delete_config: "R s (snd (sql_delete_config reg name s))"
    and s_blobs: "R s (s\<lparr>d_pending_blobs := tab\<rparr>)"
    and s_grants: "R s (s\<lparr>d_push_grants := tab\<rparr>)"
begin

lemma g_emit: "guar R (emitFGAIntent ev intent)"
  by (rule g_emitFGAIntent) (rule s_outbox)

lemma g_emit_all: "guar R (emit_all intents)"
  by (induction intents rule: emit_all.induct) (auto intro: g_rules g_emit)

lemma g_guardActive: "guar R (guardRegistryActive i)"
  unfolding guardRegistryActive_def by (intro g_bind g_return g_trip) (simp add: sql_select_registry_def refl)

lemma g_runConfigTx: "guar R dml \<Longrightarrow> guar R (runConfigTx i intents dml)"
  unfolding runConfigTx_def by (intro g_rules g_guardActive g_emit_all)

lemma g_emitRepoIntent: "guar R (emitRepoIntent ev intent)"
  unfolding emitRepoIntent_def by (auto intro!: g_rules g_emit simp: no_op_def refl)

lemma g_InsertConfig: "guar R (InsertConfig c intents)"
  unfolding InsertConfig_def by (intro g_rules g_runConfigTx s_insert_config)

lemma g_UpdateConfig: "guar R (UpdateConfig cu intents)"
  unfolding UpdateConfig_def by (intro g_rules g_runConfigTx s_update_config)

lemma g_RekeyConfig: "guar R (RekeyConfig reg old new intents)"
  unfolding RekeyConfig_def by (intro g_rules g_runConfigTx s_rekey)

lemma g_DeleteConfig: "guar R (DeleteConfig reg name intents)"
  unfolding DeleteConfig_def by (intro g_rules g_runConfigTx s_delete_config)

lemma g_freshness:
  "guar R (RecordUploadedBlob reg repo d)" "guar R (BlobUploaded ttl reg repo d)" "guar R (SweepStaleBlobs ttl)"
  "guar R (RecordPushGrant reg repo sub)" "guar R (PushGranted ttl reg repo sub)"
  "guar R (DeletePushGrant reg repo sub)" "guar R (SweepStaleGrants ttl)"
  unfolding RecordUploadedBlob_def BlobUploaded_def SweepStaleBlobs_def RecordPushGrant_def
    PushGranted_def DeletePushGrant_def SweepStaleGrants_def
  by (auto intro!: g_rules s_blobs s_grants refl)

end

text \<open>And for every statement.\<close>

locale store_guarantee = overlay_guarantee +
  assumes s_update: "R s (snd (sql_update_registry u s))"
    and s_mark: "R s (snd (sql_mark_deleting i s))"
    and s_delete: "R s (snd (sql_delete_registry i s))"
begin

lemma g_Insert:
  "(\<And>s. R s (snd (sql_insert_registry r s))) \<Longrightarrow> guar R (repo_Insert r intent)"
  unfolding repo_Insert_def by (intro g_rules g_emit)

lemma g_Update: "guar R (repo_Update u mirror)"
  unfolding repo_Update_def by (intro g_rules g_emit s_update)

lemma g_MarkDeleting: "guar R (repo_MarkDeleting i)"
  unfolding repo_MarkDeleting_def by (intro g_rules s_mark)

lemma g_Delete: "guar R (repo_Delete i intent)"
  unfolding repo_Delete_def by (intro g_rules g_emit s_delete)

end

section \<open>Operations and histories\<close>

datatype store_op =
    OpInsert registry register_intent
  | OpUpdate update_spec "registry \<Rightarrow> register_intent"
  | OpMarkDeleting string
  | OpDelete string register_intent
  | OpRegisterRepo register_intent
  | OpUnregisterRepo register_intent
  | OpInsertConfig repo_config "outbox_intent list"
  | OpUpdateConfig config_update "outbox_intent list"
  | OpRekeyConfig string string string "outbox_intent list"
  | OpDeleteConfig string string "outbox_intent list"
  | OpRecordBlob string string string
  | OpSweepBlobs time
  | OpRecordGrant string string string
  | OpDeleteGrant string string string
  | OpSweepGrants time

fun effect :: "store_op \<Rightarrow> db \<Rightarrow> db" where
  "effect (OpInsert r i) s = snd (run_state (repo_Insert r i) s)"
| "effect (OpUpdate u m) s = snd (run_state (repo_Update u m) s)"
| "effect (OpMarkDeleting i) s = snd (run_state (repo_MarkDeleting i) s)"
| "effect (OpDelete i n) s = snd (run_state (repo_Delete i n) s)"
| "effect (OpRegisterRepo n) s = snd (run_state (RegisterRepository n) s)"
| "effect (OpUnregisterRepo n) s = snd (run_state (UnregisterRepository n) s)"
| "effect (OpInsertConfig c ns) s = snd (run_state (InsertConfig c ns) s)"
| "effect (OpUpdateConfig u ns) s = snd (run_state (UpdateConfig u ns) s)"
| "effect (OpRekeyConfig reg old new ns) s = snd (run_state (RekeyConfig reg old new ns) s)"
| "effect (OpDeleteConfig reg name ns) s = snd (run_state (DeleteConfig reg name ns) s)"
| "effect (OpRecordBlob reg repo d) s = snd (run_state (RecordUploadedBlob reg repo d) s)"
| "effect (OpSweepBlobs ttl) s = snd (run_state (SweepStaleBlobs ttl) s)"
| "effect (OpRecordGrant reg repo sub) s = snd (run_state (RecordPushGrant reg repo sub) s)"
| "effect (OpDeleteGrant reg repo sub) s = snd (run_state (DeletePushGrant reg repo sub) s)"
| "effect (OpSweepGrants ttl) s = snd (run_state (SweepStaleGrants ttl) s)"

text \<open>A step is an operation under any clocks and any fault schedule.\<close>

inductive store_step :: "store_op \<Rightarrow> db \<Rightarrow> db \<Rightarrow> bool" where
  store_step: "store_step op s (effect op (s\<lparr>d_now := now, d_clock := clock, d_faults := fs\<rparr>))"

inductive_cases store_stepE: "store_step op s t"

inductive history :: "store_op list \<Rightarrow> db \<Rightarrow> db \<Rightarrow> bool" where
  history_nil: "history [] s s"
| history_step: "history ops s t \<Longrightarrow> store_step op t u \<Longrightarrow> history (ops @ [op]) s u"

context store_guarantee
begin

lemma g_effect:
  assumes "\<And>r i s. op = OpInsert r i \<Longrightarrow> R s (snd (sql_insert_registry r s))"
  shows "R s (effect op s)"
proof -
  have "guar R m \<Longrightarrow> R s (snd (run_state m s))" for m :: "(db, 'x) state"
    by (cases "run_state m s") (auto dest: guarD)
  note run = this
  show ?thesis
    by (cases op) (auto intro!: run g_Insert g_Update g_MarkDeleting g_Delete g_emitRepoIntent g_InsertConfig
      g_UpdateConfig g_RekeyConfig g_DeleteConfig g_freshness assms
      simp: RegisterRepository_def UnregisterRepository_def)
qed

lemma g_history:
  assumes clock: "\<And>s now clock. R s (s\<lparr>d_now := now, d_clock := clock\<rparr>)"
  shows "history ops s t \<Longrightarrow> (\<And>r i s. OpInsert r i \<in> set ops \<Longrightarrow> R s (snd (sql_insert_registry r s))) \<Longrightarrow> R s t"
proof (induction rule: history.induct)
  case (history_nil s)
  show ?case by (rule refl)
next
  case (history_step ops s t op u)
  from history_step.hyps(2) obtain now clock fs where u: "u = effect op (t\<lparr>d_now := now, d_clock := clock, d_faults := fs\<rparr>)"
    by (auto elim: store_stepE)
  have "R (t\<lparr>d_now := now, d_clock := clock\<rparr>) (t\<lparr>d_now := now, d_clock := clock, d_faults := fs\<rparr>)"
    using faults [of "t\<lparr>d_now := now, d_clock := clock\<rparr>" fs] by simp
  then have "R t (t\<lparr>d_now := now, d_clock := clock, d_faults := fs\<rparr>)"
    by (rule trans [OF clock])
  moreover have "R (t\<lparr>d_now := now, d_clock := clock, d_faults := fs\<rparr>) u"
    unfolding u by (rule g_effect) (use history_step.prems in auto)
  ultimately have "R t u" by (rule trans)
  moreover have "R s t" using history_step.IH history_step.prems by auto
  ultimately show ?case by (rule trans [rotated])
qed

end

section \<open>The schema's invariant\<close>

definition registry_row_ok :: "registry \<Rightarrow> bool" where
  "registry_row_ok r \<longleftrightarrow> r_status r \<in> {RegistryStatusActive, RegistryStatusDeleting} \<and>
     r_default_visibility r \<in> {VisibilityPrivate, VisibilityPublic}"

definition registries_ok :: "registry list \<Rightarrow> bool" where
  "registries_ok rs \<longleftrightarrow> distinct (map r_id rs) \<and> (\<forall>r \<in> set rs. registry_row_ok r) \<and>
     (\<forall>r \<in> set rs. \<not> name_taken rs r)"

definition configs_ok :: "registry list \<Rightarrow> repo_config list \<Rightarrow> bool" where
  "configs_ok rs cs \<longleftrightarrow> distinct (map cfg_key cs) \<and>
     (\<forall>c \<in> set cs. c_registry_id c \<in> r_id ` set rs \<and> c_visibility c \<in> {VisibilityPrivate, VisibilityPublic})"

definition outbox_ok :: "int \<Rightarrow> outbox_row list \<Rightarrow> bool" where
  "outbox_ok seq rows \<longleftrightarrow> sorted_wrt (<) (map ob_id rows) \<and>
     (\<forall>b \<in> set rows. ob_id b < seq \<and> ob_source_version b = ob_id b \<and> i_tuples (ob_intent b) \<noteq> [] \<and>
        ob_event b \<in> {FGAEventRegister, FGAEventUnregister})"

definition db_ok :: "db \<Rightarrow> bool" where
  "db_ok s \<longleftrightarrow> registries_ok (d_registries s) \<and> configs_ok (d_registries s) (d_configs s) \<and>
     outbox_ok (d_seq s) (d_outbox s)"

definition evolves :: "db \<Rightarrow> db \<Rightarrow> bool" where
  "evolves s t \<longleftrightarrow> (db_ok s \<longrightarrow> db_ok t) \<and> d_seq s \<le> d_seq t \<and>
     (\<exists>rows. d_outbox t = d_outbox s @ rows \<and> (\<forall>b \<in> set rows. d_seq s \<le> ob_id b))"

lemma find_key_None: "find (\<lambda>x. k x = i) xs = None \<longleftrightarrow> i \<notin> k ` set xs"
  by (induction xs) auto

lemma find_key_Some: "find (\<lambda>x. k x = i) xs = Some x \<Longrightarrow> x \<in> set xs \<and> k x = i"
  by (induction xs) (auto split: if_splits)

lemma find_registry_None: "find_registry s i = None \<longleftrightarrow> i \<notin> r_id ` set (d_registries s)"
  by (simp add: find_registry_def find_key_None)

lemma find_registry_SomeD: "find_registry s i = Some r \<Longrightarrow> r \<in> set (d_registries s) \<and> r_id r = i"
  unfolding find_registry_def by (rule find_key_Some)

lemma find_config_None: "find_config s reg name = None \<longleftrightarrow> (reg, name) \<notin> cfg_key ` set (d_configs s)"
  by (simp add: find_config_def find_key_None)

lemma find_config_SomeD: "find_config s reg name = Some c \<Longrightarrow> c \<in> set (d_configs s) \<and> cfg_key c = (reg, name)"
  unfolding find_config_def by (rule find_key_Some)

lemma put_registry_ids [simp]: "map r_id (put_registry r rs) = map r_id rs"
  by (simp add: put_registry_def)

lemma set_put_registry: "set (put_registry r rs) = (\<lambda>x. if r_id x = r_id r then r else x) ` set rs"
  by (simp add: put_registry_def)

lemma put_registry_id_set [simp]: "r_id ` set (put_registry r rs) = r_id ` set rs"
  by (metis list.set_map put_registry_ids)

lemma registries_ok_put:
  assumes ok: "registries_ok rs" and r: "registry_row_ok r" and free: "\<not> name_taken rs r"
  shows "registries_ok (put_registry r rs)"
  using ok r free unfolding registries_ok_def set_put_registry put_registry_ids
  by (auto simp: name_taken_def set_put_registry split: if_splits)

lemma registries_ok_append:
  assumes "registries_ok rs" and "r_id r \<notin> r_id ` set rs" and "\<not> name_taken rs r" and "registry_row_ok r"
  shows "registries_ok (rs @ [r])"
  using assms unfolding registries_ok_def by (auto simp: name_taken_def)

lemma registries_ok_filter: "registries_ok rs \<Longrightarrow> registries_ok (filter p rs)"
  unfolding registries_ok_def by (simp add: distinct_map_filter) (auto simp: name_taken_def)

lemma configs_ok_filter: "configs_ok rs cs \<Longrightarrow> configs_ok rs (filter p cs)"
  unfolding configs_ok_def by (simp add: distinct_map_filter)

lemma configs_ok_ids: "r_id ` set rs = r_id ` set rs' \<Longrightarrow> configs_ok rs cs = configs_ok rs' cs"
  by (simp add: configs_ok_def)

lemma visibility_stored: "visibility_from_string (visibility_string v) \<in> {VisibilityPrivate, VisibilityPublic}"
  by (auto simp: visibility_from_string_def)

lemma status_stored: "statusFromString (statusString v) \<in> {RegistryStatusActive, RegistryStatusDeleting}"
  by (auto simp: statusFromString_def)

lemma set_map_config:
  "set (map_config reg name f cs) = (\<lambda>c. if cfg_key c = (reg, name) then f c else c) ` set cs"
  by (simp add: map_config_def)

lemma configs_ok_map:
  assumes "configs_ok rs cs"
    and "\<And>c. cfg_key (f c) = cfg_key c" and "\<And>c. c_visibility c \<in> {VisibilityPrivate, VisibilityPublic} \<Longrightarrow>
      c_visibility (f c) \<in> {VisibilityPrivate, VisibilityPublic}"
  shows "configs_ok rs (map_config reg name f cs)"
proof -
  have "map cfg_key (map_config reg name f cs) = map cfg_key cs"
    using assms(2) by (simp add: map_config_def)
  moreover have "c_registry_id (f c) = c_registry_id c" for c
    using assms(2) [of c] by (simp add: cfg_key_def)
  ultimately show ?thesis using assms(1,3) unfolding configs_ok_def by (auto simp: set_map_config)
qed

lemma configs_ok_rekey:
  assumes ok: "configs_ok rs cs" and free: "old = new \<or> (reg, new) \<notin> cfg_key ` set cs"
  shows "configs_ok rs (map_config reg old (\<lambda>c. c\<lparr>c_name := new\<rparr>) cs)"
proof -
  let ?f = "\<lambda>k. if k = (reg, old) then (reg, new) else k"
  have m: "map cfg_key (map_config reg old (\<lambda>c. c\<lparr>c_name := new\<rparr>) cs) = map ?f (map cfg_key cs)"
    by (auto simp: map_config_def cfg_key_def)
  have inj: "inj_on ?f K" if "old = new \<or> (reg, new) \<notin> K" for K
    using that by (auto simp: inj_on_def)
  have i: "inj_on ?f (set (map cfg_key cs))" unfolding set_map by (rule inj [OF free])
  have d: "distinct (map cfg_key cs)" using ok by (simp add: configs_ok_def)
  have "distinct (map ?f (map cfg_key cs))"
    unfolding distinct_map [of ?f] by (intro conjI d i)
  with ok show ?thesis unfolding configs_ok_def m by (auto simp: set_map_config)
qed

lemma set_config_columns_key [simp]: "cfg_key (set_config_columns u c) = cfg_key c"
  by (simp add: set_config_columns_def cfg_key_def Let_def)

lemma evolvesI:
  "(db_ok s \<Longrightarrow> db_ok t) \<Longrightarrow> d_seq t = d_seq s \<Longrightarrow> d_outbox t = d_outbox s \<Longrightarrow> evolves s t"
  by (simp add: evolves_def)

lemma set_registry_columns_simps [simp]:
  "r_id (set_registry_columns u r) = r_id r" "r_status (set_registry_columns u r) = r_status r"
  "r_project_id (set_registry_columns u r) = r_project_id r"
  by (simp_all add: set_registry_columns_def Let_def)

lemma set_registry_columns_ok: "registry_row_ok r \<Longrightarrow> registry_row_ok (set_registry_columns u r)"
  using visibility_stored [of "us_DefaultVisibility u"]
  by (simp add: registry_row_ok_def set_registry_columns_def Let_def)

lemma evolves_insert: "evolves s (snd (sql_insert_registry r s))"
  unfolding sql_insert_registry_def Let_def
  using status_stored [of "r_status r"]
  by (auto simp: find_registry_None db_ok_def configs_ok_def registry_row_ok_def intro!: evolvesI registries_ok_append)

lemma evolves_update: "evolves s (snd (sql_update_registry u s))"
proof (cases "find_registry s (us_RegistryID u)")
  case None
  then show ?thesis by (simp add: sql_update_registry_def evolves_def)
next
  case (Some r)
  note r = find_registry_SomeD [OF Some]
  show ?thesis
  proof (rule evolvesI)
    assume ok: "db_ok s"
    with r have v: "registry_row_ok r" by (auto simp: db_ok_def registries_ok_def)
    show "db_ok (snd (sql_update_registry u s))"
      using ok r Some registries_ok_put [of "d_registries s" "set_registry_columns u r"]
        set_registry_columns_ok [OF v, of u]
      by (simp add: sql_update_registry_def db_ok_def Let_def configs_ok_def)
  qed (auto simp: sql_update_registry_def Let_def split: option.splits)
qed

lemma evolves_mark: "evolves s (snd (sql_mark_deleting i s))"
proof (cases "find_registry s i")
  case None
  then show ?thesis by (simp add: sql_mark_deleting_def evolves_def)
next
  case (Some r)
  note r = find_registry_SomeD [OF Some]
  let ?row = "r\<lparr>r_status := RegistryStatusDeleting\<rparr>"
  show ?thesis
  proof (rule evolvesI)
    assume ok: "db_ok s"
    with r have v: "registry_row_ok ?row" by (auto simp: db_ok_def registries_ok_def registry_row_ok_def)
    have "\<not> name_taken (d_registries s) ?row" by (simp add: name_taken_def live_def)
    with ok r Some v registries_ok_put [of "d_registries s" ?row]
    show "db_ok (snd (sql_mark_deleting i s))"
      by (simp add: sql_mark_deleting_def db_ok_def Let_def configs_ok_def)
  qed (auto simp: sql_mark_deleting_def Let_def split: option.splits)
qed

lemma evolves_delete: "evolves s (snd (sql_delete_registry i s))"
proof (rule evolvesI)
  assume ok: "db_ok s"
  have "configs_ok (filter (\<lambda>x. r_id x \<noteq> i) (d_registries s)) (filter (\<lambda>c. c_registry_id c \<noteq> i) (d_configs s))"
    using ok configs_ok_filter [of "d_registries s" "d_configs s"]
    by (fastforce simp: db_ok_def configs_ok_def)
  with ok registries_ok_filter show "db_ok (snd (sql_delete_registry i s))"
    by (auto simp: sql_delete_registry_def db_ok_def split: option.splits)
qed (auto simp: sql_delete_registry_def split: option.splits)

lemma evolves_outbox: "i_tuples intent \<noteq> [] \<Longrightarrow> evolves s (snd (sql_insert_outbox ev intent s))"
  unfolding sql_insert_outbox_def evolves_def db_ok_def outbox_ok_def
  by (auto simp: sorted_wrt_append fga_events)

lemma evolves_insert_config: "evolves s (snd (sql_insert_config c s))"
  unfolding sql_insert_config_def Let_def
  using visibility_stored [of "c_visibility c"]
  by (auto simp: find_config_None find_registry_None db_ok_def configs_ok_def cfg_key_def intro!: evolvesI)

lemma evolves_update_config: "evolves s (snd (sql_update_config u s))"
proof -
  have v: "c_visibility c \<in> {VisibilityPrivate, VisibilityPublic} \<Longrightarrow>
      c_visibility (set_config_columns u c) \<in> {VisibilityPrivate, VisibilityPublic}" for c
    using visibility_stored [of "cu_Visibility u"] by (simp add: set_config_columns_def Let_def)
  have "configs_ok rs cs \<Longrightarrow> configs_ok rs (map_config reg name (set_config_columns u) cs)" for rs cs reg name
    by (rule configs_ok_map) (assumption, simp, rule v)
  then show ?thesis
    by (auto simp: sql_update_config_def db_ok_def split: option.splits intro!: evolvesI)
qed

lemma evolves_rekey: "evolves s (snd (sql_rekey_config reg old new s))"
  by (auto simp: sql_rekey_config_def db_ok_def find_config_None split: option.splits
      intro!: evolvesI configs_ok_rekey)

lemma evolves_delete_config: "evolves s (snd (sql_delete_config reg name s))"
  by (auto simp: sql_delete_config_def db_ok_def split: option.splits intro!: evolvesI configs_ok_filter)

lemma outbox_ok_mono: "outbox_ok n rows \<Longrightarrow> n \<le> m \<Longrightarrow> outbox_ok m rows"
  by (fastforce simp: outbox_ok_def)

interpretation evolution: store_guarantee evolves
proof unfold_locales
  show "evolves s t \<Longrightarrow> evolves s (rollback s t)" for s t
    by (auto simp: evolves_def rollback_def db_ok_def intro: outbox_ok_mono)
  show "evolves s t \<Longrightarrow> evolves t u \<Longrightarrow> evolves s u" for s t u
    by (fastforce simp: evolves_def)
qed (auto simp: evolves_update evolves_mark evolves_delete evolves_outbox evolves_insert_config
    evolves_update_config evolves_rekey evolves_delete_config, auto simp: evolves_def db_ok_def)

section \<open>The life of a registry\<close>

text \<open>The registry with this id is being deleted or is not there.\<close>

definition not_active :: "string \<Rightarrow> db \<Rightarrow> bool" where
  "not_active i s \<longleftrightarrow> (\<forall>r \<in> set (d_registries s). r_id r = i \<longrightarrow> r_status r = RegistryStatusDeleting)"

interpretation lifecycle: store_guarantee "\<lambda>s t. not_active i s \<longrightarrow> not_active i t" for i
  by unfold_locales (auto simp: not_active_def rollback_def sql_update_registry_def sql_mark_deleting_def
      sql_delete_registry_def sql_insert_outbox_def sql_insert_config_def sql_update_config_def sql_rekey_config_def
      sql_delete_config_def Let_def set_put_registry enum_defs dest!: find_registry_SomeD split: option.splits)

section \<open>Shapes of successful runs\<close>

text \<open>Everything but the sequence and the fault schedule.\<close>

definition tables :: "db \<Rightarrow> db" where
  "tables s = s\<lparr>d_seq := 0, d_faults := []\<rparr>"

lemma tables_eqD: "tables s = tables t \<Longrightarrow> d_registries s = d_registries t \<and> d_configs s = d_configs t \<and>
    d_outbox s = d_outbox t \<and> d_now s = d_now t \<and> d_clock s = d_clock t \<and> d_pool s = d_pool t"
  by (cases s; cases t) (simp add: tables_def)

lemma tables_faults [simp]: "tables (s\<lparr>d_faults := fs\<rparr>) = tables s"
  by (simp add: tables_def)

lemma tables_rollback [simp]: "tables (rollback snap s) = tables snap"
  by (simp add: tables_def rollback_def)

lemma tables_cong:
  "tables s = tables t \<Longrightarrow> find_registry s i = find_registry t i"
  "tables s = tables t \<Longrightarrow> find_config s reg n = find_config t reg n"
  by (auto simp: find_registry_def find_config_def dest: tables_eqD)

lemma trip_Inr:
  assumes "run_state (trip act) s = (Inr a, t)"
  shows "\<exists>fs. act (s\<lparr>d_faults := fs\<rparr>) = (Inr a, t)"
proof (cases "d_faults s")
  case Nil
  then have e: "s\<lparr>d_faults := []\<rparr> = s" by simp
  have "act s = (Inr a, t)" using assms Nil by (simp add: trip_def)
  then have "act (s\<lparr>d_faults := []\<rparr>) = (Inr a, t)" unfolding e .
  then show ?thesis ..
next
  case (Cons f fs)
  with assms show ?thesis by (cases f) (auto simp: trip_def)
qed

lemma trip_no_op: "run_state (trip no_op) s = (r, t) \<Longrightarrow> tables t = tables s"
  by (auto simp: trip_def no_op_def split: list.splits fault.splits)

lemma wrapped_Inr: "run_state (wrapped f m) s = (Inr a, t) \<Longrightarrow> run_state m s = (Inr a, t)"
  by (auto simp: wrapped_def run map_err_def split: prod.splits sum.splits)

lemma andThen_Inr:
  "run_state (andThen m f) s = (Inr b, t) \<Longrightarrow> \<exists>a u. run_state m s = (Inr a, u) \<and> run_state (f a) u = (Inr b, t)"
  by (auto simp: run split: prod.splits sum.splits)

text \<open>A transaction leaves the tables as they were and reports an error, or its whole body took
  effect - and then it reports an error only when the acknowledgement of the commit was lost.\<close>

lemma in_tx_cases:
  assumes "run_state (in_tx f body) s = (res, t)"
  shows "(\<exists>e. res = Inl e) \<and> tables t = tables s \<or>
    (\<exists>a s1 s2. tables s1 = tables s \<and> run_state body s1 = (Inr a, s2) \<and> tables t = tables s2 \<and>
      (res = Inr a \<or> (\<exists>e. res = Inl e)))"
proof -
  obtain b s1 where b: "run_state (trip no_op) s = (b, s1)" by force
  have s1: "tables s1 = tables s" by (rule trip_no_op [OF b])
  obtain r s2 where m: "run_state body s1 = (r, s2)" by force
  show ?thesis
  proof (cases b)
    case (Inl e)
    with assms b s1 show ?thesis by (auto simp: in_tx_def)
  next
    case (Inr u)
    show ?thesis
    proof (cases r)
      case (Inl e)
      with assms b m Inr s1 show ?thesis by (auto simp: in_tx_def)
    next
      case r: (Inr a)
      with assms b m Inr have "res = Inr a \<and> tables t = tables s2 \<or> (\<exists>e. res = Inl e) \<and> tables t = tables s1 \<or>
          (\<exists>e. res = Inl e) \<and> tables t = tables s2"
        by (auto simp: in_tx_def split: list.splits fault.splits)
      with s1 m r show ?thesis by metis
    qed
  qed
qed

lemma tx_cases [consumes 1, case_names unchanged applied]:
  assumes "run_state (ready (in_tx f body)) s = (res, t)"
    and "\<And>e. res = Inl e \<Longrightarrow> tables t = tables s \<Longrightarrow> P"
    and "\<And>a s1 s2. tables s1 = tables s \<Longrightarrow> run_state body s1 = (Inr a, s2) \<Longrightarrow> tables t = tables s2 \<Longrightarrow>
      (res = Inr a \<or> (\<exists>e. res = Inl e)) \<Longrightarrow> P"
  shows P
proof (cases "d_pool s")
  case True
  then have "run_state (in_tx f body) s = (res, t)" using assms(1) by (simp add: ready_def run)
  from in_tx_cases [OF this] assms(2,3) show P by blast
next
  case False
  then have "res = Inl (bare ErrUnavailable)" "t = s" using assms(1) by (auto simp: ready_def run)
  with assms(2) show P by blast
qed

lemma ready_cases:
  "run_state (ready m) s = (res, t) \<Longrightarrow> (\<exists>e. res = Inl e) \<and> t = s \<or> run_state m s = (res, t)"
  by (auto simp: ready_def run split: if_splits)

definition outbox_entry :: "int \<Rightarrow> string \<Rightarrow> register_intent \<Rightarrow> outbox_row" where
  "outbox_entry n ev intent = \<lparr>ob_id = n, ob_event = ev, ob_intent = intent, ob_source_version = n\<rparr>"

lemma emitFGAIntent_Inr:
  assumes "run_state (emitFGAIntent ev intent) s = (Inr u, t)"
  shows "d_registries t = d_registries s \<and> d_configs t = d_configs s \<and>
    d_outbox t = d_outbox s @ (if i_tuples intent = [] then [] else [outbox_entry (d_seq s) ev intent])"
  using assms by (cases "i_tuples intent = []")
    (auto simp: emitFGAIntent_def run sql_insert_outbox_def outbox_entry_def dest!: wrapped_Inr trip_Inr split: if_splits)

section \<open>Properties\<close>

text \<open>
  C8. The invariant of the schema holds over every history: starting from a database that satisfies
  it, any sequence of repository operations, with failures injected before or after any exchange
  with the server, keeps registry ids and live names unique, overlays unique and attached to
  existing registries, and the outbox an append-only log whose source versions are its own
  increasing ids.
\<close>

theorem schema_invariant:
  assumes "db_ok s" and "history ops s t"
  shows "db_ok t \<and> d_seq s \<le> d_seq t \<and> (\<exists>rows. d_outbox t = d_outbox s @ rows)"
proof -
  have "evolves s t"
    by (rule evolution.g_history [OF _ assms(2)]) (simp_all add: evolves_insert, simp add: evolves_def db_ok_def)
  with assms(1) show ?thesis by (auto simp: evolves_def)
qed

text \<open>
  C12. Deleting is forward only: once a registry is marked DELETING, or its row is gone, no sequence of
  operations makes it active again, short of inserting a row with its id.
\<close>

theorem deleting_is_forward_only:
  assumes "not_active i s" and "history ops s t" and "\<forall>r n. OpInsert r n \<in> set ops \<longrightarrow> r_id r \<noteq> i"
  shows "not_active i t"
proof -
  have "not_active i s \<longrightarrow> not_active i t"
  proof (rule lifecycle.g_history [OF _ assms(2)])
    fix r n u
    assume "OpInsert r n \<in> set ops"
    with assms(3) have "r_id r \<noteq> i" by blast
    then show "not_active i u \<longrightarrow> not_active i (snd (sql_insert_registry r u))"
      by (auto simp: not_active_def sql_insert_registry_def Let_def)
  qed (simp add: not_active_def)
  with assms(1) show ?thesis by blast
qed

definition demo_registry :: "string \<Rightarrow> registry" where
  "demo_registry i = \<lparr>r_id = i, r_project_id = ''prj1'', r_name = ''app'', r_description = [], r_labels = [],
     r_status = RegistryStatusActive, r_created_at = 5, r_default_visibility = VisibilityPrivate\<rparr>"

definition empty_db :: db where
  "empty_db = \<lparr>d_registries = [], d_configs = [], d_outbox = [], d_seq = 1, d_pending_blobs = [],
     d_push_grants = [], d_now = 5, d_clock = 5, d_faults = [], d_pool = True\<rparr>"

definition demo_ops :: "store_op list" where
  "demo_ops = [OpInsert (demo_registry ''reg1'') (RegisterIntentForCreate (demo_registry ''reg1'') ''user'' ''usr1''),
     OpMarkDeleting ''reg1'']"

fun replay :: "store_op list \<Rightarrow> db \<Rightarrow> db" where
  "replay [] s = s"
| "replay (op # ops) s = replay ops (effect op (s\<lparr>d_now := 5, d_clock := 5, d_faults := []\<rparr>))"

lemma history_append: "history ops s t \<Longrightarrow> history (ops @ ops') s (replay ops' t)"
proof (induction ops' arbitrary: ops t)
  case (Cons op ops')
  from history_step [OF Cons.prems store_step [where op = op and s = t and now = 5 and clock = 5 and fs = "[]"]] Cons.IH show ?case by fastforce
qed simp

lemma history_replay: "history ops s (replay ops s)"
  using history_append [OF history_nil, where ops' = ops and s = s] by simp

lemma empty_db_ok: "db_ok empty_db"
  by (simp add: db_ok_def empty_db_def registries_ok_def configs_ok_def outbox_ok_def)

lemma schema_invariant_witness:
  "length (d_registries (replay demo_ops empty_db)) = 1 \<and> db_ok (replay demo_ops empty_db)"
proof
  show "length (d_registries (replay demo_ops empty_db)) = 1" by code_simp
  show "db_ok (replay demo_ops empty_db)"
    using schema_invariant [OF empty_db_ok history_replay] by blast
qed

lemma deleting_is_forward_only_witness:
  "not_active ''reg1'' (replay [OpUpdate \<lparr>us_RegistryID = ''reg1'', us_Name = ''b'', us_Description = [], us_Labels = [],
     us_Mask = [], us_ApplyName = True, us_ApplyDescription = True, us_ApplyLabels = True, us_DefaultVisibility = 0,
     us_ApplyDefaultVisibility = False\<rparr> RegisterIntentForUpdate] (replay demo_ops empty_db))"
proof (rule deleting_is_forward_only [OF _ history_replay])
  have "list_all (\<lambda>r. r_status r = RegistryStatusDeleting) (d_registries (replay demo_ops empty_db))" by code_simp
  then show "not_active ''reg1'' (replay demo_ops empty_db)" by (auto simp: not_active_def list_all_iff)
qed simp

text \<open>The row an insert stores: the given registry, created now and private; every status other than
  DELETING is stored as ACTIVE.\<close>

definition stored_row :: "db \<Rightarrow> registry \<Rightarrow> registry" where
  "stored_row s r = r\<lparr>r_status := (if r_status r = RegistryStatusDeleting then RegistryStatusDeleting else RegistryStatusActive),
     r_created_at := d_now s, r_default_visibility := VisibilityPrivate\<rparr>"

text \<open>
  C10. Creating a registry is atomic with its authorization intent, under any failure: either the
  tables are unchanged and an error is returned, or two rows were added together - to the
  registries exactly the given registry (every column as given, ACTIVE if it was given ACTIVE,
  created at the time of the database and private), whose id and name were free, and to the outbox
  exactly one register intent, under a number and source version that are later than those of
  every row before it. An error then means only that the acknowledgement of the commit was lost.
  The tables are assumed to satisfy the schema, and the intent to have a tuple.
\<close>

theorem insert_is_atomic:
  assumes "i_tuples intent \<noteq> []" and "db_ok s" and "run_state (repo_Insert r intent) s = (res, t)"
  shows "(\<exists>e. res = Inl e) \<and> d_registries t = d_registries s \<and> d_outbox t = d_outbox s \<or>
    (\<exists>n. find_registry s (r_id r) = None \<and> \<not> name_taken (d_registries s) (stored_row s r) \<and>
      d_registries t = d_registries s @ [stored_row s r] \<and>
      d_outbox t = d_outbox s @ [\<lparr>ob_id = n, ob_event = FGAEventRegister, ob_intent = intent, ob_source_version = n\<rparr>] \<and>
      (\<forall>b \<in> set (d_outbox s). ob_id b < n \<and> ob_source_version b < n) \<and>
      (res = Inr (stored_row s r) \<or> (\<exists>e. res = Inl e)))"
  using assms(3) [unfolded repo_Insert_def]
proof (cases rule: tx_cases)
  case unchanged
  then show ?thesis by (auto dest: tables_eqD)
next
  case (applied a s1 s2)
  from applied(2) obtain row u fs where ins: "sql_insert_registry r (s1\<lparr>d_faults := fs\<rparr>) = (Inr row, u)"
    and em: "run_state (andThen (emitFGAIntent FGAEventRegister intent) (\<lambda>_. State_Monad.return (Inr row))) u = (Inr a, s2)"
    by (blast dest: andThen_Inr wrapped_Inr trip_Inr)
  from andThen_Inr [OF em] have a: "a = row" and em': "run_state (emitFGAIntent FGAEventRegister intent) u = (Inr (), s2)"
    by (auto simp: run_return)
  note eq = tables_eqD [OF applied(1)] tables_eqD [OF applied(3)]
  have row: "row = stored_row s r" "find_registry s (r_id r) = None" "\<not> name_taken (d_registries s) row"
    "d_registries u = d_registries s @ [row]" "d_outbox u = d_outbox s"
    using ins eq by (auto simp: sql_insert_registry_def stored_row_def statusFromString_def statusString_def
        Let_def find_registry_def split: if_splits)
  have out: "d_outbox t = d_outbox s @ [outbox_entry (d_seq u) FGAEventRegister intent]" "d_registries t = d_registries s @ [row]"
    using emitFGAIntent_Inr [OF em'] assms(1) eq row(4,5) by simp_all
  have "history [OpInsert r intent] s t"
    using history_step [OF history_nil store_step [where now = "d_now s" and clock = "d_clock s" and fs = "d_faults s"],
        of "OpInsert r intent" s] assms(3) by simp
  then have "evolves s t"
    by (rule evolution.g_history [rotated]) (simp_all add: evolves_insert, simp add: evolves_def db_ok_def)
  then have "d_seq s \<le> d_seq u" using out(1) by (auto simp: evolves_def outbox_entry_def)
  with assms(2) have "\<forall>b \<in> set (d_outbox s). ob_id b < d_seq u \<and> ob_source_version b < d_seq u"
    by (fastforce simp: db_ok_def outbox_ok_def)
  with row(1-3) out applied(4) a show ?thesis by (intro disjI2 exI [of _ "d_seq u"]) (auto simp: outbox_entry_def)
qed

lemma insert_is_atomic_witness:
  "d_registries (effect (OpInsert (demo_registry ''reg1'') (RegisterIntentForUpdate (demo_registry ''reg1''))) 
     (empty_db\<lparr>d_faults := [NoFault, NoFault, FailBefore (Broken ''down'')]\<rparr>)) = []"
proof -
  let ?s = "empty_db\<lparr>d_faults := [NoFault, NoFault, FailBefore (Broken ''down'')]\<rparr>"
  let ?m = "repo_Insert (demo_registry ''reg1'') (RegisterIntentForUpdate (demo_registry ''reg1''))"
  have o: "d_outbox (snd (run_state ?m ?s)) = []" by code_simp
  have "run_state ?m ?s = (fst (run_state ?m ?s), snd (run_state ?m ?s))" by simp
  from insert_is_atomic [OF _ _ this] o show ?thesis using empty_db_ok by (auto simp: empty_db_def db_ok_def)
qed

lemma repo_Delete_outcome:
  assumes "i_tuples intent \<noteq> []" and "db_ok s" and "run_state (repo_Delete i intent) s = (res, t)"
  shows "(find_registry t i = find_registry s i \<and> d_registries t = d_registries s \<and> d_configs t = d_configs s \<and>
      d_outbox t = d_outbox s \<and> (\<exists>e. res = Inl e)) \<or>
    (find_registry s i \<noteq> None \<and> find_registry t i = None \<and>
      (\<forall>c \<in> set (d_configs t). c_registry_id c \<noteq> i) \<and>
      d_registries t = filter (\<lambda>r. r_id r \<noteq> i) (d_registries s) \<and>
      d_configs t = filter (\<lambda>c. c_registry_id c \<noteq> i) (d_configs s) \<and>
      (\<exists>n. d_outbox t = d_outbox s @ [outbox_entry n FGAEventUnregister intent]) \<and>
      (res = Inr () \<or> (\<exists>e. res = Inl e)))"
  using assms(3) [unfolded repo_Delete_def]
proof (cases rule: tx_cases)
  case unchanged
  then show ?thesis using tables_cong(1) [OF unchanged(2), of i] tables_eqD [OF unchanged(2)] by simp
next
  case (applied a s1 s2)
  from applied(2) obtain u fs where del: "sql_delete_registry i (s1\<lparr>d_faults := fs\<rparr>) = (Inr (), u)"
    and em: "run_state (emitFGAIntent FGAEventUnregister intent) u = (Inr (), s2)"
    by (auto dest!: andThen_Inr wrapped_Inr trip_Inr)
  have some: "find_registry s1 i \<noteq> None"
    using del by (auto simp: sql_delete_registry_def find_registry_def split: option.splits)
  have u: "d_registries u = filter (\<lambda>x. r_id x \<noteq> i) (d_registries s1)"
    "d_configs u = filter (\<lambda>c. c_registry_id c \<noteq> i) (d_configs s1)" "d_outbox u = d_outbox s1"
    using del by (auto simp: sql_delete_registry_def split: option.splits)
  note em = emitFGAIntent_Inr [OF em]
  have t: "d_registries t = d_registries u" "d_configs t = d_configs u"
    "d_outbox t = d_outbox s @ [outbox_entry (d_seq u) FGAEventUnregister intent]"
    using em u(3) assms(1) tables_eqD [OF applied(1)] tables_eqD [OF applied(3)] by simp_all
  have "find_registry t i = None" unfolding find_registry_None t(1) u(1) by auto
  moreover have "\<forall>c \<in> set (d_configs t). c_registry_id c \<noteq> i" unfolding t(2) u(2) by simp
  moreover have "find_registry s i \<noteq> None" using some tables_cong(1) [OF applied(1)] by simp
  ultimately show ?thesis using applied(4) t u tables_eqD [OF applied(1)] by auto
qed

text \<open>
  C11. Deleting a registry emits its unregister intent exactly once: under any failure the outbox
  gains the intent if and only if this very transaction removed the row, and a repeated or
  concurrent delete that finds no row adds nothing.
\<close>

theorem delete_unregisters_exactly_once:
  assumes "i_tuples intent \<noteq> []" and "db_ok s" and "run_state (repo_Delete i intent) s = (res, t)"
  shows "(find_registry t i = find_registry s i \<and> d_registries t = d_registries s \<and> d_configs t = d_configs s \<and>
      d_outbox t = d_outbox s \<and> (\<exists>e. res = Inl e)) \<or>
    (find_registry s i \<noteq> None \<and> find_registry t i = None \<and>
      (\<forall>c \<in> set (d_configs t). c_registry_id c \<noteq> i) \<and>
      (\<exists>n. d_outbox t = d_outbox s @ [outbox_entry n FGAEventUnregister intent]) \<and>
      (res = Inr () \<or> (\<exists>e. res = Inl e)))"
  using repo_Delete_outcome [OF assms] by blast

lemma delete_unregisters_exactly_once_witness:
  "length (filter (\<lambda>b. ob_event b = FGAEventUnregister) (d_outbox (effect (OpDelete ''reg1'' (UnregisterIntentForDelete ''reg1'' ''prj1''))
     (replay demo_ops empty_db)))) = 1"
proof -
  let ?s = "replay demo_ops empty_db"
  let ?m = "repo_Delete ''reg1'' (UnregisterIntentForDelete ''reg1'' ''prj1'')"
  have ok: "db_ok ?s" using schema_invariant [OF empty_db_ok history_replay] by blast
  have run: "run_state ?m ?s = (fst (run_state ?m ?s), snd (run_state ?m ?s))" by simp
  have gone: "fst (run_state ?m ?s) = Inr ()" by code_simp
  have before: "filter (\<lambda>b. ob_event b = FGAEventUnregister) (d_outbox ?s) = []" by code_simp
  from delete_unregisters_exactly_once [OF _ ok run] gone before show ?thesis
    by (auto simp: outbox_entry_def)
qed

lemma emit_all_Inr:
  "run_state (emit_all intents) s = (Inr u, t) \<Longrightarrow>
   d_registries t = d_registries s \<and> d_configs t = d_configs s \<and>
   (\<exists>rows. d_outbox t = d_outbox s @ rows \<and>
     map (\<lambda>b. (ob_event b, ob_intent b)) rows = filter (\<lambda>(ev, i). i_tuples i \<noteq> []) intents)"
proof (induction intents arbitrary: s rule: emit_all.induct)
  case 1
  then show ?case by (auto simp: run)
next
  case (2 ev intent rest)
  from andThen_Inr [OF 2(2) [simplified]] obtain v w
    where em: "run_state (emitFGAIntent ev intent) s = (Inr v, w)" and rest: "run_state (emit_all rest) w = (Inr u, t)"
    by auto
  from 2(1) [OF rest] obtain rows where r: "d_registries t = d_registries w" "d_configs t = d_configs w"
      "d_outbox t = d_outbox w @ rows"
      "map (\<lambda>b. (ob_event b, ob_intent b)) rows = filter (\<lambda>(ev, i). i_tuples i \<noteq> []) rest" by blast
  let ?new = "if i_tuples intent = [] then [] else [outbox_entry (d_seq s) ev intent]"
  from r emitFGAIntent_Inr [OF em] show ?case
    by (intro conjI exI [of _ "?new @ rows"]) (auto simp: outbox_entry_def)
qed

lemma guardRegistryActive_Inr:
  assumes "run_state (guardRegistryActive reg) s = (Inr u, t)"
  shows "tables t = tables s \<and> (\<exists>r. find_registry s reg = Some r \<and> r_status r \<noteq> RegistryStatusDeleting)"
proof -
  obtain v where v: "run_state (trip (sql_select_registry reg)) s = (v, t)"
    and r: "\<exists>r. v = Inr r \<and> statusString (r_status r) \<noteq> ''DELETING''"
    using assms by (auto simp: guardRegistryActive_def run split: prod.splits sum.splits pg_error.splits if_splits)
  from r obtain r where r: "v = Inr r" "statusString (r_status r) \<noteq> ''DELETING''" by blast
  from trip_Inr [OF v [unfolded r(1)]] obtain fs where "sql_select_registry reg (s\<lparr>d_faults := fs\<rparr>) = (Inr r, t)" by blast
  with r(2) show ?thesis
    by (auto simp: sql_select_registry_def find_registry_def statusString_def split: option.splits)
qed

text \<open>An overlay transaction: nothing happened, or the registry was active, the statement ran on the
  tables as they were, and the intents were appended.\<close>

lemma config_tx_cases [consumes 1, case_names unchanged applied]:
  assumes "run_state (ready (runConfigTx reg intents (trip dml))) s = (res, t)"
    and "\<And>e. res = Inl e \<Longrightarrow> tables t = tables s \<Longrightarrow> P"
    and "\<And>u out v r rows. tables u = tables s \<Longrightarrow> find_registry s reg = Some r \<Longrightarrow>
      r_status r \<noteq> RegistryStatusDeleting \<Longrightarrow> dml u = (Inr out, v) \<Longrightarrow>
      d_registries t = d_registries v \<Longrightarrow> d_configs t = d_configs v \<Longrightarrow> d_outbox t = d_outbox v @ rows \<Longrightarrow>
      map (\<lambda>b. (ob_event b, ob_intent b)) rows = filter (\<lambda>(ev, i). i_tuples i \<noteq> []) intents \<Longrightarrow>
      (res = Inr out \<or> (\<exists>e. res = Inl e)) \<Longrightarrow> P"
  shows P
  using assms(1) [unfolded runConfigTx_def]
proof (cases rule: tx_cases)
  case unchanged
  then show ?thesis by (rule assms(2))
next
  case (applied a s1 s2)
  from andThen_Inr [OF applied(2)] obtain x u1 where g: "run_state (guardRegistryActive reg) s1 = (Inr x, u1)"
    and r1: "run_state (andThen (wrapped mapConfigErr (trip dml)) (\<lambda>out. andThen (emit_all intents)
      (\<lambda>_. State_Monad.return (Inr out)))) u1 = (Inr a, s2)" by blast
  from andThen_Inr [OF r1] obtain out u2 where w: "run_state (wrapped mapConfigErr (trip dml)) u1 = (Inr out, u2)"
    and r2: "run_state (andThen (emit_all intents) (\<lambda>_. State_Monad.return (Inr out))) u2 = (Inr a, s2)" by blast
  from andThen_Inr [OF r2] obtain y where e: "run_state (emit_all intents) u2 = (Inr y, s2)" and a: "a = out"
    by (auto simp: run_return)
  from trip_Inr [OF wrapped_Inr [OF w]] obtain fs where d: "dml (u1\<lparr>d_faults := fs\<rparr>) = (Inr out, u2)" by blast
  from guardRegistryActive_Inr [OF g] tables_cong(1) [OF applied(1), of reg] obtain r where
    r: "tables u1 = tables s1" "find_registry s reg = Some r" "r_status r \<noteq> RegistryStatusDeleting" by auto
  from emit_all_Inr [OF e] tables_eqD [OF applied(3)] obtain rows where
    "d_registries t = d_registries u2" "d_configs t = d_configs u2" "d_outbox t = d_outbox u2 @ rows"
    "map (\<lambda>b. (ob_event b, ob_intent b)) rows = filter (\<lambda>(ev, i). i_tuples i \<noteq> []) intents" by auto
  moreover have "tables (u1\<lparr>d_faults := fs\<rparr>) = tables s" using r(1) applied(1) by simp
  ultimately show ?thesis using assms(3) [OF _ r(2,3) d] applied(4) a by blast
qed

text \<open>A store that answers: there is a pool, and no exchange fails.\<close>

definition answering :: "db \<Rightarrow> bool" where
  "answering s \<longleftrightarrow> d_pool s \<and> d_faults s = []"

lemma runConfigTx_guarded:
  assumes dml: "\<And>u. d_registries (snd (dml u)) = d_registries u \<and> d_outbox (snd (dml u)) = d_outbox u"
    and cong: "\<And>u. tables u = tables s \<Longrightarrow> d_configs (snd (dml u)) = d_configs (snd (dml s)) \<and> fst (dml u) = fst (dml s)"
    and run: "run_state (ready (runConfigTx reg intents (trip dml))) s = (res, t)"
  shows "(\<exists>e. res = Inl e) \<and> tables t = tables s \<or>
    (\<exists>r rows. find_registry s reg = Some r \<and> r_status r \<noteq> RegistryStatusDeleting \<and>
      (\<exists>out. fst (dml s) = Inr out) \<and> d_configs t = d_configs (snd (dml s)) \<and>
      d_registries t = d_registries s \<and> d_outbox t = d_outbox s @ rows \<and>
      map (\<lambda>b. (ob_event b, ob_intent b)) rows = filter (\<lambda>(ev, i). i_tuples i \<noteq> []) intents)"
  using run
proof (cases rule: config_tx_cases)
  case (applied u out v r rows)
  then have "fst (dml s) = Inr out" "d_configs v = d_configs (snd (dml s))" "d_registries v = d_registries s"
    "d_outbox v = d_outbox s"
    using dml [of u] cong [OF applied(1)] tables_eqD [OF applied(1)] by simp_all
  with applied show ?thesis by auto
qed simp

lemma guard_refuses:
  assumes "answering s" and "\<And>r. find_registry s reg = Some r \<Longrightarrow> r_status r = RegistryStatusDeleting"
  shows "\<exists>m. fst (run_state (ready (runConfigTx reg intents dml)) s) = Inl (wrapE ErrFailedPrecondition m)"
proof (cases "find_registry s reg")
  case None
  with assms(1) show ?thesis
    by (auto simp: answering_def ready_def runConfigTx_def in_tx_def guardRegistryActive_def trip_def no_op_def
        sql_select_registry_def run)
next
  case (Some r)
  with assms show ?thesis
    by (auto simp: answering_def ready_def runConfigTx_def in_tx_def guardRegistryActive_def trip_def no_op_def
        sql_select_registry_def statusString_def run)
qed

text \<open>The registry and the intents of an overlay operation.\<close>

fun overlay_target :: "store_op \<Rightarrow> (string \<times> outbox_intent list) option" where
  "overlay_target (OpInsertConfig c ns) = Some (c_registry_id c, ns)"
| "overlay_target (OpUpdateConfig u ns) = Some (cu_RegistryID u, ns)"
| "overlay_target (OpRekeyConfig reg old new ns) = Some (reg, ns)"
| "overlay_target (OpDeleteConfig reg name ns) = Some (reg, ns)"
| "overlay_target _ = None"

lemma sql_config_frame:
  "d_registries (snd (sql_insert_config c u)) = d_registries u \<and> d_outbox (snd (sql_insert_config c u)) = d_outbox u"
  "d_registries (snd (sql_update_config cu u)) = d_registries u \<and> d_outbox (snd (sql_update_config cu u)) = d_outbox u"
  "d_registries (snd (sql_rekey_config reg old new u)) = d_registries u \<and> d_outbox (snd (sql_rekey_config reg old new u)) = d_outbox u"
  "d_registries (snd (sql_delete_config reg name u)) = d_registries u \<and> d_outbox (snd (sql_delete_config reg name u)) = d_outbox u"
  by (auto simp: sql_insert_config_def sql_update_config_def sql_rekey_config_def sql_delete_config_def Let_def
      split: option.splits)

text \<open>The statement of an overlay operation: the overlays it leaves, or nothing if it is refused.\<close>

definition table_after :: "(pg_error + 'a) \<times> db \<Rightarrow> repo_config list option" where
  "table_after r = (case r of (Inl e, t) \<Rightarrow> None | (Inr a, t) \<Rightarrow> Some (d_configs t))"

fun overlay_table :: "store_op \<Rightarrow> db \<Rightarrow> repo_config list option" where
  "overlay_table (OpInsertConfig c ns) s = table_after (sql_insert_config c s)"
| "overlay_table (OpUpdateConfig u ns) s = table_after (sql_update_config u s)"
| "overlay_table (OpRekeyConfig reg old new ns) s = table_after (sql_rekey_config reg old new s)"
| "overlay_table (OpDeleteConfig reg name ns) s = table_after (sql_delete_config reg name s)"
| "overlay_table _ s = None"

text \<open>The error an overlay operation answers, if any.\<close>

definition error_of :: "gerror + 'a \<Rightarrow> gerror option" where
  "error_of r = (case r of Inl e \<Rightarrow> Some e | Inr a \<Rightarrow> None)"

fun overlay_error :: "store_op \<Rightarrow> db \<Rightarrow> gerror option" where
  "overlay_error (OpInsertConfig c ns) s = error_of (fst (run_state (InsertConfig c ns) s))"
| "overlay_error (OpUpdateConfig u ns) s = error_of (fst (run_state (UpdateConfig u ns) s))"
| "overlay_error (OpRekeyConfig reg old new ns) s = error_of (fst (run_state (RekeyConfig reg old new ns) s))"
| "overlay_error (OpDeleteConfig reg name ns) s = error_of (fst (run_state (DeleteConfig reg name ns) s))"
| "overlay_error _ s = None"

definition guarded_write :: "string \<Rightarrow> outbox_intent list \<Rightarrow> repo_config list option \<Rightarrow> db \<Rightarrow> db \<Rightarrow> bool" where
  "guarded_write reg intents table s t \<longleftrightarrow> (\<exists>r rows. find_registry s reg = Some r \<and>
     r_status r \<noteq> RegistryStatusDeleting \<and> table = Some (d_configs t) \<and>
     d_registries t = d_registries s \<and> d_outbox t = d_outbox s @ rows \<and>
     map (\<lambda>b. (ob_event b, ob_intent b)) rows = filter (\<lambda>(ev, i). i_tuples i \<noteq> []) intents)"

lemma overlay_write_cases:
  assumes "\<And>u. d_registries (snd (dml u)) = d_registries u \<and> d_outbox (snd (dml u)) = d_outbox u"
    and "\<And>u. tables u = tables s \<Longrightarrow> d_configs (snd (dml u)) = d_configs (snd (dml s)) \<and> fst (dml u) = fst (dml s)"
    and m_def: "m = ready (runConfigTx reg intents (trip dml))"
  shows "error_of (fst (run_state m s)) \<noteq> None \<and> tables (snd (run_state m s)) = tables s \<or>
      guarded_write reg intents (table_after (dml s)) s (snd (run_state m s))"
    and "answering s \<Longrightarrow> (\<And>r. find_registry s reg = Some r \<Longrightarrow> r_status r = RegistryStatusDeleting) \<Longrightarrow>
      \<exists>e. error_of (fst (run_state m s)) = Some (wrapE ErrFailedPrecondition e)"
proof -
  show "error_of (fst (run_state m s)) \<noteq> None \<and> tables (snd (run_state m s)) = tables s \<or>
      guarded_write reg intents (table_after (dml s)) s (snd (run_state m s))"
    using runConfigTx_guarded [OF assms(1,2) surjective_pairing, where reg = reg and intents = intents]
    by (cases "dml s") (auto simp: m_def error_of_def guarded_write_def table_after_def)
  show "\<exists>e. error_of (fst (run_state m s)) = Some (wrapE ErrFailedPrecondition e)"
    if "answering s" "\<And>r. find_registry s reg = Some r \<Longrightarrow> r_status r = RegistryStatusDeleting"
    using guard_refuses [OF that(1), where reg = reg and intents = intents and dml = "trip dml"] that(2) by (auto simp: m_def error_of_def)
qed

lemma sql_config_cong:
  assumes "tables u = tables s"
  shows "d_configs (snd (sql_insert_config c u)) = d_configs (snd (sql_insert_config c s)) \<and>
      fst (sql_insert_config c u) = fst (sql_insert_config c s)"
    and "d_configs (snd (sql_update_config cu u)) = d_configs (snd (sql_update_config cu s)) \<and>
      fst (sql_update_config cu u) = fst (sql_update_config cu s)"
    and "d_configs (snd (sql_rekey_config reg old new u)) = d_configs (snd (sql_rekey_config reg old new s)) \<and>
      fst (sql_rekey_config reg old new u) = fst (sql_rekey_config reg old new s)"
    and "d_configs (snd (sql_delete_config reg name u)) = d_configs (snd (sql_delete_config reg name s)) \<and>
      fst (sql_delete_config reg name u) = fst (sql_delete_config reg name s)"
  using tables_eqD [OF assms] tables_cong [OF assms]
  by (auto simp: sql_insert_config_def sql_update_config_def sql_rekey_config_def sql_delete_config_def Let_def
      split: option.splits)

text \<open>
  C9. No overlay changes in a registry that is being deleted: a write of the overlay table - insert,
  update, rename or delete, under any failures - either answers an error and leaves every table as
  it was, or the registry it belongs to is there and not DELETING, the overlays are those its
  statement makes of the table, and the authorization intents it was given were appended, in order,
  in the same transaction. When the server answers and the registry is absent or DELETING, the write
  is of the first kind and the error is a failed precondition.
\<close>

theorem overlay_writes_are_guarded:
  assumes "overlay_target op = Some (reg, intents)"
  shows "(overlay_error op s \<noteq> None \<and> tables (effect op s) = tables s \<or>
      guarded_write reg intents (overlay_table op s) s (effect op s)) \<and>
    (answering s \<and> (\<forall>r. find_registry s reg = Some r \<longrightarrow> r_status r = RegistryStatusDeleting) \<longrightarrow>
      (\<exists>m. overlay_error op s = Some (wrapE ErrFailedPrecondition m)))"
proof (cases op)
  case (OpInsertConfig c ns)
  note w = overlay_write_cases [OF sql_config_frame(1) [of c] sql_config_cong(1) [of _ s c] InsertConfig_def]
  from w(1) w(2) assms OpInsertConfig show ?thesis by auto
next
  case (OpUpdateConfig u ns)
  note w = overlay_write_cases [OF sql_config_frame(2) [of u] sql_config_cong(2) [of _ s u] UpdateConfig_def]
  from w(1) w(2) assms OpUpdateConfig show ?thesis by auto
next
  case (OpRekeyConfig rg old new ns)
  note w = overlay_write_cases [OF sql_config_frame(3) [of rg old new] sql_config_cong(3) [of _ s rg old new] RekeyConfig_def]
  from w(1) w(2) assms OpRekeyConfig show ?thesis by auto
next
  case (OpDeleteConfig rg name ns)
  note w = overlay_write_cases [OF sql_config_frame(4) [of rg name] sql_config_cong(4) [of _ s rg name] DeleteConfig_def]
  from w(1) w(2) assms OpDeleteConfig show ?thesis by auto
qed (use assms in simp_all)

definition demo_config :: repo_config where
  "demo_config = \<lparr>c_registry_id = ''reg1'', c_name = ''app'', c_description = [], c_labels = [],
     c_visibility = VisibilityPublic, c_created_at = 0\<rparr>"

lemma overlay_writes_are_guarded_witness:
  "\<exists>m. overlay_error (OpInsertConfig demo_config []) (replay demo_ops empty_db) = Some (wrapE ErrFailedPrecondition m)"
proof -
  let ?s = "replay demo_ops empty_db"
  have "map r_status (d_registries ?s) = [RegistryStatusDeleting]" by code_simp
  then have "\<forall>r. find_registry ?s ''reg1'' = Some r \<longrightarrow> r_status r = RegistryStatusDeleting"
    using find_registry_SomeD [of ?s "''reg1''"] by (auto simp: map_eq_Cons_conv)
  moreover have "d_faults ?s = [] \<and> d_pool ?s" by (intro conjI) code_simp+
  ultimately show ?thesis
    using overlay_writes_are_guarded [of "OpInsertConfig demo_config []" "''reg1''" "[]" ?s]
    by (simp add: demo_config_def answering_def)
qed

section \<open>The freshness tables\<close>

text \<open>What happens to a freshness table, each at a time of the database and a time of the service: a
  triple is recorded, taken back, or the sweeper runs.\<close>

datatype fresh_op = Record triple | Revoke triple | Sweep

fun fresh_step :: "(triple \<Rightarrow> db \<Rightarrow> db) \<Rightarrow> (triple \<Rightarrow> db \<Rightarrow> db) \<Rightarrow> (db \<Rightarrow> db) \<Rightarrow> fresh_op \<Rightarrow> db \<Rightarrow> db" where
  "fresh_step rec revoke sweep (Record k) = rec k"
| "fresh_step rec revoke sweep (Revoke k) = revoke k"
| "fresh_step rec revoke sweep Sweep = sweep"

fun fresh_run :: "(fresh_op \<Rightarrow> db \<Rightarrow> db) \<Rightarrow> (time \<times> time \<times> fresh_op) list \<Rightarrow> db \<Rightarrow> db" where
  "fresh_run step [] s = s"
| "fresh_run step ((now, clock, op) # evs) s = fresh_run step evs (step op (s\<lparr>d_now := now, d_clock := clock\<rparr>))"

text \<open>The time of the last record of a triple that was not taken back.\<close>

fun last_record :: "triple \<Rightarrow> (time \<times> time \<times> fresh_op) list \<Rightarrow> time option \<Rightarrow> time option" where
  "last_record k [] m = m"
| "last_record k ((now, clock, op) # evs) m = last_record k evs (case op of
     Record k' \<Rightarrow> if k' = k then Some now else m | Revoke k' \<Rightarrow> if k' = k then None else m | Sweep \<Rightarrow> m)"

definition younger :: "time option \<Rightarrow> time \<Rightarrow> bool" where
  "younger m cutoff \<longleftrightarrow> (\<exists>t. m = Some t \<and> cutoff < t)"

text \<open>The contract the data plane relies on, for a store that answers.\<close>

locale freshness =
  fixes rec :: "triple \<Rightarrow> db \<Rightarrow> db" and holds :: "time \<Rightarrow> triple \<Rightarrow> db \<Rightarrow> bool" and sweep :: "time \<Rightarrow> db \<Rightarrow> db"
    and answers :: "db \<Rightarrow> bool"
  assumes rec_holds: "answers s \<Longrightarrow> holds ttl k ((rec k' s)\<lparr>d_clock := c\<rparr>) \<longleftrightarrow>
      (if k' = k then c - ttl < d_now s else holds ttl k (s\<lparr>d_clock := c\<rparr>))"
    and sweep_keeps: "answers s \<Longrightarrow> d_clock s \<le> c \<Longrightarrow>
      holds ttl k ((sweep ttl s)\<lparr>d_clock := c\<rparr>) = holds ttl k (s\<lparr>d_clock := c\<rparr>)"
    and now_free: "answers s \<Longrightarrow> holds ttl k (s\<lparr>d_now := n, d_clock := c\<rparr>) = holds ttl k (s\<lparr>d_clock := c\<rparr>)"
    and answers: "answers s \<Longrightarrow> answers (rec k s)" "answers s \<Longrightarrow> answers (sweep ttl s)"
      "answers s \<Longrightarrow> answers (s\<lparr>d_now := n, d_clock := c\<rparr>)"
begin

text \<open>One event, seen from every later time.\<close>

definition revoke_law :: "(triple \<Rightarrow> db \<Rightarrow> db) \<Rightarrow> bool" where
  "revoke_law revoke \<longleftrightarrow> (\<forall>s k' ttl k c. answers s \<longrightarrow> answers (revoke k' s) \<and>
     holds ttl k ((revoke k' s)\<lparr>d_clock := c\<rparr>) = (k' \<noteq> k \<and> holds ttl k (s\<lparr>d_clock := c\<rparr>)))"

lemma exact:
  assumes "answers s" and "\<And>n d k'. (n, d, Revoke k') \<in> set evs \<Longrightarrow> revoke_law revoke"
    and "sorted (map (fst \<circ> snd) evs @ [c])"
    and "\<And>c'. b \<le> c' \<Longrightarrow> holds ttl k (s\<lparr>d_clock := c'\<rparr>) = younger m (c' - ttl)"
    and "\<forall>e \<in> set evs. b \<le> fst (snd e)" and "b \<le> c"
  shows "answers (fresh_run (fresh_step rec revoke (sweep ttl)) evs s) \<and>
    holds ttl k ((fresh_run (fresh_step rec revoke (sweep ttl)) evs s)\<lparr>d_clock := c\<rparr>) =
    younger (last_record k evs m) (c - ttl)"
  using assms
proof (induction evs arbitrary: s m b)
  case (Cons e evs)
  obtain now d op where e: "e = (now, d, op)" by (cases e)
  let ?u = "s\<lparr>d_now := now, d_clock := d\<rparr>" and ?v = "fresh_step rec revoke (sweep ttl) op (s\<lparr>d_now := now, d_clock := d\<rparr>)"
  let ?m = "case op of Record k' \<Rightarrow> if k' = k then Some now else m | Revoke k' \<Rightarrow> if k' = k then None else m | Sweep \<Rightarrow> m"
  have u: "answers ?u" using Cons.prems(1) by (rule answers)
  have d: "b \<le> d" "\<forall>x \<in> set evs. d \<le> fst (snd x)" "d \<le> c" "sorted (map (fst \<circ> snd) evs @ [c])"
    using Cons.prems(3,5) by (auto simp: e comp_def)
  have rl: "revoke_law revoke" if "op = Revoke k'" for k' using Cons.prems(2) [of now d k'] that by (simp add: e)
  have v: "answers ?v" using u answers(1,2) rl by (cases op) (auto simp: revoke_law_def)
  have "holds ttl k (?v\<lparr>d_clock := c'\<rparr>) = younger ?m (c' - ttl)" if c': "d \<le> c'" for c'
  proof -
    have "holds ttl k (?u\<lparr>d_clock := c'\<rparr>) = younger m (c' - ttl)"
      using Cons.prems(4) [of c'] now_free [OF Cons.prems(1), of ttl k c' now] c' d(1) by simp
    note h = this
    show ?thesis
    proof (cases op)
      case (Record k')
      with h rec_holds [OF u, where ttl = ttl and k = k and k' = k' and c = c'] show ?thesis by (simp add: younger_def)
    next
      case (Revoke k')
      from rl [OF this] u have "holds ttl k ((revoke k' ?u)\<lparr>d_clock := c'\<rparr>) = (k' \<noteq> k \<and> holds ttl k (?u\<lparr>d_clock := c'\<rparr>))"
        unfolding revoke_law_def by blast
      with h Revoke show ?thesis by (simp add: younger_def)
    next
      case Sweep
      with h sweep_keeps [OF u, where ttl = ttl and k = k and c = c'] c' show ?thesis by simp
    qed
  qed
  moreover have "revoke_law revoke" if "(n, x, Revoke k') \<in> set evs" for n x k'
    using Cons.prems(2) [of n x k'] that by simp
  ultimately show ?case using Cons.IH [OF v _ d(4) _ d(2,3)] by (simp add: e)
qed simp

end

text \<open>A store whose records can be taken back.\<close>

locale revocable = freshness +
  fixes revoke :: "triple \<Rightarrow> db \<Rightarrow> db"
  assumes revokes: "revoke_law revoke"
begin

lemma exact_history:
  assumes "answers s" and "sorted (map (fst \<circ> snd) evs @ [c])"
    and "\<And>c'. holds ttl k (s\<lparr>d_clock := c'\<rparr>) = younger m (c' - ttl)"
  shows "answers (fresh_run (fresh_step rec revoke (sweep ttl)) evs s) \<and>
    holds ttl k ((fresh_run (fresh_step rec revoke (sweep ttl)) evs s)\<lparr>d_clock := c\<rparr>) =
    younger (last_record k evs m) (c - ttl)"
proof (rule exact [OF assms(1) revokes assms(2), where b = "Min (set (map (fst \<circ> snd) evs @ [c]))"])
  show "\<And>c'. holds ttl k (s\<lparr>d_clock := c'\<rparr>) = younger m (c' - ttl)" by (rule assms(3))
qed auto

end

definition rec_blob :: "triple \<Rightarrow> db \<Rightarrow> db" where
  "rec_blob = (\<lambda>(reg, repo, d) s. snd (run_state (RecordUploadedBlob reg repo d) s))"

definition holds_blob :: "time \<Rightarrow> triple \<Rightarrow> db \<Rightarrow> bool" where
  "holds_blob ttl = (\<lambda>(reg, repo, d) s. fst (run_state (BlobUploaded ttl reg repo d) s) = Inr True)"

definition sweep_blobs :: "time \<Rightarrow> db \<Rightarrow> db" where
  "sweep_blobs ttl s = snd (run_state (SweepStaleBlobs ttl) s)"

definition rec_grant :: "triple \<Rightarrow> db \<Rightarrow> db" where
  "rec_grant = (\<lambda>(reg, repo, sub) s. snd (run_state (RecordPushGrant reg repo sub) s))"

definition holds_grant :: "time \<Rightarrow> triple \<Rightarrow> db \<Rightarrow> bool" where
  "holds_grant ttl = (\<lambda>(reg, repo, sub) s. fst (run_state (PushGranted ttl reg repo sub) s) = Inr True)"

definition sweep_grants :: "time \<Rightarrow> db \<Rightarrow> db" where
  "sweep_grants ttl s = snd (run_state (SweepStaleGrants ttl) s)"

definition revoke_grant :: "triple \<Rightarrow> db \<Rightarrow> db" where
  "revoke_grant = (\<lambda>(reg, repo, sub) s. snd (run_state (DeletePushGrant reg repo sub) s))"

lemmas freshness_defs = rec_blob_def holds_blob_def sweep_blobs_def rec_grant_def holds_grant_def
  sweep_grants_def revoke_grant_def RecordUploadedBlob_def BlobUploaded_def SweepStaleBlobs_def
  RecordPushGrant_def PushGranted_def SweepStaleGrants_def DeletePushGrant_def
  answering_def ready_def wrapped_def trip_def run

lemma fresh_in_simps [simp]:
  "fresh_in k c (upsert_at k' t tab) = (if k = k' then c < t else fresh_in k c tab)"
  "fresh_in k c (filter (\<lambda>e. c < snd e) tab) = fresh_in k c tab"
  "fresh_in k c (filter (\<lambda>e. fst e \<noteq> k') tab) = (k \<noteq> k' \<and> fresh_in k c tab)"
  "fresh_in k c [] = False"
  by (force simp: fresh_in_def upsert_at_def)+

lemma fresh_in_mono: "fresh_in k c tab \<Longrightarrow> d \<le> c \<Longrightarrow> fresh_in k d tab"
  by (auto simp: fresh_in_def)

lemma fresh_in_filter_old: "d \<le> c \<Longrightarrow> fresh_in k c (filter (\<lambda>e. d < snd e) tab) = fresh_in k c tab"
  by (force simp: fresh_in_def)

interpretation blobs: freshness rec_blob holds_blob sweep_blobs answering
  by unfold_locales (auto simp: freshness_defs fresh_in_filter_old split: prod.splits)

interpretation fresh_grants: freshness rec_grant holds_grant sweep_grants answering
  by unfold_locales (auto simp: freshness_defs fresh_in_filter_old split: prod.splits)

interpretation grants: revocable rec_grant holds_grant sweep_grants answering revoke_grant
  by unfold_locales (auto simp: fresh_grants.revoke_law_def freshness_defs split: prod.splits)

definition grant_run :: "time \<Rightarrow> (time \<times> time \<times> fresh_op) list \<Rightarrow> db \<Rightarrow> db" where
  "grant_run ttl = fresh_run (fresh_step rec_grant revoke_grant (sweep_grants ttl))"

definition blob_run :: "time \<Rightarrow> (time \<times> time \<times> fresh_op) list \<Rightarrow> db \<Rightarrow> db" where
  "blob_run ttl = fresh_run (fresh_step rec_blob (\<lambda>_ s. s) (sweep_blobs ttl))"

lemma answering_clock: "answering (s\<lparr>d_clock := c\<rparr>) = answering s"
  by (simp add: answering_def)

lemma answering_holds:
  "answering s \<Longrightarrow> fst (run_state (BlobUploaded ttl reg repo d) s) = Inr (holds_blob ttl (reg, repo, d) s)"
  "answering s \<Longrightarrow> fst (run_state (PushGranted ttl reg repo sub) s) = Inr (holds_grant ttl (reg, repo, sub) s)"
  by (auto simp: freshness_defs)

text \<open>
  C14. The records behind the two bridges of the data plane mean exactly what they say: from empty
  tables, whatever was recorded, taken back and swept meanwhile (in the order of the service's
  clock, the sweeper using the time to live of the question, as both come from one repository), the
  question whether a blob was uploaded to a repository is answered at service time \<open>c\<close> with yes if and
  only if this very triple was recorded and its last record has a time later than \<open>c - ttl\<close>; and the
  question whether a push was granted to a subject if and only if, besides, that record was not
  taken back since. Records of other triples and the sweeper change no answer. The server is assumed
  to answer; an upload cannot be taken back.
\<close>

theorem freshness_records_are_exact:
  assumes "answering s" and "d_pending_blobs s = []" and "d_push_grants s = []"
    and "sorted (map (fst \<circ> snd) evs @ [c])"
  shows "((\<forall>n d k. (n, d, Revoke k) \<notin> set evs) \<longrightarrow>
      fst (run_state (BlobUploaded ttl reg repo digest) ((blob_run ttl evs s)\<lparr>d_clock := c\<rparr>)) =
        Inr (younger (last_record (reg, repo, digest) evs None) (c - ttl))) \<and>
    fst (run_state (PushGranted ttl reg repo subject) ((grant_run ttl evs s)\<lparr>d_clock := c\<rparr>)) =
        Inr (younger (last_record (reg, repo, subject) evs None) (c - ttl))"
proof (intro conjI impI)
  have b: "holds_blob ttl k (s\<lparr>d_clock := c'\<rparr>) = younger None (c' - ttl)" for k c'
    using assms(1-3) by (auto simp: freshness_defs younger_def split: prod.splits)
  have g: "holds_grant ttl k (s\<lparr>d_clock := c'\<rparr>) = younger None (c' - ttl)" for k c'
    using assms(1-3) by (auto simp: freshness_defs younger_def split: prod.splits)
  show "fst (run_state (PushGranted ttl reg repo subject) ((grant_run ttl evs s)\<lparr>d_clock := c\<rparr>)) =
      Inr (younger (last_record (reg, repo, subject) evs None) (c - ttl))"
    using grants.exact_history [OF assms(1,4) g, of "(reg, repo, subject)"] answering_clock
    by (simp add: grant_run_def answering_holds)
  assume nr: "\<forall>n d k. (n, d, Revoke k) \<notin> set evs"
  show "fst (run_state (BlobUploaded ttl reg repo digest) ((blob_run ttl evs s)\<lparr>d_clock := c\<rparr>)) =
      Inr (younger (last_record (reg, repo, digest) evs None) (c - ttl))"
    using blobs.exact [OF assms(1) _ assms(4) b, of "\<lambda>_ s. s" "Min (set (map (fst \<circ> snd) evs @ [c]))" "(reg, repo, digest)"]
      nr answering_clock
    by (simp add: blob_run_def answering_holds)
qed

text \<open>Two pushers; the grant of one is taken back, and both are asked for in time and too late.\<close>

definition demo_events :: "(time \<times> time \<times> fresh_op) list" where
  "demo_events = [(5, 5, Record (''reg1'', ''app'', ''u'')), (6, 6, Record (''reg1'', ''app'', ''v'')),
     (7, 7, Revoke (''reg1'', ''app'', ''u'')), (8, 8, Sweep)]"

lemma freshness_records_are_exact_witness:
  "fst (run_state (PushGranted 60 ''reg1'' ''app'' ''v'') ((grant_run 60 demo_events empty_db)\<lparr>d_clock := 65\<rparr>)) = Inr True \<and>
   fst (run_state (PushGranted 60 ''reg1'' ''app'' ''v'') ((grant_run 60 demo_events empty_db)\<lparr>d_clock := 66\<rparr>)) = Inr False \<and>
   fst (run_state (PushGranted 60 ''reg1'' ''app'' ''u'') ((grant_run 60 demo_events empty_db)\<lparr>d_clock := 9\<rparr>)) = Inr False"
proof -
  have "answering empty_db" "d_pending_blobs empty_db = []" "d_push_grants empty_db = []"
    by (simp_all add: answering_def empty_db_def)
  note exact = freshness_records_are_exact [OF this, where evs = demo_events and ttl = 60 and reg = "''reg1''" and repo = "''app''", THEN conjunct2]
  have "fst (run_state (PushGranted 60 ''reg1'' ''app'' sub) ((grant_run 60 demo_events empty_db)\<lparr>d_clock := c\<rparr>)) =
      Inr (younger (last_record (''reg1'', ''app'', sub) demo_events None) (c - 60))" if "8 \<le> c" for sub c
    by (rule exact) (use that in \<open>simp add: demo_events_def\<close>)
  then show ?thesis by (simp add: demo_events_def younger_def)
qed

section \<open>The catalogue of registries as an abstract map\<close>

definition catalogue :: "db \<Rightarrow> string \<Rightarrow> registry option" where
  "catalogue s = find_registry s"

definition spec_name_free :: "(string \<Rightarrow> registry option) \<Rightarrow> registry \<Rightarrow> bool" where
  "spec_name_free m row \<longleftrightarrow> \<not> (live row \<and> (\<exists>q \<in> ran m. live q \<and> r_id q \<noteq> r_id row \<and>
     r_project_id q = r_project_id row \<and> r_name q = r_name row))"

definition spec_insert :: "registry \<Rightarrow> (string \<Rightarrow> registry option) \<Rightarrow> string \<Rightarrow> registry option" where
  "spec_insert row m = (if m (r_id row) = None \<and> spec_name_free m row then m(r_id row \<mapsto> row) else m)"

definition spec_modify :: "string \<Rightarrow> (registry \<Rightarrow> bool) \<Rightarrow> (registry \<Rightarrow> registry) \<Rightarrow>
    (string \<Rightarrow> registry option) \<Rightarrow> string \<Rightarrow> registry option" where
  "spec_modify i p f m = (case m i of None \<Rightarrow> m
     | Some r \<Rightarrow> if p r \<and> spec_name_free m (f r) then m(i \<mapsto> f r) else m)"

definition spec_step :: "store_op \<Rightarrow> time \<Rightarrow> (string \<Rightarrow> registry option) \<Rightarrow> string \<Rightarrow> registry option" where
  "spec_step op now m = (case op of
       OpInsert r n \<Rightarrow> spec_insert (r\<lparr>r_status := statusFromString (statusString (r_status r)),
         r_created_at := now, r_default_visibility := VisibilityPrivate\<rparr>) m
     | OpUpdate u f \<Rightarrow> spec_modify (us_RegistryID u) (\<lambda>r. r_status r = RegistryStatusActive) (set_registry_columns u) m
     | OpMarkDeleting i \<Rightarrow> spec_modify i (\<lambda>_. True) (\<lambda>r. r\<lparr>r_status := RegistryStatusDeleting\<rparr>) m
     | OpDelete i n \<Rightarrow> m(i := None)
     | _ \<Rightarrow> m)"

lemma catalogue_append: "i = r_id row \<Longrightarrow> find_registry s i = None \<Longrightarrow>
    catalogue (s\<lparr>d_registries := d_registries s @ [row]\<rparr>) = (catalogue s)(i \<mapsto> row)"
proof (rule ext)
  fix j
  assume a: "i = r_id row" "find_registry s i = None"
  have "find (\<lambda>r. r_id r = j) (rs @ [row]) = (case find (\<lambda>r. r_id r = j) rs of None \<Rightarrow>
      if r_id row = j then Some row else None | Some r \<Rightarrow> Some r)" for rs
    by (induction rs) auto
  with a show "catalogue (s\<lparr>d_registries := d_registries s @ [row]\<rparr>) j = ((catalogue s)(i \<mapsto> row)) j"
    by (auto simp: catalogue_def find_registry_def split: option.splits dest: find_key_Some)
qed

lemma catalogue_put: "find_registry s (r_id row) \<noteq> None \<Longrightarrow>
    catalogue (s\<lparr>d_registries := put_registry row (d_registries s)\<rparr>) = (catalogue s)(r_id row \<mapsto> row)"
proof (rule ext)
  fix j
  assume a: "find_registry s (r_id row) \<noteq> None"
  have "find (\<lambda>r. r_id r = j) (put_registry row rs) = (if j = r_id row \<and> find (\<lambda>r. r_id r = j) rs \<noteq> None
      then Some row else find (\<lambda>r. r_id r = j) rs)" for rs
    by (induction rs) (auto simp: put_registry_def)
  with a show "catalogue (s\<lparr>d_registries := put_registry row (d_registries s)\<rparr>) j = ((catalogue s)(r_id row \<mapsto> row)) j"
    by (auto simp: catalogue_def find_registry_def)
qed

lemma catalogue_delete:
  "catalogue (s\<lparr>d_registries := filter (\<lambda>x. r_id x \<noteq> i) (d_registries s), d_configs := cs\<rparr>) = (catalogue s)(i := None)"
proof (rule ext)
  fix j
  have "find (\<lambda>r. r_id r = j) (filter (\<lambda>x. r_id x \<noteq> i) rs) = (if j = i then None else find (\<lambda>r. r_id r = j) rs)" for rs
    by (induction rs) auto
  from this [of "d_registries s"]
  show "catalogue (s\<lparr>d_registries := filter (\<lambda>x. r_id x \<noteq> i) (d_registries s), d_configs := cs\<rparr>) j =
      ((catalogue s)(i := None)) j"
    by (simp add: catalogue_def find_registry_def)
qed

lemma catalogue_cong: "d_registries s = d_registries t \<Longrightarrow> catalogue s = catalogue t"
  by (simp add: catalogue_def find_registry_def fun_eq_iff)

lemma ran_catalogue:
  assumes "registries_ok (d_registries s)" shows "ran (catalogue s) = set (d_registries s)"
proof -
  have "distinct (map r_id rs) \<Longrightarrow> r \<in> set rs \<Longrightarrow> find (\<lambda>x. r_id x = r_id r) rs = Some r" for rs r
    by (induction rs) (auto simp: rev_image_eqI)
  with assms have "r \<in> set (d_registries s) \<Longrightarrow> find_registry s (r_id r) = Some r" for r
    by (auto simp: registries_ok_def find_registry_def)
  then show ?thesis by (fastforce simp: ran_def catalogue_def dest: find_registry_SomeD)
qed

lemma spec_name_free_iff:
  "registries_ok (d_registries s) \<Longrightarrow> spec_name_free (catalogue s) row \<longleftrightarrow> \<not> name_taken (d_registries s) row"
  by (simp add: spec_name_free_def name_taken_def ran_catalogue)

interpretation registry_frame: overlay_guarantee "\<lambda>s t. d_registries t = d_registries s"
  by unfold_locales (auto simp: rollback_def sql_config_frame sql_insert_outbox_def)

text \<open>Runs without faults.\<close>

lemma run_trip: "d_faults s = [] \<Longrightarrow> run_state (trip act) s = act s"
  by (simp add: trip_def)

lemma run_wrapped: "run_state (wrapped f m) s = (case run_state m s of (r, t) \<Rightarrow> (map_err f r, t))"
  by (simp add: wrapped_def run split: prod.splits)

lemma run_emit:
  assumes "d_faults s = []" and "ev \<in> {FGAEventRegister, FGAEventUnregister}"
  shows "\<exists>t. run_state (emitFGAIntent ev n) s = (Inr (), t) \<and> d_registries t = d_registries s \<and> d_faults t = []"
  using assms by (auto simp: emitFGAIntent_def run run_wrapped run_trip sql_insert_outbox_def fga_events)

lemma run_in_tx:
  assumes "answering s"
  shows "run_state (ready (in_tx f body)) s = (case run_state body s of
     (Inl e, t) \<Rightarrow> (Inl e, rollback s t)
   | (Inr a, t) \<Rightarrow> if d_faults t = [] then (Inr a, t) else run_state (ready (in_tx f body)) s)"
  using assms by (auto simp: answering_def ready_def run in_tx_def run_trip no_op_def split: prod.splits sum.splits)

lemma run_writer:
  assumes a: "answering s" and ev: "ev \<in> {FGAEventRegister, FGAEventUnregister}"
    and keep: "\<And>v. d_faults (snd (act s)) = []" and fail: "\<And>e. fst (act s) = Inl e \<Longrightarrow> snd (act s) = s"
  shows "d_registries (snd (run_state (ready (in_tx f (andThen (wrapped g (trip act)) (\<lambda>v.
      andThen (emitFGAIntent ev (n v)) (\<lambda>_. State_Monad.return (Inr (h v))))))) s)) = d_registries (snd (act s))"
proof (cases "act s")
  case (Pair r t)
  have f: "d_faults s = []" using a by (simp add: answering_def)
  show ?thesis
  proof (cases r)
    case (Inl e)
    with Pair fail a f show ?thesis by (simp add: run_in_tx run run_wrapped run_trip rollback_def)
  next
    case (Inr v)
    obtain u where "run_state (emitFGAIntent ev (n v)) t = (Inr (), u)" "d_registries u = d_registries t" "d_faults u = []"
      using run_emit [OF _ ev, of t "n v"] keep Pair by auto
    with Pair Inr a f show ?thesis by (simp add: run_in_tx run run_wrapped run_trip)
  qed
qed

lemma andThen_unit: "andThen m (\<lambda>_. State_Monad.return (Inr ())) = (m :: ('s, 'e + unit) state)"
proof (cases m)
  case (State g)
  have "run_state (andThen m (\<lambda>_. State_Monad.return (Inr ()))) s = run_state m s" for s
    by (auto simp: run split: prod.splits sum.splits)
  then show ?thesis by (metis State_Monad.state.collapse ext)
qed

lemma effect_registries:
  assumes a: "answering s"
  shows "d_registries (effect (OpInsert r n) s) = d_registries (snd (sql_insert_registry r s))"
    and "d_registries (effect (OpUpdate u m) s) = d_registries (snd (sql_update_registry u s))"
    and "d_registries (effect (OpMarkDeleting i) s) = d_registries (snd (sql_mark_deleting i s))"
    and "d_registries (effect (OpDelete i n) s) = d_registries (snd (sql_delete_registry i s))"
proof -
  have f: "d_faults s = []" and p: "d_pool s" using a by (auto simp: answering_def)
  show "d_registries (effect (OpInsert r n) s) = d_registries (snd (sql_insert_registry r s))"
    unfolding effect.simps repo_Insert_def
    by (rule run_writer [OF a]) (auto simp: sql_insert_registry_def Let_def f split: if_splits)
  show "d_registries (effect (OpUpdate u m) s) = d_registries (snd (sql_update_registry u s))"
    unfolding effect.simps repo_Update_def
    by (rule run_writer [OF a]) (auto simp: sql_update_registry_def Let_def f split: option.splits if_splits)
  show "d_registries (effect (OpMarkDeleting i) s) = d_registries (snd (sql_mark_deleting i s))"
    by (simp add: repo_MarkDeleting_def ready_def run run_wrapped run_trip f p split: prod.splits)
  have "d_registries (snd (run_state (ready (in_tx (\<lambda>e. wrapPgErr e ''Registry'' i)
      (andThen (wrapped (\<lambda>e. wrapPgErr e ''Registry'' i) (trip (sql_delete_registry i)))
        (\<lambda>v. andThen (emitFGAIntent FGAEventUnregister n) (\<lambda>_. State_Monad.return (Inr ())))))) s)) =
      d_registries (snd (sql_delete_registry i s))"
    by (rule run_writer [OF a]) (auto simp: sql_delete_registry_def f split: option.splits)
  then show "d_registries (effect (OpDelete i n) s) = d_registries (snd (sql_delete_registry i s))"
    by (simp add: repo_Delete_def andThen_unit)
qed

lemma catalogue_update:
  assumes "registries_ok (d_registries s)" and "answering s"
  shows "catalogue (effect (OpUpdate u m) s) = spec_step (OpUpdate u m) (d_now s) (catalogue s)"
proof -
  note eff = effect_registries(2) [OF assms(2), THEN catalogue_cong]
  have app: "catalogue s i = find_registry s i" for i by (simp add: catalogue_def)
  show ?thesis
  proof (cases "find_registry s (us_RegistryID u)")
    case None
    then show ?thesis unfolding eff by (simp add: sql_update_registry_def spec_step_def spec_modify_def app)
  next
    case (Some r)
    with find_registry_SomeD [OF Some] catalogue_put [of s "set_registry_columns u r"] show ?thesis
      unfolding eff by (auto simp: sql_update_registry_def spec_step_def spec_modify_def spec_name_free_iff [OF assms(1)] app Let_def)
  qed
qed

lemma catalogue_mark:
  assumes "registries_ok (d_registries s)" and "answering s"
  shows "catalogue (effect (OpMarkDeleting i) s) = spec_step (OpMarkDeleting i) (d_now s) (catalogue s)"
proof -
  note eff = effect_registries(3) [OF assms(2), THEN catalogue_cong]
  have app: "catalogue s i = find_registry s i" for i by (simp add: catalogue_def)
  show ?thesis
  proof (cases "find_registry s i")
    case None
    then show ?thesis unfolding eff by (simp add: sql_mark_deleting_def spec_step_def spec_modify_def app)
  next
    case (Some r)
    note r = find_registry_SomeD [OF Some]
    have "r_status r \<in> {RegistryStatusActive, RegistryStatusDeleting}"
      using r assms(1) by (auto simp: registries_ok_def registry_row_ok_def)
    moreover have "\<not> name_taken (d_registries s) (r\<lparr>r_status := RegistryStatusDeleting\<rparr>)"
      by (simp add: name_taken_def live_def)
    ultimately show ?thesis
      using Some r catalogue_put [of s "r\<lparr>r_status := RegistryStatusDeleting\<rparr>"] unfolding eff
      by (auto simp: sql_mark_deleting_def spec_step_def spec_modify_def spec_name_free_iff [OF assms(1)] app Let_def)
  qed
qed

text \<open>
  C13. The registry table refines an abstract catalogue: when nothing fails, each operation of the
  repository does to the map from ids to registries exactly what its specification says - insert
  only a free id with a free live name, modify the row only if it is active (and the new name is
  free), mark, or remove - and the overlay and freshness operations leave the map alone.
\<close>

theorem registry_table_refines_catalogue:
  assumes "db_ok s" and "answering s"
  shows "catalogue (effect op s) = spec_step op (d_now s) (catalogue s)"
proof -
  note eff = effect_registries [OF assms(2), THEN catalogue_cong]
  have ok: "registries_ok (d_registries s)" using assms(1) by (simp add: db_ok_def)
  have keep: "catalogue (snd (run_state m s)) = catalogue s"
    if "guar (\<lambda>s t. d_registries t = d_registries s) m" for m :: "(db, 'x) state"
    using guarD [OF that surjective_pairing] by (rule catalogue_cong)
  show ?thesis
  proof (cases op)
    case (OpInsert r n)
    show ?thesis unfolding OpInsert eff(1)
      by (auto simp: sql_insert_registry_def Let_def spec_step_def spec_insert_def spec_name_free_iff [OF ok] catalogue_append
          intro: catalogue_cong) (auto simp: catalogue_def)
  next
    case (OpUpdate u m)
    show ?thesis unfolding OpUpdate by (rule catalogue_update [OF ok assms(2)])
  next
    case (OpMarkDeleting i)
    show ?thesis unfolding OpMarkDeleting by (rule catalogue_mark [OF ok assms(2)])
  next
    case (OpDelete i n)
    show ?thesis unfolding OpDelete eff(4)
      by (auto simp: sql_delete_registry_def spec_step_def catalogue_delete split: option.splits) (auto simp: catalogue_def)
  qed (simp_all add: spec_step_def RegisterRepository_def UnregisterRepository_def keep registry_frame.g_InsertConfig
      registry_frame.g_UpdateConfig registry_frame.g_RekeyConfig registry_frame.g_DeleteConfig
      registry_frame.g_freshness registry_frame.g_emitRepoIntent)
qed

lemma registry_table_refines_catalogue_witness:
  "catalogue (effect (OpMarkDeleting ''reg1'') (replay demo_ops empty_db)) =
   spec_step (OpMarkDeleting ''reg1'') 5 (catalogue (replay demo_ops empty_db))"
proof -
  let ?s = "replay demo_ops empty_db"
  have "db_ok ?s" using schema_invariant [OF empty_db_ok history_replay] by blast
  moreover have "answering ?s" "d_now ?s = 5" by code_simp+
  ultimately show ?thesis using registry_table_refines_catalogue [of ?s "OpMarkDeleting ''reg1''"] by (simp only:)
qed

end
