(* ===== verification/UseCases.thy ===== *)
theory UseCases
  imports Paging PgStore
begin

text \<open>
  The use cases of \<open>internal/apps/kacho/api/registry\<close>. The environment holds the database and
  whatever state the peers have (\<open>'x\<close>); the engine, iam and the operations library are records of
  functions on the environment, so that a call to a peer may also stand for what other requests
  do to the database while it is in flight. \<open>operations.Run\<close> starts a worker: the closure it gets
  is a \<open>job\<close> put on the list of started workers, and \<open>run_job\<close> is the body of the closure.
\<close>

section \<open>Specifications of the requests\<close>

record create_spec =
  cs_ProjectID :: string
  cs_Name :: string
  cs_Description :: string
  cs_Labels :: labels

record create_repo_spec =
  rs_RegistryID :: string
  rs_Repository :: string
  rs_Description :: string
  rs_Labels :: labels
  rs_Visibility :: int

record update_repo_spec =
  ur_RegistryID :: string
  ur_Repository :: string
  ur_Description :: string
  ur_Labels :: labels
  ur_Visibility :: int
  ur_Mask :: "string list"

record list_query =
  lq_ProjectID :: string
  lq_PageSize :: int
  lq_PageToken :: string
  lq_Filter :: string

record repo_list_query =
  rq_RegistryID :: string
  rq_PageSize :: int
  rq_PageToken :: string

record tag_list_query =
  tq_RegistryID :: string
  tq_Repository :: string
  tq_PageSize :: int
  tq_PageToken :: string

record referrers_query =
  fq_RegistryID :: string
  fq_Repository :: string
  fq_SubjectDigest :: string
  fq_ArtifactType :: string

record operations_query =
  oq_RegistryID :: string
  oq_PageSize :: int
  oq_PageToken :: string

section \<open>What goes on the wire\<close>

text \<open>\<open>prototime.Truncate\<close>: no timestamp for the zero time, else whole seconds.\<close>

definition Truncate :: "time \<Rightarrow> time option" where
  "Truncate t = (if t = 0 then None else Some (t - t mod 1000000000))"

record pb_registry =
  br_id :: string
  br_project_id :: string
  br_created_at :: "time option"
  br_name :: string
  br_description :: string
  br_labels :: labels
  br_endpoint :: string
  br_status :: int
  br_default_visibility :: int

record pb_repository =
  bp_registry_id :: string
  bp_name :: string
  bp_description :: string
  bp_labels :: labels
  bp_visibility :: int
  bp_created_at :: "time option"
  bp_tag_count :: int
  bp_size_bytes :: int
  bp_updated_at :: "time option"
  bp_artifact_type :: int
  bp_artifact_types :: "int list"
  bp_last_pulled_at :: "time option"
  bp_download_count :: int

datatype any = AnyRegistry pb_registry | AnyRepository pb_repository | AnyEmpty

section \<open>Operations and workers\<close>

record principal =
  pr_type :: string
  pr_id :: string
  pr_display_name :: string

datatype metadata = CreateRegistryMetadata string | UpdateRegistryMetadata string
  | DeleteRegistryMetadata string | TriggerGarbageCollectionMetadata string
  | DeleteTagMetadata string string string | CreateRepositoryMetadata string string
  | UpdateRepositoryMetadata string string | DeleteRepositoryMetadata string string
  | RenameRepositoryMetadata string string string

record operation =
  op_ID :: string
  op_Description :: string
  op_CreatedAt :: time
  op_CreatedBy :: string
  op_ModifiedAt :: time
  op_Done :: bool
  op_Metadata :: "metadata option"
  op_Principal :: principal
  op_Error :: "gerror option"
  op_Response :: "any option"

datatype job = JReturn "gerror + any" | JUpdate update_spec | JDelete string
  | JDeleteTag string string string | JTriggerGC string
  | JCreateRepository create_repo_spec repo_config | JUpdateRepository config_update principal
  | JDeleteRepository string string | JRenameRepository string string string principal

record 'x env =
  e_db :: db
  e_ext :: 'x

record 'x world =
  w_env :: "'x env"
  w_opened :: "string list"
  w_jobs :: "(string \<times> job) list"
  w_done :: "(string \<times> (gerror + any)) list"

section \<open>The ports\<close>

record 'x zot_client =
  z_ListRepositories :: "repo_list_query \<Rightarrow> ('x env, gerror + repository list \<times> string) state"
  z_ListTags :: "tag_list_query \<Rightarrow> ('x env, gerror + tag list \<times> string) state"
  z_DeleteTag :: "string \<Rightarrow> string \<Rightarrow> string \<Rightarrow> ('x env, gerror + unit) state"
  z_NamespaceEmpty :: "string \<Rightarrow> ('x env, gerror + bool) state"
  z_RemoveNamespace :: "string \<Rightarrow> ('x env, gerror + unit) state"
  z_TriggerGC :: "string \<Rightarrow> ('x env, gerror + unit) state"
  z_Stats :: "string \<Rightarrow> ('x env, gerror + registry_stats) state"
  z_RepositoryProjection :: "string \<Rightarrow> string \<Rightarrow> ('x env, gerror + repository option) state"
  z_RepositoryEmpty :: "string \<Rightarrow> string \<Rightarrow> ('x env, gerror + bool) state"
  z_RenameRepository :: "string \<Rightarrow> string \<Rightarrow> string \<Rightarrow> ('x env, gerror + unit) state"
  z_ListReferrers :: "string \<Rightarrow> string \<Rightarrow> string \<Rightarrow> string \<Rightarrow> ('x env, gerror + referrer list) state"

record 'x operations_repo =
  ops_NewFromContext :: "principal \<Rightarrow> string \<Rightarrow> string \<Rightarrow> metadata \<Rightarrow> ('x env, gerror + operation) state"
  ops_CreateWithPrincipal :: "operation \<Rightarrow> principal \<Rightarrow> ('x env, gerror + unit) state"
  ops_List :: "operations_query \<Rightarrow> ('x env, gerror + operation list \<times> string) state"

text \<open>The collaborators of \<open>UseCase\<close>; \<open>u_nil\<close> names those the composition root left nil. The
  repositories are those of \<open>PgStore\<close>, and the paged \<open>List\<close> of registries is a field, which \<open>repo_List\<close> of \<open>PgList\<close> provides.\<close>

record 'x usecase =
  u_nil :: "string list"
  u_corelib :: corelib
  u_reader_List :: "list_query \<Rightarrow> ('x env, gerror + registry list \<times> string) state"
  u_zot :: "'x zot_client"
  u_ProjectExists :: "string \<Rightarrow> ('x env, gerror + unit) state"
  u_ops :: "'x operations_repo"
  u_NewID :: "string \<Rightarrow> ('x env, string) state"
  u_PrefixOperationReg :: string
  u_endpointBase :: string

definition on_db :: "(db, 'a) state \<Rightarrow> ('x env, 'a) state" where
  "on_db m = State (\<lambda>e. case run_state m (e_db e) of (a, s) \<Rightarrow> (a, e\<lparr>e_db := s\<rparr>))"

definition on_env :: "('x env, 'a) state \<Rightarrow> ('x world, 'a) state" where
  "on_env m = State (\<lambda>w. case run_state m (w_env w) of (a, e) \<Rightarrow> (a, w\<lparr>w_env := e\<rparr>))"

definition mapped :: "('x env, gerror + 'a) state \<Rightarrow> ('x env, gerror + 'a) state" where
  "mapped m = do { r \<leftarrow> m; State_Monad.return (map_err mapRepoErr r) }"

text \<open>A validator: the error it found, or go on.\<close>

definition guard_ok :: "gerror option \<Rightarrow> ('s, gerror + unit) state" where
  "guard_ok v = State_Monad.return (opt_err v)"

section \<open>Wiring, endpoints and validation\<close>

definition NewUseCase :: "'x usecase \<Rightarrow> 'x usecase" where
  "NewUseCase u = (if u_endpointBase u = [] then u\<lparr>u_endpointBase := ''registry.kacho.local''\<rparr> else u)"

definition EndpointFor :: "'x usecase \<Rightarrow> string \<Rightarrow> string" where
  "EndpointFor u i = (if i = [] then [] else u_endpointBase u @ ''/'' @ i)"

definition assertWired :: "'x usecase \<Rightarrow> gerror option" where
  "assertWired u = (if \<exists>p \<in> {''reader'', ''writer'', ''zot'', ''iam'', ''ops''}. p \<in> set (u_nil u)
     then Some (bare ErrUnavailable) else None)"

definition assertRepoWired :: "'x usecase \<Rightarrow> gerror option" where
  "assertRepoWired u = (case assertWired u of Some e \<Rightarrow> Some e
     | None \<Rightarrow> if ''cfg'' \<in> set (u_nil u) \<or> ''repoReg'' \<in> set (u_nil u)
         then Some (bare ErrUnavailable) else None)"

definition ValidateRegistryID :: "corelib \<Rightarrow> string \<Rightarrow> gerror option" where
  "ValidateRegistryID L i = cl_ResourceID L ''registry'' (cl_PrefixRegistry L) i"

definition validatePageSize :: "corelib \<Rightarrow> int \<Rightarrow> gerror + int" where
  "validatePageSize L n = cl_PageSize L ''page_size'' n"

text \<open>The error of a domain validator as the use cases return it.\<close>

definition as_invalid :: "string \<Rightarrow> string option \<Rightarrow> gerror option" where
  "as_invalid prefix v = map_option (\<lambda>m. failInvalidArg (prefix @ m)) v"

definition knownUpdateFields :: "string list" where
  "knownUpdateFields = [''name'', ''project_id'', ''projectId'', ''description'', ''labels'',
     ''default_visibility'', ''defaultVisibility'']"

definition immutableUpdateFields :: "string \<Rightarrow> string option" where
  "immutableUpdateFields p = (if p = ''project_id'' \<or> p = ''projectId''
     then Some ''projectId is immutable after Registry.Create'' else None)"

definition knownRepoUpdateFields :: "string list" where
  "knownRepoUpdateFields = [''description'', ''labels'', ''visibility'', ''name'', ''registry_id'', ''registryId'']"

definition immutableRepoUpdateFields :: "string \<Rightarrow> string option" where
  "immutableRepoUpdateFields p =
     (if p = ''name'' then Some ''name is immutable after Repository.Create''
      else if p = ''registry_id'' \<or> p = ''registryId''
      then Some ''registryId is immutable after Repository.Create'' else None)"

text \<open>The message of the first immutable path of a mask.\<close>

fun first_immutable :: "(string \<Rightarrow> string option) \<Rightarrow> string list \<Rightarrow> gerror option" where
  "first_immutable immutable [] = None"
| "first_immutable immutable (p # ps) = (case immutable p of
       Some msg \<Rightarrow> Some (failInvalidArg msg) | None \<Rightarrow> first_immutable immutable ps)"

definition resolveRepoUpdateMask :: "corelib \<Rightarrow> config_update \<Rightarrow> string list \<Rightarrow> gerror + config_update" where
  "resolveRepoUpdateMask L spec paths =
     (case first_immutable immutableRepoUpdateFields paths of Some e \<Rightarrow> Inl e
      | None \<Rightarrow> (case cl_UpdateMask L ''update_mask'' paths knownRepoUpdateFields of Some e \<Rightarrow> Inl e
      | None \<Rightarrow>
         (if paths = []
          then Inr (spec\<lparr>cu_ApplyDescription := True, cu_ApplyLabels := True, cu_ApplyVisibility := True\<rparr>)
          else Inr (spec\<lparr>cu_ApplyDescription := cu_ApplyDescription spec \<or> ''description'' \<in> set paths,
                         cu_ApplyLabels := cu_ApplyLabels spec \<or> ''labels'' \<in> set paths,
                         cu_ApplyVisibility := cu_ApplyVisibility spec \<or> ''visibility'' \<in> set paths\<rparr>))))"

definition resolveUpdateMask :: "corelib \<Rightarrow> update_spec \<Rightarrow> gerror + update_spec" where
  "resolveUpdateMask L spec =
     (let paths = us_Mask spec in
      case cl_UpdateMask L ''update_mask'' paths knownUpdateFields of Some e \<Rightarrow> Inl e
      | None \<Rightarrow> (case first_immutable immutableUpdateFields paths of Some e \<Rightarrow> Inl e
      | None \<Rightarrow>
         (if paths = []
          then Inr (spec\<lparr>us_ApplyName := us_Name spec \<noteq> [], us_ApplyDescription := True,
                 us_ApplyLabels := True,
                 us_ApplyDefaultVisibility := us_DefaultVisibility spec \<noteq> VisibilityUnspecified\<rparr>)
          else Inr (spec\<lparr>us_ApplyName := us_ApplyName spec \<or> ''name'' \<in> set paths,
                 us_ApplyDescription := us_ApplyDescription spec \<or> ''description'' \<in> set paths,
                 us_ApplyLabels := us_ApplyLabels spec \<or> ''labels'' \<in> set paths,
                 us_ApplyDefaultVisibility := us_ApplyDefaultVisibility spec \<or>
                   ''default_visibility'' \<in> set paths \<or> ''defaultVisibility'' \<in> set paths\<rparr>))))"

text \<open>At most 256 runes, and no control character.\<close>

definition validateRepoDescription :: "corelib \<Rightarrow> string \<Rightarrow> gerror option" where
  "validateRepoDescription L description =
     (case cl_Description L ''description'' description of Some e \<Rightarrow> Some e
      | None \<Rightarrow> if \<exists>r \<in> set (runes description). r < 0x20
          then Some (failInvalidArg ''description contains control characters'') else None)"

definition resolveVisibility :: "int \<Rightarrow> int \<Rightarrow> int" where
  "resolveVisibility requested registryDefault =
     (if requested = VisibilityPrivate \<or> requested = VisibilityPublic then requested
      else if registryDefault = VisibilityPublic then VisibilityPublic else VisibilityPrivate)"

section \<open>Opening an operation\<close>

text \<open>\<open>operations.NewFromContext\<close>, then the pending operation is persisted; from here on a worker
  must finish it.\<close>

definition openOperation ::
  "'x usecase \<Rightarrow> principal \<Rightarrow> string \<Rightarrow> metadata \<Rightarrow> ('x world, gerror + operation) state" where
  "openOperation u pr description meta =
     andThen (on_env (mapped (ops_NewFromContext (u_ops u) pr (u_PrefixOperationReg u) description meta)))
       (\<lambda>op. andThen (on_env (mapped (ops_CreateWithPrincipal (u_ops u) op pr)))
       (\<lambda>_. do { State_Monad.update (\<lambda>w. w\<lparr>w_opened := w_opened w @ [op_ID op]\<rparr>);
                 State_Monad.return (Inr op) }))"

definition Run :: "string \<Rightarrow> job \<Rightarrow> ('x world, unit) state" where
  "Run i j = State_Monad.update (\<lambda>w. w\<lparr>w_jobs := w_jobs w @ [(i, j)]\<rparr>)"

text \<open>The common end of the asynchronous requests: open the operation, start the worker, answer.\<close>

definition submit ::
  "'x usecase \<Rightarrow> principal \<Rightarrow> string \<Rightarrow> metadata \<Rightarrow> job \<Rightarrow> ('x world, gerror + operation) state" where
  "submit u pr description meta j = andThen (openOperation u pr description meta)
     (\<lambda>op. do { Run (op_ID op) j; State_Monad.return (Inr op) })"

section \<open>Registries\<close>

definition ProtoRegistry :: "'x usecase \<Rightarrow> registry \<Rightarrow> pb_registry" where
  "ProtoRegistry u r = \<lparr>br_id = r_id r, br_project_id = r_project_id r,
     br_created_at = Truncate (r_created_at r), br_name = r_name r, br_description = r_description r,
     br_labels = r_labels r, br_endpoint = EndpointFor u (r_id r), br_status = r_status r,
     br_default_visibility = r_default_visibility r\<rparr>"

definition registryAny :: "'x usecase \<Rightarrow> registry \<Rightarrow> any" where
  "registryAny u r = AnyRegistry (ProtoRegistry u r)"

definition projectExistsErr :: "string \<Rightarrow> gerror \<Rightarrow> gerror" where
  "projectExistsErr projectID err =
     (if is_sentinel err ErrInvalidArg \<or> is_sentinel err ErrNotFound
      then failInvalidArg (''project '' @ projectID @ '' not found'')
      else if is_sentinel err ErrUnavailable then failUnavailable ''project existence check unavailable''
      else mapRepoErr err)"

definition Create :: "'x usecase \<Rightarrow> principal \<Rightarrow> create_spec \<Rightarrow> ('x world, gerror + operation) state" where
  "Create u pr spec =
     andThen (guard_ok (assertWired u)) (\<lambda>_.
     andThen (guard_ok (if cs_ProjectID spec = [] then Some (failInvalidArg ''projectId is required'') else None)) (\<lambda>_.
     andThen (guard_ok (cl_Labels (u_corelib u) ''labels'' (cs_Labels spec))) (\<lambda>_.
     do { i \<leftarrow> on_env (u_NewID u (cl_PrefixRegistry (u_corelib u)));
       (let reg = \<lparr>r_id = i, r_project_id = cs_ProjectID spec, r_name = cs_Name spec,
                   r_description = cs_Description spec, r_labels = cs_Labels spec,
                   r_status = RegistryStatusActive, r_created_at = 0,
                   r_default_visibility = VisibilityUnspecified\<rparr> in
        andThen (guard_ok (as_invalid ''Illegal argument: '' (registry_validate reg))) (\<lambda>_.
        andThen (on_env (do { r \<leftarrow> u_ProjectExists u (cs_ProjectID spec);
                              State_Monad.return (map_err (projectExistsErr (cs_ProjectID spec)) r) })) (\<lambda>_.
        andThen (openOperation u pr (''Create Registry '' @ cs_Name spec) (CreateRegistryMetadata i)) (\<lambda>op.
        do { created \<leftarrow> on_env (on_db (repo_Insert reg (RegisterIntentForCreate reg (pr_type pr) (pr_id pr))));
             (case created of
                Inl err \<Rightarrow>
                  (let syncErr = (if is_sentinel err ErrAlreadyExists
                       then failAlreadyExists (''registry '' @ cs_Name spec @ '' already exists'')
                       else mapRepoErr err) in
                   do { Run (op_ID op) (JReturn (Inl syncErr)); State_Monad.return (Inl syncErr) })
              | Inr row \<Rightarrow>
                  do { Run (op_ID op) (JReturn (Inr (registryAny u row))); State_Monad.return (Inr op) }) })))) })))"

definition mirrorIntent :: "registry \<Rightarrow> register_intent" where
  "mirrorIntent r = RegisterIntentForUpdate r"

definition Update :: "'x usecase \<Rightarrow> principal \<Rightarrow> update_spec \<Rightarrow> ('x world, gerror + operation) state" where
  "Update u pr spec =
     andThen (guard_ok (assertWired u)) (\<lambda>_.
     andThen (guard_ok (if us_RegistryID spec = [] then Some (failInvalidArg ''registryId is required'') else None)) (\<lambda>_.
     andThen (guard_ok (ValidateRegistryID (u_corelib u) (us_RegistryID spec))) (\<lambda>_.
     andThen (State_Monad.return (resolveUpdateMask (u_corelib u) spec)) (\<lambda>spec.
     andThen (guard_ok (if us_ApplyName spec
         then as_invalid ''Illegal argument: '' (ValidateName ''name'' (us_Name spec)) else None)) (\<lambda>_.
     andThen (guard_ok (if us_ApplyDescription spec
         then cl_Description (u_corelib u) ''description'' (us_Description spec) else None)) (\<lambda>_.
     andThen (guard_ok (if us_ApplyLabels spec
         then cl_Labels (u_corelib u) ''labels'' (us_Labels spec) else None)) (\<lambda>_.
     andThen (guard_ok (if us_ApplyDefaultVisibility spec
         then as_invalid ''Illegal argument: '' (visibility_validate (us_DefaultVisibility spec)) else None)) (\<lambda>_.
     submit u pr (''Update Registry '' @ us_RegistryID spec) (UpdateRegistryMetadata (us_RegistryID spec))
       (JUpdate spec)))))))))"

definition doUpdate :: "'x usecase \<Rightarrow> update_spec \<Rightarrow> ('x env, gerror + any) state" where
  "doUpdate u spec = andThen (mapped (on_db (repo_Update spec mirrorIntent)))
     (\<lambda>updated. State_Monad.return (Inr (registryAny u updated)))"

definition Delete :: "'x usecase \<Rightarrow> principal \<Rightarrow> string \<Rightarrow> ('x world, gerror + operation) state" where
  "Delete u pr registryID =
     andThen (guard_ok (assertWired u)) (\<lambda>_.
     andThen (guard_ok (if registryID = [] then Some (failInvalidArg ''registryId is required'') else None)) (\<lambda>_.
     andThen (guard_ok (ValidateRegistryID (u_corelib u) registryID)) (\<lambda>_.
     andThen (on_env (mapped (z_NamespaceEmpty (u_zot u) registryID))) (\<lambda>emp.
     andThen (guard_ok (if emp then None else Some (failFailedPrecondition ''registry is not empty''))) (\<lambda>_.
     submit u pr (''Delete Registry '' @ registryID) (DeleteRegistryMetadata registryID) (JDelete registryID))))))"

text \<open>A not-found error of a step that another worker completed first is success.\<close>

definition done_if_absent :: "gerror + 'a \<Rightarrow> ('x env, gerror + any) state \<Rightarrow> ('x env, gerror + any) state" where
  "done_if_absent r m = (case r of
       Inl e \<Rightarrow> State_Monad.return (if is_sentinel e ErrNotFound then Inr AnyEmpty else Inl (mapRepoErr e))
     | Inr _ \<Rightarrow> m)"

definition doDelete :: "'x usecase \<Rightarrow> string \<Rightarrow> ('x env, gerror + any) state" where
  "doDelete u registryID = do {
     marked \<leftarrow> on_db (repo_MarkDeleting registryID);
     (case marked of
        Inl e \<Rightarrow> State_Monad.return (if is_sentinel e ErrNotFound then Inr AnyEmpty else Inl (mapRepoErr e))
      | Inr row \<Rightarrow>
          andThen (mapped (z_NamespaceEmpty (u_zot u) registryID)) (\<lambda>emp.
          andThen (guard_ok (if emp then None else Some (failFailedPrecondition ''registry is not empty''))) (\<lambda>_.
          do { rerr \<leftarrow> z_RemoveNamespace (u_zot u) registryID;
               derr \<leftarrow> on_db (repo_Delete registryID (UnregisterIntentForDelete registryID (r_project_id row)));
               done_if_absent derr (State_Monad.return (Inr AnyEmpty)) }))) }"

definition GetRegistry :: "'x usecase \<Rightarrow> string \<Rightarrow> ('x env, gerror + registry) state" where
  "GetRegistry u i = andThen (guard_ok (assertWired u)) (\<lambda>_.
     andThen (guard_ok (ValidateRegistryID (u_corelib u) i)) (\<lambda>_. mapped (on_db (repo_Get i))))"

definition ListRegistries :: "'x usecase \<Rightarrow> list_query \<Rightarrow> ('x env, gerror + registry list \<times> string) state" where
  "ListRegistries u q = andThen (guard_ok (assertWired u)) (\<lambda>_.
     andThen (State_Monad.return (validatePageSize (u_corelib u) (lq_PageSize q))) (\<lambda>n.
     mapped (u_reader_List u (q\<lparr>lq_PageSize := n\<rparr>))))"

definition ListOperations :: "'x usecase \<Rightarrow> operations_query \<Rightarrow> ('x env, gerror + operation list \<times> string) state" where
  "ListOperations u q = andThen (guard_ok (assertWired u)) (\<lambda>_.
     andThen (guard_ok (if oq_RegistryID q = [] then Some (failInvalidArg ''registry_id is required'') else None)) (\<lambda>_.
     andThen (guard_ok (ValidateRegistryID (u_corelib u) (oq_RegistryID q))) (\<lambda>_.
     mapped (ops_List (u_ops u) q))))"

definition Stats :: "'x usecase \<Rightarrow> string \<Rightarrow> ('x env, gerror + registry_stats) state" where
  "Stats u registryID = andThen (guard_ok (assertWired u)) (\<lambda>_.
     andThen (guard_ok (ValidateRegistryID (u_corelib u) registryID)) (\<lambda>_. z_Stats (u_zot u) registryID))"

section \<open>Tags and garbage collection\<close>

definition ListTags :: "'x usecase \<Rightarrow> tag_list_query \<Rightarrow> ('x env, gerror + tag list \<times> string) state" where
  "ListTags u q = andThen (guard_ok (assertWired u)) (\<lambda>_. z_ListTags (u_zot u) q)"

definition DeleteTag ::
  "'x usecase \<Rightarrow> principal \<Rightarrow> string \<Rightarrow> string \<Rightarrow> string \<Rightarrow> ('x world, gerror + operation) state" where
  "DeleteTag u pr registryID repository tag =
     andThen (guard_ok (assertWired u)) (\<lambda>_.
     andThen (guard_ok (ValidateRegistryID (u_corelib u) registryID)) (\<lambda>_.
     andThen (guard_ok (if repository = [] then Some (failInvalidArg ''repository is required'') else None)) (\<lambda>_.
     andThen (guard_ok (if tag = [] then Some (failInvalidArg ''tag is required'') else None)) (\<lambda>_.
     submit u pr (''Delete tag '' @ tag @ '' of '' @ registryID @ ''/'' @ repository)
       (DeleteTagMetadata registryID repository tag) (JDeleteTag registryID repository tag)))))"

definition unregisterRepoIfEmpty :: "'x usecase \<Rightarrow> string \<Rightarrow> string \<Rightarrow> ('x env, gerror + unit) state" where
  "unregisterRepoIfEmpty u registryID repository =
     (if ''repoReg'' \<in> set (u_nil u) then State_Monad.return (Inr ())
      else andThen (mapped (z_ListTags (u_zot u) \<lparr>tq_RegistryID = registryID, tq_Repository = repository,
              tq_PageSize = 0, tq_PageToken = []\<rparr>)) (\<lambda>page.
        if length (fst page) > 0 then State_Monad.return (Inr ())
        else mapped (on_db (UnregisterRepository (UnregisterIntentForRepo registryID repository)))))"

definition doDeleteTag :: "'x usecase \<Rightarrow> string \<Rightarrow> string \<Rightarrow> string \<Rightarrow> ('x env, gerror + any) state" where
  "doDeleteTag u registryID repository tag =
     andThen (mapped (z_DeleteTag (u_zot u) registryID repository tag)) (\<lambda>_.
     andThen (unregisterRepoIfEmpty u registryID repository) (\<lambda>_. State_Monad.return (Inr AnyEmpty)))"

definition TriggerGC :: "'x usecase \<Rightarrow> principal \<Rightarrow> string \<Rightarrow> ('x world, gerror + operation) state" where
  "TriggerGC u pr registryID =
     andThen (guard_ok (assertWired u)) (\<lambda>_.
     andThen (guard_ok (ValidateRegistryID (u_corelib u) registryID)) (\<lambda>_.
     submit u pr (''Garbage-collect Registry '' @ registryID) (TriggerGarbageCollectionMetadata registryID)
       (JTriggerGC registryID)))"

definition doTriggerGC :: "'x usecase \<Rightarrow> string \<Rightarrow> ('x env, gerror + any) state" where
  "doTriggerGC u registryID = andThen (mapped (z_TriggerGC (u_zot u) registryID))
     (\<lambda>_. State_Monad.return (Inr AnyEmpty))"

end
