(* ===== verification/RepoUseCases.thy ===== *)
theory RepoUseCases
  imports UseCases
begin

text \<open>
  The use cases on repositories: the durable overlay of \<open>repository_configs\<close> joined with the
  engine's projection (\<open>repository.go\<close>, \<open>create_repository.go\<close>, \<open>update_repository.go\<close>,
  \<open>delete_repository.go\<close>, \<open>rename_repository.go\<close>, \<open>registry.go\<close>), and then the system: requests
  open operations and start workers, workers run in any order.
\<close>

section \<open>Overlay and projection\<close>

text \<open>\<open>mergeRepository\<close> on optional (nil) overlay and projection.\<close>

definition with_projection :: "repository \<Rightarrow> repository option \<Rightarrow> repository" where
  "with_projection repo proj = (case proj of None \<Rightarrow> repo
     | Some p \<Rightarrow> repo\<lparr>p_tag_count := p_tag_count p, p_size_bytes := p_size_bytes p,
         p_updated_at := p_updated_at p, p_artifact_type := p_artifact_type p,
         p_artifact_types := p_artifact_types p, p_last_pulled_at := p_last_pulled_at p,
         p_download_count := p_download_count p\<rparr>)"

definition bare_repository :: "string \<Rightarrow> string \<Rightarrow> repo_config \<Rightarrow> repository" where
  "bare_repository reg name c = \<lparr>p_registry_id = reg, p_name = name, p_description = c_description c,
     p_labels = c_labels c, p_visibility = c_visibility c, p_created_at = c_created_at c,
     p_tag_count = 0, p_size_bytes = 0, p_updated_at = 0, p_artifact_type = 0, p_artifact_types = [],
     p_last_pulled_at = 0, p_download_count = 0\<rparr>"

definition mergeRepository ::
  "string \<Rightarrow> string \<Rightarrow> repo_config option \<Rightarrow> repository option \<Rightarrow> repository option" where
  "mergeRepository reg name overlay proj = (case overlay of
       Some c \<Rightarrow> Some (with_projection (bare_repository reg name c) proj)
     | None \<Rightarrow> (case proj of
           Some p \<Rightarrow> if p_tag_count p > 0
             then Some (p\<lparr>p_registry_id := reg, p_name := name, p_visibility := VisibilityPrivate\<rparr>)
             else None
         | None \<Rightarrow> None))"

definition ProtoRepository :: "repository \<Rightarrow> pb_repository" where
  "ProtoRepository r = \<lparr>bp_registry_id = p_registry_id r, bp_name = p_name r,
     bp_description = p_description r, bp_labels = p_labels r, bp_visibility = p_visibility r,
     bp_created_at = Truncate (p_created_at r), bp_tag_count = p_tag_count r,
     bp_size_bytes = p_size_bytes r, bp_updated_at = Truncate (p_updated_at r),
     bp_artifact_type = p_artifact_type r, bp_artifact_types = p_artifact_types r,
     bp_last_pulled_at = Truncate (p_last_pulled_at r), bp_download_count = p_download_count r\<rparr>"

text \<open>A nil repository is packed as an empty message.\<close>

definition empty_repository :: pb_repository where
  "empty_repository = \<lparr>bp_registry_id = [], bp_name = [], bp_description = [], bp_labels = [],
     bp_visibility = 0, bp_created_at = None, bp_tag_count = 0, bp_size_bytes = 0,
     bp_updated_at = None, bp_artifact_type = 0, bp_artifact_types = [], bp_last_pulled_at = None,
     bp_download_count = 0\<rparr>"

definition repositoryAny :: "repository option \<Rightarrow> any" where
  "repositoryAny r = AnyRepository (case r of None \<Rightarrow> empty_repository | Some r \<Rightarrow> ProtoRepository r)"

text \<open>\<open>GetConfig\<close> where an absent row is \<open>None\<close> and any other error is mapped.\<close>

definition overlay_of :: "string \<Rightarrow> string \<Rightarrow> ('x env, gerror + repo_config option) state" where
  "overlay_of reg name = do { r \<leftarrow> on_db (GetConfig reg name);
     State_Monad.return (case r of
         Inr c \<Rightarrow> Inr (Some c)
       | Inl e \<Rightarrow> if is_sentinel e ErrNotFound then Inr None else Inl (mapRepoErr e)) }"

definition GetRepository :: "'x usecase \<Rightarrow> string \<Rightarrow> string \<Rightarrow> ('x env, gerror + repository) state" where
  "GetRepository u reg name =
     andThen (guard_ok (assertRepoWired u)) (\<lambda>_.
     andThen (guard_ok (ValidateRegistryID (u_corelib u) reg)) (\<lambda>_.
     andThen (guard_ok (as_invalid [] (ValidateRepositoryName ''repository'' name))) (\<lambda>_.
     andThen (overlay_of reg name) (\<lambda>overlay.
     andThen (mapped (z_RepositoryProjection (u_zot u) reg name)) (\<lambda>proj.
     State_Monad.return (case mergeRepository reg name overlay proj of
         None \<Rightarrow> Inl (failNotFound ''repository not found'') | Some r \<Rightarrow> Inr r))))))"

text \<open>The rows of a projection window with their overlay, and the overlay rows outside it.\<close>

definition enrich :: "repo_config list \<Rightarrow> repository \<Rightarrow> repository" where
  "enrich configs r = (case find (\<lambda>c. c_name c = p_name r) configs of
       Some c \<Rightarrow> r\<lparr>p_description := c_description c, p_labels := c_labels c,
         p_visibility := c_visibility c, p_created_at := c_created_at c\<rparr>
     | None \<Rightarrow> r\<lparr>p_visibility := VisibilityPrivate\<rparr>)"

fun durable_only :: "'x usecase \<Rightarrow> string \<Rightarrow> string list \<Rightarrow> repo_config list \<Rightarrow> ('x env, gerror + repository list) state" where
  "durable_only u reg inWindow [] = State_Monad.return (Inr [])"
| "durable_only u reg inWindow (c # cs) =
     (if c_name c \<in> set inWindow then durable_only u reg inWindow cs
      else andThen (mapped (z_RepositoryProjection (u_zot u) reg (c_name c))) (\<lambda>proj.
        andThen (durable_only u reg inWindow cs) (\<lambda>rest.
          State_Monad.return (Inr (with_projection (bare_repository reg (c_name c) c) proj # rest)))))"

definition ListRepositories ::
  "'x usecase \<Rightarrow> repo_list_query \<Rightarrow> ('x env, gerror + repository list \<times> string) state" where
  "ListRepositories u q =
     andThen (guard_ok (assertRepoWired u)) (\<lambda>_.
     andThen (z_ListRepositories (u_zot u) q) (\<lambda>page.
     andThen (mapped (on_db (ListConfigs (rq_RegistryID q)))) (\<lambda>configs.
     let window = map (enrich configs) (fst page) in
     if rq_PageToken q = []
     then andThen (durable_only u (rq_RegistryID q) (map p_name (fst page)) configs)
       (\<lambda>extra. State_Monad.return (Inr (window @ extra, snd page)))
     else State_Monad.return (Inr (window, snd page)))))"

definition ListReferrers :: "'x usecase \<Rightarrow> referrers_query \<Rightarrow> ('x env, gerror + referrer list) state" where
  "ListReferrers u q =
     andThen (guard_ok (assertRepoWired u)) (\<lambda>_.
     andThen (guard_ok (ValidateRegistryID (u_corelib u) (fq_RegistryID q))) (\<lambda>_.
     andThen (guard_ok (as_invalid [] (ValidateRepositoryName ''repository'' (fq_Repository q)))) (\<lambda>_.
     andThen (guard_ok (as_invalid [] (ValidateSubjectDigest (fq_SubjectDigest q)))) (\<lambda>_.
     mapped (z_ListReferrers (u_zot u) (fq_RegistryID q) (fq_Repository q) (fq_SubjectDigest q) (fq_ArtifactType q))))))"

section \<open>Create\<close>

definition createRepoIntents :: "string \<Rightarrow> string \<Rightarrow> string \<Rightarrow> principal \<Rightarrow> int \<Rightarrow> outbox_intent list" where
  "createRepoIntents reg name projectID pr visibility =
     (FGAEventRegister, RegisterIntentForRepoPush reg name projectID
        (FGASubjectFromPrincipal (pr_type pr) (pr_id pr))) #
     (if visibility = VisibilityPublic
      then [(FGAEventRegister, RegisterIntentForRepoPublicGrant reg name)] else [])"

definition CreateRepository ::
  "'x usecase \<Rightarrow> principal \<Rightarrow> create_repo_spec \<Rightarrow> ('x world, gerror + operation) state" where
  "CreateRepository u pr spec =
     andThen (guard_ok (assertRepoWired u)) (\<lambda>_.
     andThen (guard_ok (ValidateRegistryID (u_corelib u) (rs_RegistryID spec))) (\<lambda>_.
     andThen (guard_ok (as_invalid [] (ValidateRepositoryName ''repository'' (rs_Repository spec)))) (\<lambda>_.
     andThen (guard_ok (validateRepoDescription (u_corelib u) (rs_Description spec))) (\<lambda>_.
     andThen (guard_ok (cl_Labels (u_corelib u) ''labels'' (rs_Labels spec))) (\<lambda>_.
     andThen (on_env (mapped (on_db (repo_Get (rs_RegistryID spec))))) (\<lambda>reg.
     let visibility = resolveVisibility (rs_Visibility spec) (r_default_visibility reg);
         cfg = \<lparr>c_registry_id = rs_RegistryID spec, c_name = rs_Repository spec,
                c_description = rs_Description spec, c_labels = rs_Labels spec,
                c_visibility = visibility, c_created_at = 0\<rparr> in
     andThen (openOperation u pr (''Create Repository '' @ rs_RegistryID spec @ ''/'' @ rs_Repository spec)
       (CreateRepositoryMetadata (rs_RegistryID spec) (rs_Repository spec))) (\<lambda>op.
     do { created \<leftarrow> on_env (on_db (InsertConfig cfg
            (createRepoIntents (rs_RegistryID spec) (rs_Repository spec) (r_project_id reg) pr visibility)));
          (case created of
             Inl ierr \<Rightarrow>
               (let syncErr = (if is_sentinel ierr ErrAlreadyExists
                    then failAlreadyExists ''repository already exists'' else mapRepoErr ierr) in
                do { Run (op_ID op) (JReturn (Inl syncErr)); State_Monad.return (Inl syncErr) })
           | Inr row \<Rightarrow>
               do { Run (op_ID op) (JCreateRepository spec row); State_Monad.return (Inr op) }) })))))))"

definition finishCreateRepository :: "'x usecase \<Rightarrow> create_repo_spec \<Rightarrow> repo_config \<Rightarrow> ('x env, gerror + any) state" where
  "finishCreateRepository u spec created =
     andThen (mapped (z_RepositoryProjection (u_zot u) (rs_RegistryID spec) (rs_Repository spec))) (\<lambda>proj.
     State_Monad.return (Inr (repositoryAny
       (mergeRepository (rs_RegistryID spec) (rs_Repository spec) (Some created) proj))))"

section \<open>Update\<close>

definition updateGovernanceIntents :: "config_update \<Rightarrow> outbox_intent list" where
  "updateGovernanceIntents spec =
     (if \<not> cu_ApplyVisibility spec then []
      else if cu_Visibility spec = VisibilityPublic
      then [(FGAEventRegister, RegisterIntentForRepoPublicGrant (cu_RegistryID spec) (cu_Name spec))]
      else [(FGAEventUnregister, UnregisterIntentForRepoPublicGrant (cu_RegistryID spec) (cu_Name spec))])"

definition UpdateRepository ::
  "'x usecase \<Rightarrow> principal \<Rightarrow> update_repo_spec \<Rightarrow> ('x world, gerror + operation) state" where
  "UpdateRepository u pr spec =
     andThen (guard_ok (assertRepoWired u)) (\<lambda>_.
     andThen (guard_ok (ValidateRegistryID (u_corelib u) (ur_RegistryID spec))) (\<lambda>_.
     andThen (guard_ok (as_invalid [] (ValidateRepositoryName ''repository'' (ur_Repository spec)))) (\<lambda>_.
     andThen (State_Monad.return (resolveRepoUpdateMask (u_corelib u)
       \<lparr>cu_RegistryID = ur_RegistryID spec, cu_Name = ur_Repository spec,
        cu_Description = ur_Description spec, cu_Labels = ur_Labels spec,
        cu_Visibility = ur_Visibility spec, cu_ApplyDescription = False, cu_ApplyLabels = False,
        cu_ApplyVisibility = False\<rparr> (ur_Mask spec))) (\<lambda>cfgSpec.
     andThen (guard_ok (if cu_ApplyDescription cfgSpec
         then validateRepoDescription (u_corelib u) (cu_Description cfgSpec) else None)) (\<lambda>_.
     andThen (guard_ok (if cu_ApplyLabels cfgSpec
         then cl_Labels (u_corelib u) ''labels'' (cu_Labels cfgSpec) else None)) (\<lambda>_.
     andThen (guard_ok (if cu_ApplyVisibility cfgSpec
         then as_invalid ''Illegal argument: '' (visibility_validate (cu_Visibility cfgSpec)) else None)) (\<lambda>_.
     submit u pr (''Update Repository '' @ ur_RegistryID spec @ ''/'' @ ur_Repository spec)
       (UpdateRepositoryMetadata (ur_RegistryID spec) (ur_Repository spec))
       (JUpdateRepository cfgSpec pr))))))))"

definition applyRepoUpdate :: "'x usecase \<Rightarrow> config_update \<Rightarrow> principal \<Rightarrow> ('x env, gerror + repo_config) state" where
  "applyRepoUpdate u spec pr = do {
     updated \<leftarrow> on_db (UpdateConfig spec (updateGovernanceIntents spec));
     (case updated of
        Inr c \<Rightarrow> State_Monad.return (Inr c)
      | Inl err \<Rightarrow>
         (if \<not> is_sentinel err ErrNotFound then State_Monad.return (Inl (mapRepoErr err))
          else andThen (mapped (on_db (repo_Get (cu_RegistryID spec)))) (\<lambda>reg.
            let visibility = (if cu_ApplyVisibility spec then cu_Visibility spec else r_default_visibility reg);
                visibility = resolveVisibility visibility (r_default_visibility reg);
                promoted = \<lparr>c_registry_id = cu_RegistryID spec, c_name = cu_Name spec,
                            c_description = cu_Description spec, c_labels = cu_Labels spec,
                            c_visibility = visibility, c_created_at = 0\<rparr>;
                promoteIntents = (if visibility = VisibilityPublic
                  then [(FGAEventRegister, RegisterIntentForRepoPublicGrant (cu_RegistryID spec) (cu_Name spec))]
                  else []) in
            do { inserted \<leftarrow> on_db (InsertConfig promoted promoteIntents);
                 (case inserted of
                    Inr c \<Rightarrow> State_Monad.return (Inr c)
                  | Inl ierr \<Rightarrow>
                     (if is_sentinel ierr ErrAlreadyExists
                      then mapped (on_db (UpdateConfig spec (updateGovernanceIntents spec)))
                      else State_Monad.return (Inl (mapRepoErr ierr)))) }))) }"

definition doUpdateRepository :: "'x usecase \<Rightarrow> config_update \<Rightarrow> principal \<Rightarrow> ('x env, gerror + any) state" where
  "doUpdateRepository u spec pr =
     andThen (applyRepoUpdate u spec pr) (\<lambda>updated.
     andThen (mapped (z_RepositoryProjection (u_zot u) (cu_RegistryID spec) (cu_Name spec))) (\<lambda>proj.
     State_Monad.return (Inr (repositoryAny
       (mergeRepository (cu_RegistryID spec) (cu_Name spec) (Some updated) proj)))))"

section \<open>Delete\<close>

definition DeleteRepository ::
  "'x usecase \<Rightarrow> principal \<Rightarrow> string \<Rightarrow> string \<Rightarrow> ('x world, gerror + operation) state" where
  "DeleteRepository u pr reg name =
     andThen (guard_ok (assertRepoWired u)) (\<lambda>_.
     andThen (guard_ok (ValidateRegistryID (u_corelib u) reg)) (\<lambda>_.
     andThen (guard_ok (as_invalid [] (ValidateRepositoryName ''repository'' name))) (\<lambda>_.
     submit u pr (''Delete Repository '' @ reg @ ''/'' @ name) (DeleteRepositoryMetadata reg name)
       (JDeleteRepository reg name))))"

definition deleteRepoIntents :: "string \<Rightarrow> string \<Rightarrow> outbox_intent list" where
  "deleteRepoIntents reg name =
     [(FGAEventUnregister, UnregisterIntentForRepo reg name),
      (FGAEventUnregister, UnregisterIntentForRepoPublicGrant reg name)]"

definition doDeleteRepository :: "'x usecase \<Rightarrow> string \<Rightarrow> string \<Rightarrow> ('x env, gerror + any) state" where
  "doDeleteRepository u reg name =
     andThen (mapped (z_RepositoryEmpty (u_zot u) reg name)) (\<lambda>emp.
     andThen (guard_ok (if emp then None else Some (failFailedPrecondition ''repository is not empty''))) (\<lambda>_.
     do { derr \<leftarrow> on_db (DeleteConfig reg name (deleteRepoIntents reg name));
          done_if_absent derr (State_Monad.return (Inr AnyEmpty)) }))"

section \<open>Rename\<close>

text \<open>The arrow of the description is U+2192.\<close>

definition RenameRepository ::
  "'x usecase \<Rightarrow> principal \<Rightarrow> string \<Rightarrow> string \<Rightarrow> string \<Rightarrow> ('x world, gerror + operation) state" where
  "RenameRepository u pr reg name newName =
     andThen (guard_ok (assertRepoWired u)) (\<lambda>_.
     andThen (guard_ok (ValidateRegistryID (u_corelib u) reg)) (\<lambda>_.
     andThen (guard_ok (as_invalid [] (ValidateRepositoryName ''repository'' name))) (\<lambda>_.
     andThen (guard_ok (as_invalid [] (ValidateRepositoryName ''new_name'' newName))) (\<lambda>_.
     andThen (guard_ok (if newName = name
         then Some (failInvalidArg ''new name must differ from current name'') else None)) (\<lambda>_.
     submit u pr (''Rename Repository '' @ reg @ ''/'' @ name @ [CHR '' '', CHR 0xE2, CHR 0x86, CHR 0x92, CHR '' ''] @ newName)
       (RenameRepositoryMetadata reg name newName) (JRenameRepository reg name newName pr))))))"

definition assertTargetFree :: "'x usecase \<Rightarrow> string \<Rightarrow> string \<Rightarrow> ('x env, gerror + unit) state" where
  "assertTargetFree u reg newName =
     andThen (overlay_of reg newName) (\<lambda>overlay.
     if overlay \<noteq> None then State_Monad.return (Inl (failAlreadyExists ''repository already exists''))
     else andThen (mapped (z_RepositoryProjection (u_zot u) reg newName)) (\<lambda>proj.
       State_Monad.return (case proj of
           Some p \<Rightarrow> if p_tag_count p > 0 then Inl (failAlreadyExists ''repository already exists'') else Inr ()
         | None \<Rightarrow> Inr ())))"

definition renameIntents ::
  "string \<Rightarrow> string \<Rightarrow> string \<Rightarrow> string \<Rightarrow> principal \<Rightarrow> int \<Rightarrow> outbox_intent list" where
  "renameIntents reg oldName newName projectID pr visibility =
     [(FGAEventRegister, RegisterIntentForRepoPush reg newName projectID
         (FGASubjectFromPrincipal (pr_type pr) (pr_id pr))),
      (FGAEventUnregister, UnregisterIntentForRepo reg oldName),
      (FGAEventUnregister, UnregisterIntentForRepoPublicGrant reg oldName)] @
     (if visibility = VisibilityPublic
      then [(FGAEventRegister, RegisterIntentForRepoPublicGrant reg newName)] else [])"

definition doRename ::
  "'x usecase \<Rightarrow> string \<Rightarrow> string \<Rightarrow> string \<Rightarrow> principal \<Rightarrow> ('x env, gerror + repository option) state" where
  "doRename u reg name newName pr =
     andThen (overlay_of reg name) (\<lambda>overlay.
     andThen (assertTargetFree u reg newName) (\<lambda>_.
     andThen (mapped (z_RenameRepository (u_zot u) reg name newName)) (\<lambda>_.
     andThen (mapped (on_db (repo_Get reg))) (\<lambda>r.
     let visibility = resolveVisibility
           (case overlay of Some c \<Rightarrow> c_visibility c | None \<Rightarrow> r_default_visibility r) (r_default_visibility r);
         intents = renameIntents reg name newName (r_project_id r) pr visibility in
     do { written \<leftarrow> (case overlay of
            Some c \<Rightarrow> on_db (RekeyConfig reg name newName intents)
          | None \<Rightarrow> on_db (InsertConfig \<lparr>c_registry_id = reg, c_name = newName, c_description = [],
              c_labels = [], c_visibility = visibility, c_created_at = 0\<rparr> intents));
          (case written of
             Inl werr \<Rightarrow> State_Monad.return (Inl (if is_sentinel werr ErrAlreadyExists
               then failAlreadyExists ''repository already exists'' else mapRepoErr werr))
           | Inr row \<Rightarrow>
               andThen (mapped (z_RepositoryProjection (u_zot u) reg newName)) (\<lambda>proj.
               State_Monad.return (Inr (mergeRepository reg newName (Some row) proj)))) }))))"

definition doRenameRepository ::
  "'x usecase \<Rightarrow> string \<Rightarrow> string \<Rightarrow> string \<Rightarrow> principal \<Rightarrow> ('x env, gerror + any) state" where
  "doRenameRepository u reg name newName pr =
     andThen (doRename u reg name newName pr) (\<lambda>r. State_Monad.return (Inr (repositoryAny r)))"

section \<open>The system\<close>

text \<open>The body of a started worker.\<close>

fun run_job :: "'x usecase \<Rightarrow> job \<Rightarrow> ('x env, gerror + any) state" where
  "run_job u (JReturn r) = State_Monad.return r"
| "run_job u (JUpdate spec) = doUpdate u spec"
| "run_job u (JDelete reg) = doDelete u reg"
| "run_job u (JDeleteTag reg repo tag) = doDeleteTag u reg repo tag"
| "run_job u (JTriggerGC reg) = doTriggerGC u reg"
| "run_job u (JCreateRepository spec row) = finishCreateRepository u spec row"
| "run_job u (JUpdateRepository spec pr) = doUpdateRepository u spec pr"
| "run_job u (JDeleteRepository reg name) = doDeleteRepository u reg name"
| "run_job u (JRenameRepository reg name newName pr) = doRenameRepository u reg name newName pr"

text \<open>The requests that open an operation.\<close>

datatype rpc = RCreate create_spec | RUpdate update_spec | RDelete string
  | RDeleteTag string string string | RTriggerGC string | RCreateRepository create_repo_spec
  | RUpdateRepository update_repo_spec | RDeleteRepository string string
  | RRenameRepository string string string

fun handle :: "'x usecase \<Rightarrow> principal \<Rightarrow> rpc \<Rightarrow> ('x world, gerror + operation) state" where
  "handle u pr (RCreate spec) = Create u pr spec"
| "handle u pr (RUpdate spec) = Update u pr spec"
| "handle u pr (RDelete reg) = Delete u pr reg"
| "handle u pr (RDeleteTag reg repo tag) = DeleteTag u pr reg repo tag"
| "handle u pr (RTriggerGC reg) = TriggerGC u pr reg"
| "handle u pr (RCreateRepository spec) = CreateRepository u pr spec"
| "handle u pr (RUpdateRepository spec) = UpdateRepository u pr spec"
| "handle u pr (RDeleteRepository reg name) = DeleteRepository u pr reg name"
| "handle u pr (RRenameRepository reg name newName) = RenameRepository u pr reg name newName"

text \<open>One step of the system: a request, the run of any started worker to its end, or a change of
  the environment that the rely relation allows.\<close>

inductive sys_step :: "('x env \<Rightarrow> 'x env \<Rightarrow> bool) \<Rightarrow> 'x usecase \<Rightarrow> 'x world \<Rightarrow> 'x world \<Rightarrow> bool"
  for rely :: "'x env \<Rightarrow> 'x env \<Rightarrow> bool" and u :: "'x usecase" where
  request: "run_state (handle u pr r) w = (res, v) \<Longrightarrow> sys_step rely u w v"
| worker: "w_jobs w = before @ (i, j) # after \<Longrightarrow> run_state (run_job u j) (w_env w) = (res, e) \<Longrightarrow>
    sys_step rely u w (w\<lparr>w_env := e, w_jobs := before @ after, w_done := w_done w @ [(i, res)]\<rparr>)"
| environment: "rely (w_env w) e \<Longrightarrow> sys_step rely u w (w\<lparr>w_env := e\<rparr>)"

inductive_cases sys_stepE: "sys_step rely u w v"

inductive reachable :: "('x env \<Rightarrow> 'x env \<Rightarrow> bool) \<Rightarrow> 'x usecase \<Rightarrow> 'x world \<Rightarrow> 'x world \<Rightarrow> bool"
  for rely :: "'x env \<Rightarrow> 'x env \<Rightarrow> bool" and u :: "'x usecase" and w :: "'x world" where
  start: "reachable rely u w w"
| next_step: "reachable rely u w v \<Longrightarrow> sys_step rely u v v' \<Longrightarrow> reachable rely u w v'"

end
