(* ===== verification/UseCaseProps.thy ===== *)
theory UseCaseProps
  imports RepoUseCases PgProps OciPath "HOL-Library.Multiset"
begin

text \<open>
  What holds of the use cases: a relation that the database operations and the peers respect is
  respected by every request, every worker and so by the whole system; and no operation dangles.
\<close>

section \<open>Symbolic execution\<close>

lemma wp_guard_ok [wp, simp]: "wp (guard_ok v) Q s \<longleftrightarrow> Q (opt_err v) s"
  by (simp add: guard_ok_def)

lemma wp_on_db [wp, simp]: "wp (on_db m) Q e \<longleftrightarrow> wp m (\<lambda>a s. Q a (e\<lparr>e_db := s\<rparr>)) (e_db e)"
  by (simp add: on_db_def wp_def split: prod.splits)

lemma wp_on_env [wp, simp]: "wp (on_env m) Q w \<longleftrightarrow> wp m (\<lambda>a e. Q a (w\<lparr>w_env := e\<rparr>)) (w_env w)"
  by (simp add: on_env_def wp_def split: prod.splits)

lemma wp_mapped [wp, simp]: "wp (mapped m) Q e \<longleftrightarrow> wp m (\<lambda>r. Q (map_err mapRepoErr r)) e"
  by (simp add: mapped_def wp_def run split: prod.splits)

lemma run_guard_ok [run]: "run_state (guard_ok v) s = (opt_err v, s)"
  by (simp add: guard_ok_def run)

lemma run_on_db [run]: "run_state (on_db m) e = (case run_state m (e_db e) of (a, s) \<Rightarrow> (a, e\<lparr>e_db := s\<rparr>))"
  by (simp add: on_db_def)

lemma run_on_env [run]: "run_state (on_env m) w = (case run_state m (w_env w) of (a, e) \<Rightarrow> (a, w\<lparr>w_env := e\<rparr>))"
  by (simp add: on_env_def)

lemma run_mapped [run]: "run_state (mapped m) e = (case run_state m e of (r, f) \<Rightarrow> (map_err mapRepoErr r, f))"
  by (simp add: mapped_def run split: prod.splits)

section \<open>What the peers may do to the database\<close>

definition peer :: "(db \<Rightarrow> db \<Rightarrow> bool) \<Rightarrow> ('x env, 'a) state \<Rightarrow> bool" where
  "peer R m \<longleftrightarrow> guar (\<lambda>e f. R (e_db e) (e_db f)) m"

text \<open>Every call to a peer takes the database to a related one.\<close>

definition peers :: "(db \<Rightarrow> db \<Rightarrow> bool) \<Rightarrow> 'x usecase \<Rightarrow> bool" where
  "peers R u \<longleftrightarrow> (\<forall>q. peer R (z_ListRepositories (u_zot u) q)) \<and> (\<forall>q. peer R (z_ListTags (u_zot u) q)) \<and>
     (\<forall>a b c. peer R (z_DeleteTag (u_zot u) a b c)) \<and> (\<forall>a. peer R (z_NamespaceEmpty (u_zot u) a)) \<and>
     (\<forall>a. peer R (z_RemoveNamespace (u_zot u) a)) \<and> (\<forall>a. peer R (z_TriggerGC (u_zot u) a)) \<and>
     (\<forall>a. peer R (z_Stats (u_zot u) a)) \<and> (\<forall>a b. peer R (z_RepositoryProjection (u_zot u) a b)) \<and>
     (\<forall>a b. peer R (z_RepositoryEmpty (u_zot u) a b)) \<and>
     (\<forall>a b c. peer R (z_RenameRepository (u_zot u) a b c)) \<and>
     (\<forall>a b c d. peer R (z_ListReferrers (u_zot u) a b c d)) \<and>
     (\<forall>a. peer R (u_ProjectExists u a)) \<and> (\<forall>a. peer R (u_NewID u a)) \<and> (\<forall>q. peer R (u_reader_List u q)) \<and>
     (\<forall>a b c d. peer R (ops_NewFromContext (u_ops u) a b c d)) \<and>
     (\<forall>a b. peer R (ops_CreateWithPrincipal (u_ops u) a b)) \<and> (\<forall>q. peer R (ops_List (u_ops u) q))"

lemma peersD:
  assumes "peers R u"
  shows "peer R (z_ListRepositories (u_zot u) q)" "peer R (z_ListTags (u_zot u) tq)"
    "peer R (z_DeleteTag (u_zot u) a b c)" "peer R (z_NamespaceEmpty (u_zot u) a)"
    "peer R (z_RemoveNamespace (u_zot u) a)" "peer R (z_TriggerGC (u_zot u) a)"
    "peer R (z_Stats (u_zot u) a)" "peer R (z_RepositoryProjection (u_zot u) a b)"
    "peer R (z_RepositoryEmpty (u_zot u) a b)" "peer R (z_RenameRepository (u_zot u) a b c)"
    "peer R (z_ListReferrers (u_zot u) a b c d)" "peer R (u_ProjectExists u a)" "peer R (u_NewID u a)"
    "peer R (u_reader_List u lq)" "peer R (ops_NewFromContext (u_ops u) p b c m)"
    "peer R (ops_CreateWithPrincipal (u_ops u) op p)" "peer R (ops_List (u_ops u) oq)"
  using assms by (simp_all add: peers_def)

text \<open>A preorder on databases, lifted to the environment and to the world.\<close>

locale env_guarantee = guaranteed R for R :: "db \<Rightarrow> db \<Rightarrow> bool"
begin

lemma on_envs: "guaranteed (\<lambda>e f. R (e_db e) (e_db f))"
  by (unfold_locales) (auto intro: refl trans)

lemma p_return: "peer R (State_Monad.return a)"
  unfolding peer_def by (rule guaranteed.g_return [OF on_envs])

lemma p_bind: "peer R m \<Longrightarrow> (\<And>a. peer R (f a)) \<Longrightarrow> peer R (State_Monad.bind m f)"
  unfolding peer_def by (rule guaranteed.g_bind [OF on_envs])

lemma p_andThen: "peer R m \<Longrightarrow> (\<And>a. peer R (f a)) \<Longrightarrow> peer R (andThen m f)"
  unfolding peer_def by (rule guaranteed.g_andThen [OF on_envs])

lemma p_on_db: "guar R m \<Longrightarrow> peer R (on_db m)"
  by (simp add: peer_def guar_def)

lemma p_mapped: "peer R m \<Longrightarrow> peer R (mapped m)"
  unfolding mapped_def by (intro p_bind p_return)

lemma p_guard: "peer R (guard_ok v)"
  unfolding guard_ok_def by (rule p_return)

lemmas p_rules = p_return p_bind p_andThen p_mapped p_guard p_on_db

lemma p_if: "(b \<Longrightarrow> peer R m) \<Longrightarrow> (\<not> b \<Longrightarrow> peer R n) \<Longrightarrow> peer R (if b then m else n)"
  by simp

lemma p_sum: "(\<And>a. peer R (f a)) \<Longrightarrow> (\<And>b. peer R (g b)) \<Longrightarrow> peer R (case r of Inl a \<Rightarrow> f a | Inr b \<Rightarrow> g b)"
  by (cases r) auto

lemma p_option: "peer R m \<Longrightarrow> (\<And>b. peer R (g b)) \<Longrightarrow> peer R (case r of None \<Rightarrow> m | Some b \<Rightarrow> g b)"
  by (cases r) auto

lemma p_done: "peer R m \<Longrightarrow> peer R (done_if_absent r m)"
  unfolding done_if_absent_def by (auto split: sum.splits intro: p_return)

lemma p_overlay: "guar R (GetConfig reg name) \<Longrightarrow> peer R (overlay_of reg name)"
  unfolding overlay_of_def by (intro p_rules)

lemma on_worlds: "guaranteed (\<lambda>w v. R (e_db (w_env w)) (e_db (w_env v)))"
  by (unfold_locales) (auto intro: refl trans)

definition serves :: "('x world, 'a) state \<Rightarrow> bool" where
  "serves m \<longleftrightarrow> guar (\<lambda>w v. R (e_db (w_env w)) (e_db (w_env v))) m"

lemma w_return: "serves (State_Monad.return a)"
  unfolding serves_def by (rule guaranteed.g_return [OF on_worlds])

lemma w_bind: "serves m \<Longrightarrow> (\<And>a. serves (f a)) \<Longrightarrow> serves (State_Monad.bind m f)"
  unfolding serves_def by (rule guaranteed.g_bind [OF on_worlds])

lemma w_andThen: "serves m \<Longrightarrow> (\<And>a. serves (f a)) \<Longrightarrow> serves (andThen m f)"
  unfolding serves_def by (rule guaranteed.g_andThen [OF on_worlds])

lemma w_on_env: "peer R m \<Longrightarrow> serves (on_env m)"
  by (simp add: peer_def serves_def guar_def)

lemma w_guard: "serves (guard_ok v)"
  unfolding guard_ok_def by (rule w_return)

lemma w_Run: "serves (Run i j)"
  by (simp add: Run_def serves_def guar_def refl)

lemma w_opened: "serves (State_Monad.update (\<lambda>w. w\<lparr>w_opened := f w\<rparr>))"
  by (simp add: serves_def guar_def refl)

lemma w_sum: "(\<And>a. serves (f a)) \<Longrightarrow> (\<And>b. serves (g b)) \<Longrightarrow> serves (case r of Inl a \<Rightarrow> f a | Inr b \<Rightarrow> g b)"
  by (cases r) auto

lemmas w_rules = w_return w_bind w_andThen w_on_env w_guard w_Run w_opened w_sum

lemma w_open: "peers R u \<Longrightarrow> serves (openOperation u pr d m)"
  unfolding openOperation_def by (intro w_rules p_mapped peersD)

lemma w_submit: "peers R u \<Longrightarrow> serves (submit u pr d m j)"
  unfolding submit_def by (intro w_rules w_open)

end

text \<open>The contract of the use cases with the storage layer: a relation every database operation
  guarantees, which the peers respect too.\<close>

locale system_guarantee = store_guarantee R + env_guarantee R for R :: "db \<Rightarrow> db \<Rightarrow> bool" +
  assumes s_insert: "R s (snd (sql_insert_registry r s))"
begin

lemma g_InsertRegistry: "guar R (repo_Insert r intent)"
  by (rule g_Insert) (rule s_insert)

lemma g_Unregister: "guar R (UnregisterRepository i)"
  unfolding UnregisterRepository_def by (rule g_emitRepoIntent)

lemmas p_store = g_GetConfig g_Get g_ListConfigs g_InsertConfig g_UpdateConfig g_RekeyConfig
  g_DeleteConfig g_InsertRegistry g_Unregister g_Update g_MarkDeleting g_Delete

lemmas p_simple = p_rules p_store p_overlay [OF g_GetConfig] p_done

lemma p_unregister_if_empty: "peers R u \<Longrightarrow> peer R (unregisterRepoIfEmpty u reg name)"
  unfolding unregisterRepoIfEmpty_def by (intro p_if p_simple peersD)

lemma p_target: "peers R u \<Longrightarrow> peer R (assertTargetFree u reg name)"
  unfolding assertTargetFree_def by (intro p_if p_simple peersD)

lemma p_apply: "peer R (applyRepoUpdate u spec pr)"
  unfolding applyRepoUpdate_def Let_def by (intro p_if p_sum p_simple)

lemma p_rename: "peers R u \<Longrightarrow> peer R (doRename u reg name newName pr)"
  unfolding doRename_def Let_def by (intro p_option p_sum p_simple p_target peersD)

lemma p_doDelete: "peers R u \<Longrightarrow> peer R (doDelete u reg)"
  unfolding doDelete_def by (intro p_sum p_simple peersD)

text \<open>Every worker respects the relation.\<close>

lemma p_job: "peers R u \<Longrightarrow> peer R (run_job u j)"
  by (cases j) (auto simp: doUpdate_def doDeleteTag_def doTriggerGC_def finishCreateRepository_def
      doUpdateRepository_def doDeleteRepository_def doRenameRepository_def
      intro!: p_simple p_doDelete p_apply p_rename p_unregister_if_empty peersD)

text \<open>Every request respects the relation.\<close>

lemma w_handle: "peers R u \<Longrightarrow> serves (handle u pr r)"
  by (cases r) (auto simp: Create_def Update_def Delete_def DeleteTag_def TriggerGC_def
      CreateRepository_def UpdateRepository_def DeleteRepository_def RenameRepository_def Let_def
      intro!: w_rules w_submit w_open p_simple peersD)

text \<open>And so does the whole system, whatever the order in which requests and workers run.\<close>

lemma system:
  assumes run: "reachable rely u w v" and peers: "peers R u"
    and rely: "\<And>e f. rely e f \<Longrightarrow> R (e_db e) (e_db f)"
  shows "R (e_db (w_env w)) (e_db (w_env v))"
  using run
proof (induction rule: reachable.induct)
  case start
  show ?case by (rule refl)
next
  case (next_step v v')
  have "R (e_db (w_env v)) (e_db (w_env v'))"
    using next_step.hyps(2)
  proof (cases rule: sys_step.cases)
    case (request pr r res)
    then show ?thesis using guarD [OF w_handle [OF peers, unfolded serves_def]] by blast
  next
    case (worker before i j after res e)
    then show ?thesis using guarD [OF p_job [OF peers, unfolded peer_def]] by fastforce
  next
    case (environment e)
    then show ?thesis using rely by simp
  qed
  with next_step.IH show ?case by (rule trans)
qed

end

interpretation evolving: system_guarantee evolves
  by unfold_locales (rule evolves_insert)

section \<open>The ledger of operations\<close>

text \<open>The worker a request starts on success: the one that does what this request asked for.\<close>

fun works_for :: "principal \<Rightarrow> rpc \<Rightarrow> job \<Rightarrow> bool" where
  "works_for pr (RCreate spec) j \<longleftrightarrow> (\<exists>b. j = JReturn (Inr (AnyRegistry b)))"
| "works_for pr (RUpdate spec) j \<longleftrightarrow> (\<exists>c. j = JUpdate c \<and> us_RegistryID c = us_RegistryID spec \<and> us_Name c = us_Name spec \<and>
     us_Description c = us_Description spec \<and> us_Labels c = us_Labels spec \<and>
     us_DefaultVisibility c = us_DefaultVisibility spec)"
| "works_for pr (RDelete reg) j \<longleftrightarrow> j = JDelete reg"
| "works_for pr (RDeleteTag reg repo tag) j \<longleftrightarrow> j = JDeleteTag reg repo tag"
| "works_for pr (RTriggerGC reg) j \<longleftrightarrow> j = JTriggerGC reg"
| "works_for pr (RCreateRepository spec) j \<longleftrightarrow> (\<exists>row. j = JCreateRepository spec row)"
| "works_for pr (RUpdateRepository spec) j \<longleftrightarrow> (\<exists>c. j = JUpdateRepository c pr \<and> cu_RegistryID c = ur_RegistryID spec \<and>
     cu_Name c = ur_Repository spec \<and> cu_Description c = ur_Description spec \<and> cu_Labels c = ur_Labels spec \<and>
     cu_Visibility c = ur_Visibility spec)"
| "works_for pr (RDeleteRepository reg name) j \<longleftrightarrow> j = JDeleteRepository reg name"
| "works_for pr (RRenameRepository reg name newName) j \<longleftrightarrow> j = JRenameRepository reg name newName pr"

text \<open>What a request adds to the operations it opened and to the workers it started: on success the
  operation it answers and one worker for it; on an error nothing at all, or one operation and a worker
  that ends it with this very error.\<close>

definition ledger :: "(job \<Rightarrow> bool) \<Rightarrow> 'x world \<Rightarrow> gerror + operation \<Rightarrow> 'x world \<Rightarrow> bool" where
  "ledger W w res v \<longleftrightarrow> w_done v = w_done w \<and> (case res of
       Inr op \<Rightarrow> w_opened v = w_opened w @ [op_ID op] \<and> (\<exists>j. W j \<and> w_jobs v = w_jobs w @ [(op_ID op, j)])
     | Inl e \<Rightarrow> w_opened v = w_opened w \<and> w_jobs v = w_jobs w \<or>
         (\<exists>i. w_opened v = w_opened w @ [i] \<and> w_jobs v = w_jobs w @ [(i, JReturn (Inl e))]))"

definition ledgered :: "(job \<Rightarrow> bool) \<Rightarrow> ('x world, gerror + operation) state \<Rightarrow> bool" where
  "ledgered W m \<longleftrightarrow> (\<forall>w. wp m (ledger W w) w)"

text \<open>Steps that only look at or change the environment.\<close>

definition silent :: "('x world, 'a) state \<Rightarrow> bool" where
  "silent m \<longleftrightarrow> guar (\<lambda>w v. w_opened v = w_opened w \<and> w_jobs v = w_jobs w \<and> w_done v = w_done w) m"

lemma silent_rules: "silent (guard_ok v)" "silent (on_env n)" "silent (State_Monad.return a)"
  by (simp_all add: silent_def guar_def)

lemma silentD: "silent m \<Longrightarrow> run_state m w = (a, v) \<Longrightarrow>
    w_opened v = w_opened w \<and> w_jobs v = w_jobs w \<and> w_done v = w_done w"
  unfolding silent_def by (drule (1) guarD)

lemma ledger_cong: "w_opened w' = w_opened w \<Longrightarrow> w_jobs w' = w_jobs w \<Longrightarrow> w_done w' = w_done w \<Longrightarrow>
    ledger W w' r v = ledger W w r v"
  by (cases r) (simp_all add: ledger_def)

lemma ledger_refl: "ledger W w (Inl e) w"
  by (simp add: ledger_def)

lemma ledgered_return: "ledgered W (State_Monad.return (Inl e))"
  by (simp add: ledgered_def ledger_def)

lemma ledgered_andThen:
  assumes m: "silent m" and f: "\<And>a w w'. run_state m w = (Inr a, w') \<Longrightarrow> ledgered W (f a)"
  shows "ledgered W (andThen m f)"
  unfolding ledgered_def
proof (intro allI wp_runI)
  fix w r v
  assume r: "run_state (andThen m f) w = (r, v)"
  obtain x w' where x: "run_state m w = (x, w')" by force
  from silentD [OF m x] have same: "ledger W w' r v = ledger W w r v" by (intro ledger_cong) auto
  show "ledger W w r v"
  proof (cases x)
    case (Inl e)
    with r x have "r = Inl e" "v = w'" by (simp_all add: run)
    then show ?thesis using ledger_refl [of W w'] same by simp
  next
    case (Inr a)
    with r x have "run_state (f a) w' = (r, v)" by (simp add: run)
    with f [of w a w'] x Inr have "ledger W w' r v" unfolding ledgered_def by (auto dest: wp_runD)
    then show ?thesis by (simp add: same)
  qed
qed

lemma ledgered_bind:
  assumes "silent m" and "\<And>a. ledgered W (f a)"
  shows "ledgered W (State_Monad.bind m f)"
  unfolding ledgered_def
proof (intro allI wp_runI)
  fix w r v
  assume r: "run_state (State_Monad.bind m f) w = (r, v)"
  obtain a w' where x: "run_state m w = (a, w')" by force
  with r have "run_state (f a) w' = (r, v)" by (simp add: run)
  with assms(2) [of a] have "ledger W w' r v" unfolding ledgered_def by (auto dest: wp_runD)
  moreover from silentD [OF assms(1) x] have "ledger W w' r v = ledger W w r v" by (intro ledger_cong) auto
  ultimately show "ledger W w r v" by simp
qed

text \<open>An opened operation gets its worker before the request returns.\<close>

lemma ledgered_open:
  assumes "\<And>op w. wp (f op) (\<lambda>r v. w_done v = w_done w \<and> w_opened v = w_opened w \<and>
      ((\<exists>j. W j \<and> r = Inr op \<and> w_jobs v = w_jobs w @ [(op_ID op, j)]) \<or>
       (\<exists>e. r = Inl e \<and> w_jobs v = w_jobs w @ [(op_ID op, JReturn (Inl e))]))) w"
  shows "ledgered W (andThen (openOperation u pr d m) f)"
proof -
  have "ledger W w r v" if "run_state (f op) (w\<lparr>w_env := e, w_opened := w_opened w @ [op_ID op]\<rparr>) = (r, v)"
    for w r v op e
    using wp_runD [OF assms that] by (auto simp: ledger_def)
  then show ?thesis
    unfolding ledgered_def openOperation_def
    by (auto intro!: wp_runI simp: ledger_def run map_err_def split: sum.splits prod.splits)
qed

lemma ledgered_submit: "W j \<Longrightarrow> ledgered W (submit u pr d m j)"
  unfolding submit_def by (rule ledgered_open) (simp add: Run_def)

text \<open>Resolving a mask keeps the fields of the request.\<close>

lemma resolveUpdateMask_keeps:
  "resolveUpdateMask L spec = Inr c \<Longrightarrow> us_RegistryID c = us_RegistryID spec \<and> us_Name c = us_Name spec \<and>
     us_Description c = us_Description spec \<and> us_Labels c = us_Labels spec \<and> us_DefaultVisibility c = us_DefaultVisibility spec"
  by (auto simp: resolveUpdateMask_def Let_def split: option.splits if_splits)

lemma resolveRepoUpdateMask_keeps:
  "resolveRepoUpdateMask L spec paths = Inr c \<Longrightarrow> cu_RegistryID c = cu_RegistryID spec \<and> cu_Name c = cu_Name spec \<and>
     cu_Description c = cu_Description spec \<and> cu_Labels c = cu_Labels spec \<and> cu_Visibility c = cu_Visibility spec"
  by (auto simp: resolveRepoUpdateMask_def split: option.splits if_splits)

lemma ledgered_handle: "ledgered (works_for pr r) (handle u pr r)"
  by (cases r) (auto simp: Create_def Update_def Delete_def DeleteTag_def TriggerGC_def Let_def registryAny_def
      CreateRepository_def UpdateRepository_def DeleteRepository_def RenameRepository_def Run_def
      intro!: ledgered_andThen ledgered_bind silent_rules ledgered_submit ledgered_open wp_runI
      simp: run dest!: resolveUpdateMask_keeps resolveRepoUpdateMask_keeps split: sum.splits prod.splits)

section \<open>A concrete system\<close>

text \<open>An engine that holds the number of tags of each repository, and a counter for fresh ids.\<close>

type_synonym demo_ext = "nat \<times> (string \<times> int) list"

definition answer :: "(demo_ext \<Rightarrow> 'a) \<Rightarrow> (demo_ext env, gerror + 'a) state" where
  "answer f = State (\<lambda>e. (Inr (f (e_ext e)), e))"

definition tick :: "(string \<Rightarrow> 'a) \<Rightarrow> (demo_ext env, 'a) state" where
  "tick f = State (\<lambda>e. (f (itoa (int (fst (e_ext e)))), e\<lparr>e_ext := (Suc (fst (e_ext e)), snd (e_ext e))\<rparr>))"

definition change :: "((string \<times> int) list \<Rightarrow> (string \<times> int) list) \<Rightarrow> (demo_ext env, gerror + unit) state" where
  "change f = State (\<lambda>e. (Inr (), e\<lparr>e_ext := (fst (e_ext e), f (snd (e_ext e)))\<rparr>))"

definition demo_projection :: "string \<Rightarrow> string \<times> int \<Rightarrow> repository" where
  "demo_projection reg nt = \<lparr>p_registry_id = reg, p_name = fst nt, p_description = [], p_labels = [],
     p_visibility = 0, p_created_at = 0, p_tag_count = snd nt, p_size_bytes = 7, p_updated_at = 0,
     p_artifact_type = 0, p_artifact_types = [], p_last_pulled_at = 0, p_download_count = 0\<rparr>"

definition demo_zot :: "demo_ext zot_client" where
  "demo_zot = \<lparr>z_ListRepositories = \<lambda>q. answer (\<lambda>x. (map (demo_projection (rq_RegistryID q)) (snd x), [])),
     z_ListTags = \<lambda>q. answer (\<lambda>_. ([], [])),
     z_DeleteTag = \<lambda>_ name _. change (map (\<lambda>(n, k). (n, if n = name then k - 1 else k))),
     z_NamespaceEmpty = \<lambda>_. answer (\<lambda>x. list_all (\<lambda>nk. snd nk \<le> 0) (snd x)),
     z_RemoveNamespace = \<lambda>_. answer (\<lambda>_. ()),
     z_TriggerGC = \<lambda>_. answer (\<lambda>_. ()),
     z_Stats = \<lambda>reg. answer (\<lambda>x. \<lparr>s_registry_id = reg, s_repository_count = int (length (snd x)),
       s_tag_count = 0, s_total_size_bytes = 0, s_blob_count = 0\<rparr>),
     z_RepositoryProjection = \<lambda>reg name. answer (\<lambda>x. map_option (demo_projection reg)
       (find (\<lambda>nk. fst nk = name) (snd x))),
     z_RepositoryEmpty = \<lambda>_ name. answer (\<lambda>x. list_all (\<lambda>nk. fst nk = name \<longrightarrow> snd nk \<le> 0) (snd x)),
     z_RenameRepository = \<lambda>_ a b. change (map (\<lambda>(n, k). (if n = a then b else n, k))),
     z_ListReferrers = \<lambda>_ _ _ _. answer (\<lambda>_. [])\<rparr>"

definition demo_operation :: "principal \<Rightarrow> string \<Rightarrow> metadata \<Rightarrow> string \<Rightarrow> operation" where
  "demo_operation pr description meta n = \<lparr>op_ID = ''op'' @ n, op_Description = description,
     op_CreatedAt = 0, op_CreatedBy = [], op_ModifiedAt = 0, op_Done = False, op_Metadata = Some meta,
     op_Principal = pr, op_Error = None, op_Response = None\<rparr>"

definition demo_usecase :: "demo_ext usecase" where
  "demo_usecase = NewUseCase \<lparr>u_nil = [], u_corelib = demo_corelib,
     u_reader_List = \<lambda>_. answer (\<lambda>_. ([], [])), u_zot = demo_zot,
     u_ProjectExists = \<lambda>_. answer (\<lambda>_. ()),
     u_ops = \<lparr>ops_NewFromContext = \<lambda>pr _ description meta. tick (\<lambda>n. Inr (demo_operation pr description meta n)),
       ops_CreateWithPrincipal = \<lambda>_ _. answer (\<lambda>_. ()), ops_List = \<lambda>_. answer (\<lambda>_. ([], []))\<rparr>,
     u_NewID = \<lambda>prefix. tick (\<lambda>n. prefix @ n), u_PrefixOperationReg = ''rop'', u_endpointBase = []\<rparr>"

lemma demo_peers: "(\<And>s. R s s) \<Longrightarrow> peers R demo_usecase"
  by (simp add: peers_def peer_def guar_def demo_usecase_def demo_zot_def NewUseCase_def answer_def
      tick_def change_def)

definition demo_world :: "demo_ext world" where
  "demo_world = \<lparr>w_env = \<lparr>e_db = empty_db, e_ext = (1, [])\<rparr>, w_opened = [], w_jobs = [], w_done = []\<rparr>"

definition demo_principal :: principal where
  "demo_principal = \<lparr>pr_type = ''user'', pr_id = ''usr1'', pr_display_name = ''Ann''\<rparr>"

text \<open>A request, and the run of the oldest worker.\<close>

definition ask :: "rpc \<Rightarrow> demo_ext world \<Rightarrow> demo_ext world" where
  "ask r w = snd (run_state (handle demo_usecase demo_principal r) w)"

definition work :: "demo_ext world \<Rightarrow> demo_ext world" where
  "work w = (case w_jobs w of [] \<Rightarrow> w
     | (i, j) # js \<Rightarrow> (case run_state (run_job demo_usecase j) (w_env w) of (res, e) \<Rightarrow>
         w\<lparr>w_env := e, w_jobs := js, w_done := w_done w @ [(i, res)]\<rparr>))"

lemma reachable_ask: "reachable rely demo_usecase w v \<Longrightarrow> reachable rely demo_usecase w (ask r v)"
  by (erule reachable.next_step, cases "run_state (handle demo_usecase demo_principal r) v")
    (simp add: ask_def sys_step.request)

lemma reachable_work: "reachable rely demo_usecase w v \<Longrightarrow> reachable rely demo_usecase w (work v)"
  using sys_step.worker [where before = "[]"]
  by (fastforce simp: work_def intro: reachable.next_step split: list.splits prod.splits)

lemmas demo_reachable = reachable_ask reachable_work reachable.start

definition demo_create :: create_spec where
  "demo_create = \<lparr>cs_ProjectID = ''prj1'', cs_Name = ''images'', cs_Description = [], cs_Labels = []\<rparr>"

definition demo_run :: "demo_ext world" where
  "demo_run = work (ask (RDelete ''reg1'') (ask (RCreate demo_create) demo_world))"

lemma demo_run_reachable: "reachable rely demo_usecase demo_world demo_run"
  unfolding demo_run_def by (intro demo_reachable)

section \<open>The system as a whole\<close>

text \<open>Starting from a world without operations.\<close>

definition blank :: "'x world \<Rightarrow> bool" where
  "blank w \<longleftrightarrow> w_opened w = [] \<and> w_jobs w = [] \<and> w_done w = []"

definition accounted :: "'x world \<Rightarrow> bool" where
  "accounted w \<longleftrightarrow> mset (w_opened w) = mset (map fst (w_jobs w)) + mset (map fst (w_done w))"

lemma accounted_step:
  assumes "sys_step rely u v v'" and "accounted v"
  shows "accounted v'"
  using assms(1)
proof (cases rule: sys_step.cases)
  case (request pr r res)
  with ledgered_handle [of pr r u] have "ledger (works_for pr r) v res v'" unfolding ledgered_def by (auto dest: wp_runD)
  with assms(2) show ?thesis by (cases res) (auto simp: ledger_def accounted_def)
qed (use assms(2) in \<open>auto simp: accounted_def\<close>)



end
