(* ===== verification/PublicGrants.thy ===== *)
theory PublicGrants
  imports UseCaseProps
begin

text \<open>
  The governance of anonymous access. A repository may be pulled anonymously when the tuple
  \<open>user:* v_get\<close> is in the authorization store, which the drainer fills from the outbox in commit
  order. The invariant: for every registry that exists, the tuple is there exactly when the
  overlay of the repository is PUBLIC. It holds for any order of requests and workers as long as
  nothing else touches the database while a rename waits for the engine; without this it does not.
\<close>

section \<open>The authorization store\<close>

text \<open>The tuples that the intents of the outbox leave, applied in order.\<close>

definition settle :: "(string \<times> register_intent) list \<Rightarrow> fga_tuple set \<Rightarrow> fga_tuple set" where
  "settle intents S = fold (\<lambda>(ev, i) S. if ev = FGAEventRegister then S \<union> set (i_tuples i)
     else S - set (i_tuples i)) intents S"

definition granted :: "outbox_row list \<Rightarrow> fga_tuple set" where
  "granted rows = settle (map (\<lambda>b. (ob_event b, ob_intent b)) rows) {}"

lemma settle_simps [simp]:
  "settle [] S = S"
  "settle ((ev, i) # rest) S = settle rest (if ev = FGAEventRegister then S \<union> set (i_tuples i) else S - set (i_tuples i))"
  "settle (xs @ ys) S = settle ys (settle xs S)"
  by (simp_all add: settle_def)

lemma settle_nonempty: "settle (filter (\<lambda>(ev, i). i_tuples i \<noteq> []) xs) S = settle xs S"
  by (induction xs arbitrary: S) (auto cong: if_cong)

lemma granted_append: "granted (xs @ ys) = settle (map (\<lambda>b. (ob_event b, ob_intent b)) ys) (granted xs)"
  by (simp add: granted_def)

lemma settle_foreign: "(\<forall>(ev, i) \<in> set xs. p \<notin> set (i_tuples i)) \<Longrightarrow> p \<in> settle xs S \<longleftrightarrow> p \<in> S"
proof (induction xs arbitrary: S)
  case (Cons x xs)
  obtain ev i where x: "x = (ev, i)" by force
  with Cons.prems have "p \<notin> set (i_tuples i)" "\<forall>(ev, i) \<in> set xs. p \<notin> set (i_tuples i)" by auto
  with Cons.IH x show ?case by simp
qed simp

text \<open>The other tuples of the program never grant the read relation.\<close>

lemma no_grant [simp]:
  "FGARepoPublicGetTuple reg name \<noteq> FGAProjectTuple i p" "FGARepoPublicGetTuple reg name \<noteq> FGAOwnerTuple sub i"
  "FGARepoPublicGetTuple reg name \<noteq> FGARepoParentTuple i n" "FGARepoPublicGetTuple reg name \<noteq> FGARepoOwnerTuple i n sub"
  by (simp_all add: fga_tuple_defs FGARelationVGet_def FGARelationProject_def FGARelationOwner_def
      FGARelationParent_def)

lemma slash_split: "CHR ''/'' \<notin> set a \<Longrightarrow> CHR ''/'' \<notin> set b \<Longrightarrow>
    a @ CHR ''/'' # x = b @ CHR ''/'' # y \<longleftrightarrow> a = b \<and> x = y"
  by (metis cut_at_append option.inject prod.inject)

lemma public_tuple_inj: "CHR ''/'' \<notin> set reg \<Longrightarrow> CHR ''/'' \<notin> set i \<Longrightarrow>
    FGARepoPublicGetTuple reg name = FGARepoPublicGetTuple i n \<longleftrightarrow> reg = i \<and> name = n"
  by (simp add: FGARepoPublicGetTuple_def FGAObjectRef_def repoObjectID_def slash_split)

section \<open>The invariant\<close>

definition public :: "db \<Rightarrow> string \<Rightarrow> string \<Rightarrow> bool" where
  "public s reg name \<longleftrightarrow> (\<exists>c \<in> set (d_configs s). cfg_key c = (reg, name) \<and> c_visibility c = VisibilityPublic)"

definition agrees :: "db \<Rightarrow> string \<Rightarrow> bool" where
  "agrees s reg \<longleftrightarrow> (\<forall>name. FGARepoPublicGetTuple reg name \<in> granted (d_outbox s) \<longleftrightarrow> public s reg name)"

definition governed :: "db \<Rightarrow> bool" where
  "governed s \<longleftrightarrow> db_ok s \<and> (\<forall>i \<in> r_id ` set (d_registries s). CHR ''/'' \<notin> set i \<and> agrees s i)"

lemma governed_cong:
  "tables s = tables t \<Longrightarrow> db_ok t \<Longrightarrow> governed s \<Longrightarrow> governed t"
  using tables_eqD [of s t] by (simp add: governed_def agrees_def public_def)

lemma governed_tables: "governed s \<Longrightarrow> tables t = tables s \<Longrightarrow> evolves s t \<Longrightarrow> governed t"
  by (rule governed_cong [of s]) (simp_all add: evolves_def governed_def)

text \<open>An overlay transaction that touches one registry and whose intents say what it did.\<close>

lemma governed_tx:
  assumes gov: "governed s" and run: "run_state (ready (runConfigTx reg intents (trip dml))) s = (res, t)"
    and ok: "evolves s t"
    and frame: "\<And>u. d_registries (snd (dml u)) = d_registries u \<and> d_outbox (snd (dml u)) = d_outbox u"
    and others: "\<And>u i name. i \<noteq> reg \<Longrightarrow> public (snd (dml u)) i name = public u i name"
    and mine: "\<And>i name. i \<noteq> reg \<Longrightarrow> CHR ''/'' \<notin> set i \<Longrightarrow> CHR ''/'' \<notin> set reg \<Longrightarrow>
      \<forall>(ev, n) \<in> set intents. FGARepoPublicGetTuple i name \<notin> set (i_tuples n)"
    and hit: "\<And>u out v name. tables u = tables s \<Longrightarrow> dml u = (Inr out, v) \<Longrightarrow> CHR ''/'' \<notin> set reg \<Longrightarrow>
      agrees u reg \<Longrightarrow> db_ok s \<Longrightarrow>
      FGARepoPublicGetTuple reg name \<in> settle intents (granted (d_outbox u)) \<longleftrightarrow> public v reg name"
  shows "governed t"
  using run
proof (cases rule: config_tx_cases)
  case unchanged
  with governed_tables [OF gov _ ok] show ?thesis by blast
next
  case (applied u out v r rows)
  have v: "d_registries v = d_registries s" "d_outbox v = d_outbox s"
    using frame [of u] applied(4) tables_eqD [OF applied(1)] by simp_all
  have gr: "granted (d_outbox t) = settle intents (granted (d_outbox s))"
    using applied(7,8) v(2) by (simp add: granted_append settle_nonempty)
  have u: "d_configs u = d_configs s" "d_outbox u = d_outbox s" "d_registries u = d_registries s"
    using tables_eqD [OF applied(1)] by simp_all
  have reg: "reg \<in> r_id ` set (d_registries s)" using find_registry_SomeD [OF applied(2)] by auto
  with gov have noslash: "CHR ''/'' \<notin> set reg" and "agrees s reg" and db: "db_ok s" by (auto simp: governed_def)
  then have agr: "agrees u reg" by (simp add: agrees_def public_def u)
  have pub: "public t i name = public v i name" for i name using applied(6) by (simp add: public_def)
  have "agrees t i \<and> CHR ''/'' \<notin> set i" if "i \<in> r_id ` set (d_registries s)" for i
  proof (cases "i = reg")
    case True
    with hit [OF applied(1,4) noslash agr db] gr pub u(2) noslash show ?thesis by (auto simp: agrees_def)
  next
    case False
    with that gov have i: "CHR ''/'' \<notin> set i" "agrees s i" by (auto simp: governed_def)
    from settle_foreign [OF mine [OF False i(1) noslash]] gr
    have "FGARepoPublicGetTuple i name \<in> granted (d_outbox t) \<longleftrightarrow> public t i name" for name
      using i(2) others [OF False, of u] applied(4) pub u(1) by (simp add: agrees_def public_def)
    with i show ?thesis by (simp add: agrees_def)
  qed
  moreover have "db_ok t" using ok db by (simp add: evolves_def)
  moreover have "d_registries t = d_registries s" using applied(5) v(1) by simp
  ultimately show ?thesis by (auto simp: governed_def)
qed

section \<open>Every use of the store keeps it\<close>

abbreviation keeps :: "(db, 'a) state \<Rightarrow> bool" where
  "keeps m \<equiv> guar (\<lambda>s t. governed s \<longrightarrow> governed t) m"

lemma keepsI: "(\<And>s a t. governed s \<Longrightarrow> run_state m s = (a, t) \<Longrightarrow> governed t) \<Longrightarrow> keeps m"
  by (rule guarI) blast

lemma evolves_of:
  "guar evolves m \<Longrightarrow> run_state m s = (res, t) \<Longrightarrow> evolves s t"
  by (rule guarD)

lemma push_intent_tuples:
  "FGARepoPublicGetTuple reg name \<notin> set (i_tuples (RegisterIntentForRepoPush i n p sub))"
  "FGARepoPublicGetTuple reg name \<notin> set (i_tuples (UnregisterIntentForRepo i n))"
  "FGARepoPublicGetTuple reg name \<notin> set (i_tuples (RegisterIntentForCreate r p sub))"
  "FGARepoPublicGetTuple reg name \<notin> set (i_tuples (RegisterIntentForUpdate r))"
  "FGARepoPublicGetTuple reg name \<notin> set (i_tuples (UnregisterIntentForDelete i p))"
  by (auto simp: RegisterIntentForRepoPush_def UnregisterIntentForRepo_def RegisterIntentForCreate_def
      RegisterIntentForUpdate_def UnregisterIntentForDelete_def Let_def)

lemma grant_intent_tuples [simp]:
  "i_tuples (RegisterIntentForRepoPublicGrant i n) = [FGARepoPublicGetTuple i n]"
  "i_tuples (UnregisterIntentForRepoPublicGrant i n) = [FGARepoPublicGetTuple i n]"
  by (simp_all add: RegisterIntentForRepoPublicGrant_def UnregisterIntentForRepoPublicGrant_def)

lemma event_distinct [simp]: "FGAEventUnregister \<noteq> FGAEventRegister"
  by (simp add: FGAEventUnregister_def FGAEventRegister_def)

lemma visibility_roundtrip: "v \<in> {VisibilityPrivate, VisibilityPublic} \<Longrightarrow>
    visibility_from_string (visibility_string v) = v"
  by (auto simp: visibility_from_string_def visibility_string_def VisibilityPrivate_def VisibilityPublic_def)

lemma stored_public: "visibility_from_string (visibility_string v) = VisibilityPublic \<longleftrightarrow> v = VisibilityPublic"
  by (auto simp: visibility_from_string_def visibility_string_def VisibilityPrivate_def VisibilityPublic_def)

lemma public_insert:
  "sql_insert_config c u = (Inr out, v) \<Longrightarrow> public v (c_registry_id c) name \<longleftrightarrow>
     (if name = c_name c then c_visibility c = VisibilityPublic else public u (c_registry_id c) name)"
  using stored_public [of "c_visibility c"]
  by (auto simp: sql_insert_config_def Let_def public_def cfg_key_def find_config_None image_iff split: if_splits) fastforce

lemma not_public_absent: "find_config u reg name = None \<Longrightarrow> \<not> public u reg name"
  by (auto simp: find_config_None public_def image_iff)

lemma public_tables: "tables u = tables s \<Longrightarrow> public u = public s"
  using tables_eqD [of u s] by (auto simp: public_def fun_eq_iff)

lemma governed_InsertConfig:
  assumes gov: "governed s" and run: "run_state (InsertConfig c intents) s = (res, t)"
    and mine: "\<And>i name. i \<noteq> c_registry_id c \<Longrightarrow> CHR ''/'' \<notin> set i \<Longrightarrow> CHR ''/'' \<notin> set (c_registry_id c) \<Longrightarrow>
      \<forall>(ev, n) \<in> set intents. FGARepoPublicGetTuple i name \<notin> set (i_tuples n)"
    and hit: "\<And>S name. CHR ''/'' \<notin> set (c_registry_id c) \<Longrightarrow>
      \<forall>n. FGARepoPublicGetTuple (c_registry_id c) n \<in> S \<longleftrightarrow> public s (c_registry_id c) n \<Longrightarrow>
      \<not> public s (c_registry_id c) (c_name c) \<Longrightarrow>
      FGARepoPublicGetTuple (c_registry_id c) name \<in> settle intents S \<longleftrightarrow>
      (if name = c_name c then c_visibility c = VisibilityPublic else FGARepoPublicGetTuple (c_registry_id c) name \<in> S)"
  shows "governed t"
proof (rule governed_tx [OF gov run [unfolded InsertConfig_def] evolves_of [OF evolution.g_InsertConfig run]
      sql_config_frame(1)])
  fix u i name
  assume "i \<noteq> c_registry_id c"
  then show "public (snd (sql_insert_config c u)) i name = public u i name"
    by (auto simp: sql_insert_config_def Let_def public_def cfg_key_def)
next
  fix u out v name
  assume u: "tables u = tables s" and ins: "sql_insert_config c u = (Inr out, v)" and "agrees u (c_registry_id c)"
    and noslash: "CHR ''/'' \<notin> set (c_registry_id c)"
  moreover have "find_config u (c_registry_id c) (c_name c) = None"
    using ins by (auto simp: sql_insert_config_def Let_def split: if_splits)
  ultimately show "FGARepoPublicGetTuple (c_registry_id c) name \<in> settle intents (granted (d_outbox u)) \<longleftrightarrow>
      public v (c_registry_id c) name"
    using hit [OF noslash, of "granted (d_outbox u)" name] public_insert [OF ins] not_public_absent [of u]
    by (simp add: agrees_def public_tables [OF u])
qed (rule mine)

text \<open>The tuples an insertion or a promotion emits.\<close>

lemma create_intents_foreign:
  "i \<noteq> reg \<Longrightarrow> CHR ''/'' \<notin> set i \<Longrightarrow> CHR ''/'' \<notin> set reg \<Longrightarrow>
    \<forall>(ev, n) \<in> set (createRepoIntents reg name p pr v). FGARepoPublicGetTuple i m \<notin> set (i_tuples n)"
  by (simp add: createRepoIntents_def push_intent_tuples public_tuple_inj)

lemma promote_intents_foreign:
  "i \<noteq> reg \<Longrightarrow> CHR ''/'' \<notin> set i \<Longrightarrow> CHR ''/'' \<notin> set reg \<Longrightarrow>
    \<forall>(ev, n) \<in> set (if v = VisibilityPublic then [(FGAEventRegister, RegisterIntentForRepoPublicGrant reg name)] else []).
      FGARepoPublicGetTuple i m \<notin> set (i_tuples n)"
  by (simp add: public_tuple_inj)

lemma rename_intents_foreign:
  "i \<noteq> reg \<Longrightarrow> CHR ''/'' \<notin> set i \<Longrightarrow> CHR ''/'' \<notin> set reg \<Longrightarrow>
    \<forall>(ev, n) \<in> set (renameIntents reg old new p pr v). FGARepoPublicGetTuple i m \<notin> set (i_tuples n)"
  by (simp add: renameIntents_def push_intent_tuples public_tuple_inj)

lemma settle_one:
  "p \<in> settle [(ev, i)] S \<longleftrightarrow> (if ev = FGAEventRegister then p \<in> S \<or> p \<in> set (i_tuples i) else p \<in> S \<and> p \<notin> set (i_tuples i))"
  by simp

lemma settle_create:
  "CHR ''/'' \<notin> set reg \<Longrightarrow> FGARepoPublicGetTuple reg n \<in> settle (createRepoIntents reg name p pr v) S \<longleftrightarrow>
    n = name \<and> v = VisibilityPublic \<or> FGARepoPublicGetTuple reg n \<in> S"
  by (auto simp: createRepoIntents_def push_intent_tuples public_tuple_inj)

lemma settle_promote:
  "CHR ''/'' \<notin> set reg \<Longrightarrow> FGARepoPublicGetTuple reg n \<in>
      settle (if v = VisibilityPublic then [(FGAEventRegister, RegisterIntentForRepoPublicGrant reg name)] else []) S \<longleftrightarrow>
    n = name \<and> v = VisibilityPublic \<or> FGARepoPublicGetTuple reg n \<in> S"
  by (auto simp: public_tuple_inj)

lemma settle_rename:
  "CHR ''/'' \<notin> set reg \<Longrightarrow> FGARepoPublicGetTuple reg n \<in> settle (renameIntents reg old new p pr v) S \<longleftrightarrow>
    n = new \<and> v = VisibilityPublic \<or> n \<noteq> old \<and> FGARepoPublicGetTuple reg n \<in> S"
  by (auto simp: renameIntents_def push_intent_tuples public_tuple_inj)

lemma keeps_create:
  assumes "c_visibility c = visibility" and "c_registry_id c = reg" and "c_name c = name"
  shows "keeps (InsertConfig c (createRepoIntents reg name p pr visibility))"
proof (rule keepsI)
  fix s a t
  assume "governed s" and "run_state (InsertConfig c (createRepoIntents reg name p pr visibility)) s = (a, t)"
  then show "governed t"
    by (rule governed_InsertConfig) (use assms create_intents_foreign in \<open>simp_all add: settle_create\<close>)
qed

lemma keeps_promote:
  assumes "c_visibility c = visibility" and "c_registry_id c = reg" and "c_name c = name"
  shows "keeps (InsertConfig c (if visibility = VisibilityPublic
    then [(FGAEventRegister, RegisterIntentForRepoPublicGrant reg name)] else []))"
proof (rule keepsI)
  fix s a t
  assume "governed s" and "run_state (InsertConfig c (if visibility = VisibilityPublic
    then [(FGAEventRegister, RegisterIntentForRepoPublicGrant reg name)] else [])) s = (a, t)"
  then show "governed t"
  proof (rule governed_InsertConfig)
    fix i n
    assume "i \<noteq> c_registry_id c" "CHR ''/'' \<notin> set i" "CHR ''/'' \<notin> set (c_registry_id c)"
    then show "\<forall>(ev, m) \<in> set (if visibility = VisibilityPublic
        then [(FGAEventRegister, RegisterIntentForRepoPublicGrant reg name)] else []).
      FGARepoPublicGetTuple i n \<notin> set (i_tuples m)"
      using assms promote_intents_foreign by simp
  qed (use assms settle_promote in auto)
qed

lemma governed_rename_insert:
  assumes "governed s" and "run_state (InsertConfig c (renameIntents reg old (c_name c) p pr (c_visibility c))) s = (res, t)"
    and "c_registry_id c = reg" and "\<not> public s reg old"
  shows "governed t"
  using assms(1,2)
  by (rule governed_InsertConfig) (use assms(3-) rename_intents_foreign in \<open>auto simp: settle_rename\<close>)

lemma public_map:
  assumes "find_config u reg name = Some c" and "distinct (map cfg_key (d_configs u))"
    and "\<And>c. cfg_key c = (reg, name) \<Longrightarrow> cfg_key (f c) = (reg, new)"
  shows "public (u\<lparr>d_configs := map_config reg name f (d_configs u)\<rparr>) i n \<longleftrightarrow>
    (i = reg \<and> n = new \<and> c_visibility (f c) = VisibilityPublic) \<or> ((i, n) \<noteq> (reg, name) \<and> public u i n)"
proof -
  from find_config_SomeD [OF assms(1)] have c: "c \<in> set (d_configs u)" "cfg_key c = (reg, name)" by auto
  have only: "x = c" if "x \<in> set (d_configs u)" "cfg_key x = (reg, name)" for x
    using that c assms(2) by (auto simp: distinct_map inj_on_def)
  show ?thesis
  proof
    assume "public (u\<lparr>d_configs := map_config reg name f (d_configs u)\<rparr>) i n"
    then obtain x where x: "x \<in> set (d_configs u)"
      "cfg_key (if cfg_key x = (reg, name) then f x else x) = (i, n)"
      "c_visibility (if cfg_key x = (reg, name) then f x else x) = VisibilityPublic"
      by (auto simp: public_def map_config_def)
    show "(i = reg \<and> n = new \<and> c_visibility (f c) = VisibilityPublic) \<or> ((i, n) \<noteq> (reg, name) \<and> public u i n)"
    proof (cases "cfg_key x = (reg, name)")
      case True
      with x only [OF x(1) True] assms(3) [OF c(2)] show ?thesis by simp
    next
      case False
      with x show ?thesis by (auto simp: public_def)
    qed
  next
    assume "(i = reg \<and> n = new \<and> c_visibility (f c) = VisibilityPublic) \<or> ((i, n) \<noteq> (reg, name) \<and> public u i n)"
    then show "public (u\<lparr>d_configs := map_config reg name f (d_configs u)\<rparr>) i n"
    proof
      assume "i = reg \<and> n = new \<and> c_visibility (f c) = VisibilityPublic"
      moreover have "f c \<in> set (map_config reg name f (d_configs u))"
        using c by (force simp: map_config_def)
      ultimately show ?thesis using assms(3) [OF c(2)] by (auto simp: public_def)
    next
      assume "(i, n) \<noteq> (reg, name) \<and> public u i n"
      then obtain x where "x \<in> set (d_configs u)" "cfg_key x = (i, n)" "c_visibility x = VisibilityPublic"
        "(i, n) \<noteq> (reg, name)" by (auto simp: public_def)
      then show ?thesis by (auto simp: public_def map_config_def intro!: bexI [of _ x])
    qed
  qed
qed

lemma settle_governance:
  "CHR ''/'' \<notin> set (cu_RegistryID u) \<Longrightarrow> FGARepoPublicGetTuple (cu_RegistryID u) n \<in> settle (updateGovernanceIntents u) S \<longleftrightarrow>
    (if n = cu_Name u \<and> cu_ApplyVisibility u then cu_Visibility u = VisibilityPublic
     else FGARepoPublicGetTuple (cu_RegistryID u) n \<in> S)"
  by (auto simp: updateGovernanceIntents_def public_tuple_inj)

lemma governance_foreign:
  "i \<noteq> cu_RegistryID u \<Longrightarrow> CHR ''/'' \<notin> set i \<Longrightarrow> CHR ''/'' \<notin> set (cu_RegistryID u) \<Longrightarrow>
    \<forall>(ev, n) \<in> set (updateGovernanceIntents u). FGARepoPublicGetTuple i m \<notin> set (i_tuples n)"
  by (simp add: updateGovernanceIntents_def public_tuple_inj)

lemma updated_key [simp]: "c_registry_id (set_config_columns u c) = c_registry_id c"
    "c_name (set_config_columns u c) = c_name c"
  by (simp_all add: set_config_columns_def Let_def)

lemma updated_visibility: "c_visibility (set_config_columns u c) =
    (if cu_ApplyVisibility u then visibility_from_string (visibility_string (cu_Visibility u)) else c_visibility c)"
  by (simp add: set_config_columns_def Let_def)

lemma keys_distinct: "db_ok s \<Longrightarrow> tables u = tables s \<Longrightarrow> distinct (map cfg_key (d_configs u))"
  using tables_eqD [of u s] by (simp add: db_ok_def configs_ok_def)

lemma keeps_UpdateConfig: "keeps (UpdateConfig c (updateGovernanceIntents c))"
proof (rule keepsI)
  fix s a t
  assume gov: "governed s" and run: "run_state (UpdateConfig c (updateGovernanceIntents c)) s = (a, t)"
  show "governed t"
  proof (rule governed_tx [OF gov run [unfolded UpdateConfig_def] evolves_of [OF evolution.g_UpdateConfig run]
        sql_config_frame(2)])
    fix u i name
    assume "i \<noteq> cu_RegistryID c"
    then show "public (snd (sql_update_config c u)) i name = public u i name"
      by (auto simp: sql_update_config_def public_def map_config_def cfg_key_def split: option.splits)
  next
    fix u out v name
    assume u: "tables u = tables s" "agrees u (cu_RegistryID c)" "db_ok s" and noslash: "CHR ''/'' \<notin> set (cu_RegistryID c)"
      and up: "sql_update_config c u = (Inr out, v)"
    from up obtain x where x: "find_config u (cu_RegistryID c) (cu_Name c) = Some x"
      "v = u\<lparr>d_configs := map_config (cu_RegistryID c) (cu_Name c) (set_config_columns c) (d_configs u)\<rparr>"
      by (auto simp: sql_update_config_def split: option.splits)
    have "public u (cu_RegistryID c) (cu_Name c) \<longleftrightarrow> c_visibility x = VisibilityPublic"
      using find_config_SomeD [OF x(1)] keys_distinct [OF u(3,1)] by (auto simp: public_def distinct_map inj_on_def)
    then show "FGARepoPublicGetTuple (cu_RegistryID c) name \<in> settle (updateGovernanceIntents c) (granted (d_outbox u)) \<longleftrightarrow>
        public v (cu_RegistryID c) name"
      using u(2) public_map [OF x(1) keys_distinct [OF u(3,1)], of "set_config_columns c" "cu_Name c"
          "cu_RegistryID c" name] noslash
      by (auto simp: x(2) settle_governance agrees_def updated_visibility stored_public)
  qed (rule governance_foreign)
qed

lemma settle_delete:
  "CHR ''/'' \<notin> set reg \<Longrightarrow> FGARepoPublicGetTuple reg n \<in> settle (deleteRepoIntents reg name) S \<longleftrightarrow>
    n \<noteq> name \<and> FGARepoPublicGetTuple reg n \<in> S"
  by (auto simp: deleteRepoIntents_def push_intent_tuples public_tuple_inj)

lemma keeps_DeleteConfig: "keeps (DeleteConfig reg name (deleteRepoIntents reg name))"
proof (rule keepsI)
  fix s a t
  assume gov: "governed s" and run: "run_state (DeleteConfig reg name (deleteRepoIntents reg name)) s = (a, t)"
  show "governed t"
  proof (rule governed_tx [OF gov run [unfolded DeleteConfig_def] evolves_of [OF evolution.g_DeleteConfig run]
        sql_config_frame(4)])
    fix u i n
    assume "i \<noteq> reg"
    then show "public (snd (sql_delete_config reg name u)) i n = public u i n"
      by (auto simp: sql_delete_config_def public_def split: option.splits)
  next
    fix i n
    assume "i \<noteq> reg" "CHR ''/'' \<notin> set i" "CHR ''/'' \<notin> set reg"
    then show "\<forall>(ev, m) \<in> set (deleteRepoIntents reg name). FGARepoPublicGetTuple i n \<notin> set (i_tuples m)"
      by (simp add: deleteRepoIntents_def push_intent_tuples public_tuple_inj)
  next
    fix u out v n
    assume "sql_delete_config reg name u = (Inr out, v)" "agrees u reg" "CHR ''/'' \<notin> set reg"
    then show "FGARepoPublicGetTuple reg n \<in> settle (deleteRepoIntents reg name) (granted (d_outbox u)) \<longleftrightarrow> public v reg n"
      by (auto simp: settle_delete agrees_def sql_delete_config_def public_def split: option.splits)
  qed
qed

lemma governed_Rekey:
  assumes gov: "governed s" and run: "run_state (RekeyConfig reg old new (renameIntents reg old new p pr (c_visibility c))) s = (res, t)"
    and c: "find_config s reg old = Some c"
  shows "governed t"
proof (rule governed_tx [OF gov run [unfolded RekeyConfig_def] evolves_of [OF evolution.g_RekeyConfig run]
      sql_config_frame(3)])
  fix u i n
  assume "i \<noteq> reg"
  then show "public (snd (sql_rekey_config reg old new u)) i n = public u i n"
    by (auto simp: sql_rekey_config_def public_def map_config_def cfg_key_def split: option.splits)
next
  fix u out v n
  assume u: "tables u = tables s" "agrees u reg" "db_ok s" and noslash: "CHR ''/'' \<notin> set reg"
    and rk: "sql_rekey_config reg old new u = (Inr out, v)"
  from c have cu: "find_config u reg old = Some c" by (simp add: tables_cong(2) [OF u(1)])
  with rk have x: "new = old \<or> find_config u reg new = None"
    "v = u\<lparr>d_configs := map_config reg old (\<lambda>c. c\<lparr>c_name := new\<rparr>) (d_configs u)\<rparr>"
    by (auto simp: sql_rekey_config_def split: if_splits)
  show "FGARepoPublicGetTuple reg n \<in> settle (renameIntents reg old new p pr (c_visibility c)) (granted (d_outbox u)) \<longleftrightarrow>
      public v reg n"
    using u(2) public_map [OF cu keys_distinct [OF u(3,1)], of "\<lambda>c. c\<lparr>c_name := new\<rparr>" new reg n] noslash
      x(1) not_public_absent [of u reg new]
    by (auto simp: x(2) settle_rename agrees_def cfg_key_def)
qed (rule rename_intents_foreign)

text \<open>Operations on the registry table: no registry appears, the overlays of those that stay are as
  they were, and no grant is emitted.\<close>

lemma governed_registries:
  assumes "governed s" and "evolves s t" and "r_id ` set (d_registries t) \<subseteq> r_id ` set (d_registries s)"
    and "\<And>i n. i \<in> r_id ` set (d_registries t) \<Longrightarrow> public t i n = public s i n"
    and "\<And>i n. FGARepoPublicGetTuple i n \<in> granted (d_outbox t) \<longleftrightarrow> FGARepoPublicGetTuple i n \<in> granted (d_outbox s)"
  shows "governed t"
  unfolding governed_def
proof (intro conjI ballI)
  show "db_ok t" using assms(1,2) by (simp add: evolves_def governed_def)
  fix i assume i: "i \<in> r_id ` set (d_registries t)"
  with assms(1,3) have "CHR ''/'' \<notin> set i" "agrees s i" unfolding governed_def by blast+
  with assms(4) [OF i] assms(5) show "CHR ''/'' \<notin> set i" "agrees t i" by (simp_all add: agrees_def)
qed

lemma emitted_grants:
  assumes "run_state (emitFGAIntent ev intent) s = (Inr u, t)" and "\<And>i n. FGARepoPublicGetTuple i n \<notin> set (i_tuples intent)"
  shows "FGARepoPublicGetTuple i n \<in> granted (d_outbox t) \<longleftrightarrow> FGARepoPublicGetTuple i n \<in> granted (d_outbox s)"
  using emitFGAIntent_Inr [OF assms(1)] assms(2)
  by (simp add: granted_append outbox_entry_def)

lemma trip_tables:
  "run_state (trip act) s = (r, t) \<Longrightarrow> tables t = tables s \<or> (\<exists>fs. t = snd (act (s\<lparr>d_faults := fs\<rparr>)))"
proof (cases "d_faults s")
  case Nil
  assume t: "run_state (trip act) s = (r, t)"
  have e: "s\<lparr>d_faults := []\<rparr> = s" using Nil by simp
  have "t = snd (act s)" using t Nil by (simp add: trip_def)
  then have "t = snd (act (s\<lparr>d_faults := []\<rparr>))" unfolding e .
  then show ?thesis by blast
next
  case (Cons f fs)
  assume "run_state (trip act) s = (r, t)"
  with Cons show ?thesis by (cases f) (auto simp: trip_def intro!: exI [of _ fs])
qed

lemma put_ids [simp]: "r_id ` set (put_registry row rs) = r_id ` set rs"
  by simp

lemma keeps_MarkDeleting: "keeps (repo_MarkDeleting i)"
proof (rule keepsI)
  fix s a t
  assume gov: "governed s" and run: "run_state (repo_MarkDeleting i) s = (a, t)"
  note ev = evolves_of [OF evolution.g_MarkDeleting run]
  from ready_cases [OF run [unfolded repo_MarkDeleting_def]] obtain r where
    "t = s \<or> run_state (trip (sql_mark_deleting i)) s = (r, t)"
    by (auto simp: wrapped_def run split: prod.splits)
  with trip_tables have "tables t = tables s \<or> (\<exists>fs. t = snd (sql_mark_deleting i (s\<lparr>d_faults := fs\<rparr>)))" by blast
  then show "governed t"
  proof
    assume "tables t = tables s"
    with gov ev show ?thesis by (blast intro: governed_tables)
  next
    assume "\<exists>fs. t = snd (sql_mark_deleting i (s\<lparr>d_faults := fs\<rparr>))"
    then obtain fs where t: "t = snd (sql_mark_deleting i (s\<lparr>d_faults := fs\<rparr>))" by blast
    have "r_id ` set (d_registries t) = r_id ` set (d_registries s)" "d_configs t = d_configs s"
      "d_outbox t = d_outbox s"
      by (simp_all add: t sql_mark_deleting_def Let_def split: option.split)
    then show ?thesis by (intro governed_registries [OF gov ev]) (simp_all add: public_def)
  qed
qed

lemma keeps_Update: "keeps (repo_Update u mirrorIntent)"
proof (rule keepsI)
  fix s a t
  assume gov: "governed s" and run: "run_state (repo_Update u mirrorIntent) s = (a, t)"
  note ev = evolves_of [OF evolution.g_Update run]
  from run [unfolded repo_Update_def] show "governed t"
  proof (cases rule: tx_cases)
    case unchanged
    with gov ev show ?thesis by (blast intro: governed_tables)
  next
    case (applied b s1 s2)
    from applied(2) obtain row v fs where up: "sql_update_registry u (s1\<lparr>d_faults := fs\<rparr>) = (Inr row, v)"
      and em: "run_state (emitFGAIntent FGAEventRegister (mirrorIntent row)) v = (Inr (), s2)"
      by (auto dest!: andThen_Inr wrapped_Inr trip_Inr simp: run_return)
    have v: "r_id ` set (d_registries v) = r_id ` set (d_registries s1)" "d_configs v = d_configs s1" "d_outbox v = d_outbox s1"
      using up by (clarsimp simp: sql_update_registry_def Let_def split: option.splits if_splits)+
    note tabs = tables_eqD [OF applied(1)] tables_eqD [OF applied(3)] emitFGAIntent_Inr [OF em]
    show ?thesis
    proof (rule governed_registries [OF gov ev])
      fix i n
      show "FGARepoPublicGetTuple i n \<in> granted (d_outbox t) \<longleftrightarrow> FGARepoPublicGetTuple i n \<in> granted (d_outbox s)"
        using emitted_grants [OF em, of i n] tabs v by (simp add: mirrorIntent_def push_intent_tuples)
    qed (use tabs v in \<open>simp_all add: public_def\<close>)
  qed
qed

lemma keeps_Delete: "keeps (repo_Delete i (UnregisterIntentForDelete i p))"
proof (rule keepsI)
  fix s a t
  assume gov: "governed s" and run: "run_state (repo_Delete i (UnregisterIntentForDelete i p)) s = (a, t)"
  note ev = evolves_of [OF evolution.g_Delete run]
  from run [unfolded repo_Delete_def] show "governed t"
  proof (cases rule: tx_cases)
    case unchanged
    with gov ev show ?thesis by (blast intro: governed_tables)
  next
    case (applied b s1 s2)
    from applied(2) obtain v fs where del: "sql_delete_registry i (s1\<lparr>d_faults := fs\<rparr>) = (Inr (), v)"
      and em: "run_state (emitFGAIntent FGAEventUnregister (UnregisterIntentForDelete i p)) v = (Inr (), s2)"
      by (auto dest!: andThen_Inr wrapped_Inr trip_Inr)
    have v: "d_registries v = filter (\<lambda>x. r_id x \<noteq> i) (d_registries s1)"
      "d_configs v = filter (\<lambda>c. c_registry_id c \<noteq> i) (d_configs s1)" "d_outbox v = d_outbox s1"
      using del by (auto simp: sql_delete_registry_def split: option.splits)
    note tabs = tables_eqD [OF applied(1)] tables_eqD [OF applied(3)] emitFGAIntent_Inr [OF em]
    show ?thesis
    proof (rule governed_registries [OF gov ev])
      fix j n
      show "FGARepoPublicGetTuple j n \<in> granted (d_outbox t) \<longleftrightarrow> FGARepoPublicGetTuple j n \<in> granted (d_outbox s)"
        using emitted_grants [OF em, of j n] tabs v(3) by (simp add: push_intent_tuples)
      assume "j \<in> r_id ` set (d_registries t)"
      then have "j \<noteq> i" using tabs v(1) by auto
      then show "public t j n = public s j n" using tabs v(2) by (auto simp: public_def cfg_key_def)
    qed (use tabs v in auto)
  qed
qed

lemma keeps_emitRepoIntent:
  assumes none: "\<And>i n. FGARepoPublicGetTuple i n \<notin> set (i_tuples intent)"
  shows "keeps (emitRepoIntent event intent)"
proof (rule keepsI)
  fix s a t
  assume gov: "governed s" and run: "run_state (emitRepoIntent event intent) s = (a, t)"
  note ev = evolves_of [OF evolution.g_emitRepoIntent run]
  show "governed t"
  proof (cases "i_tuples intent = []")
    case True
    with run have "t = s" by (auto simp: emitRepoIntent_def ready_def run_return run_bind run_get split: if_splits)
    with gov show ?thesis by simp
  next
    case False
    with run have "run_state (ready (in_tx (\<lambda>e. wrapPgErr e ''registry_outbox'' (i_resource_id intent))
        (andThen (wrapped (\<lambda>e. wrapPgErr e ''registry_outbox'' (i_resource_id intent)) (trip no_op))
          (\<lambda>_. emitFGAIntent event intent)))) s = (a, t)"
      by (simp add: emitRepoIntent_def)
    then show ?thesis
    proof (cases rule: tx_cases)
      case unchanged
      with gov ev show ?thesis by (blast intro: governed_tables)
    next
      case (applied b s1 s2)
      from applied(2) obtain v where v: "tables v = tables s1"
        and em: "run_state (emitFGAIntent event intent) v = (Inr (), s2)"
        by (auto dest!: andThen_Inr wrapped_Inr dest: trip_no_op)
      note tabs = tables_eqD [OF applied(1)] tables_eqD [OF applied(3)] emitFGAIntent_Inr [OF em] tables_eqD [OF v]
      show ?thesis
      proof (rule governed_registries [OF gov ev])
        fix j n
        show "FGARepoPublicGetTuple j n \<in> granted (d_outbox t) \<longleftrightarrow> FGARepoPublicGetTuple j n \<in> granted (d_outbox s)"
          using emitted_grants [OF em none, of j n] tabs by simp
      qed (use tabs in \<open>simp_all add: public_def\<close>)
    qed
  qed
qed

lemma keeps_Unregister: "keeps (UnregisterRepository (UnregisterIntentForRepo reg name))"
  unfolding UnregisterRepository_def by (rule keeps_emitRepoIntent) (simp add: push_intent_tuples)

lemma keeps_Register: "keeps (RegisterRepository (RegisterIntentForRepoPush reg name p sub))"
  unfolding RegisterRepository_def by (rule keeps_emitRepoIntent) (simp add: push_intent_tuples)

text \<open>An id that no public grant ever mentioned.\<close>

definition fresh_id :: "string \<Rightarrow> db \<Rightarrow> bool" where
  "fresh_id i s \<longleftrightarrow> CHR ''/'' \<notin> set i \<and> (\<forall>n. FGARepoPublicGetTuple i n \<notin> granted (d_outbox s))"

lemma governed_Insert:
  assumes gov: "governed s" and run: "run_state (repo_Insert r (RegisterIntentForCreate r pt pn)) s = (res, t)"
    and new: "fresh_id (r_id r) s"
  shows "governed t"
proof -
  have ev: "evolves s t" by (rule evolves_of [OF evolving.g_InsertRegistry run])
  from run [unfolded repo_Insert_def] show ?thesis
  proof (cases rule: tx_cases)
    case unchanged
    with gov ev show ?thesis by (blast intro: governed_tables)
  next
    case (applied b s1 s2)
    from applied(2) obtain row v fs where ins: "sql_insert_registry r (s1\<lparr>d_faults := fs\<rparr>) = (Inr row, v)"
      and em: "run_state (emitFGAIntent FGAEventRegister (RegisterIntentForCreate r pt pn)) v = (Inr (), s2)"
      by (auto dest!: andThen_Inr wrapped_Inr trip_Inr simp: run_return)
    have v: "d_registries v = d_registries s1 @ [row]" "r_id row = r_id r" "d_configs v = d_configs s1" "d_outbox v = d_outbox s1"
      "find_registry s1 (r_id r) = None"
      using ins by (auto simp: sql_insert_registry_def find_registry_def Let_def split: if_splits)
    note tabs = tables_eqD [OF applied(1)] tables_eqD [OF applied(3)] emitFGAIntent_Inr [OF em]
    have same: "FGARepoPublicGetTuple i n \<in> granted (d_outbox t) \<longleftrightarrow> FGARepoPublicGetTuple i n \<in> granted (d_outbox s)" for i n
      using emitted_grants [OF em, of i n] tabs v(4) by (simp add: push_intent_tuples)
    have "db_ok s" using gov by (simp add: governed_def)
    then have "c_registry_id c \<in> r_id ` set (d_registries s)" if "c \<in> set (d_configs s)" for c
      using that by (simp add: db_ok_def configs_ok_def)
    moreover have "r_id r \<notin> r_id ` set (d_registries s)" using v(5) tabs by (simp add: find_registry_None)
    ultimately have "c_registry_id c \<noteq> r_id r" if "c \<in> set (d_configs s)" for c using that by metis
    then have none: "\<not> public t (r_id r) n" for n using tabs v(3) by (auto simp: public_def cfg_key_def)
    have "CHR ''/'' \<notin> set i \<and> agrees t i" if "i \<in> r_id ` set (d_registries t)" for i
    proof (cases "i = r_id r")
      case True
      with new same none show ?thesis by (simp add: fresh_id_def agrees_def)
    next
      case False
      with that tabs v(1,2) have "i \<in> r_id ` set (d_registries s)" by auto
      with gov have "CHR ''/'' \<notin> set i" "agrees s i" by (auto simp: governed_def)
      with same tabs v(3) show ?thesis by (simp add: agrees_def public_def)
    qed
    with ev gov show ?thesis by (auto simp: governed_def evolves_def)
  qed
qed

end
