(* ===== verification/GrantGovernance.thy ===== *)
theory GrantGovernance
  imports PublicGrants
begin

text \<open>
  The invariant of \<open>PublicGrants\<close> over the requests, the workers and the system; and the run in
  which a change of visibility overtakes a rename, which breaks it.
\<close>

section \<open>Steps that leave the tables alone\<close>

definition steady :: "db \<Rightarrow> db \<Rightarrow> bool" where
  "steady s t \<longleftrightarrow> tables t = tables s \<and> evolves s t"

interpretation still: guarantee steady
  by unfold_locales (auto simp: steady_def evolution.refl evolution.faults evolution.undo intro: evolution.trans)

interpretation still: env_guarantee steady
  by unfold_locales

interpretation governance: env_guarantee "\<lambda>s t. governed s \<longrightarrow> governed t"
  by unfold_locales auto

lemma steady_governed: "steady s t \<Longrightarrow> governed s \<Longrightarrow> governed t"
  unfolding steady_def by (blast intro: governed_tables)

lemma guar_mono: "guar R m \<Longrightarrow> (\<And>s t. R s t \<Longrightarrow> S s t) \<Longrightarrow> guar S m"
  by (rule guarI) (blast dest: guarD)

lemma keeps_steady: "guar steady m \<Longrightarrow> keeps m"
  by (erule guar_mono) (metis steady_governed)

lemma peer_mono: "peer R m \<Longrightarrow> (\<And>s t. R s t \<Longrightarrow> S s t) \<Longrightarrow> peer S m"
  unfolding peer_def by (erule guar_mono) blast

lemma peers_mono: "peers R u \<Longrightarrow> (\<And>s t. R s t \<Longrightarrow> S s t) \<Longrightarrow> peers S u"
  unfolding peers_def by (intro conjI allI) (rule peer_mono [of R], simp, simp)+

text \<open>No peer touches the database: between two steps of a worker nothing else happens to it.\<close>

definition quiet :: "'x usecase \<Rightarrow> bool" where
  "quiet u \<longleftrightarrow> peers (\<lambda>s t. t = s) u"

lemma quiet_peers: "quiet u \<Longrightarrow> (\<And>s. R s s) \<Longrightarrow> peers R u"
  unfolding quiet_def by (erule peers_mono) simp

lemma quiet_steady: "quiet u \<Longrightarrow> peers steady u"
  by (rule quiet_peers) (auto simp: still.refl)

lemma quiet_governed: "quiet u \<Longrightarrow> peers (\<lambda>s t. governed s \<longrightarrow> governed t) u"
  by (rule quiet_peers) auto

section \<open>From a state to a governed state\<close>

definition leads :: "(db \<Rightarrow> bool) \<Rightarrow> ('x env, 'a) state \<Rightarrow> bool" where
  "leads P m \<longleftrightarrow> (\<forall>e. P (e_db e) \<longrightarrow> wp m (\<lambda>_ f. governed (e_db f)) e)"

lemma leads_andThen:
  assumes m: "peer steady m" and f: "\<And>a. leads P (f a)"
    and stable: "\<And>s t. P s \<Longrightarrow> steady s t \<Longrightarrow> P t" and gov: "\<And>s. P s \<Longrightarrow> governed s"
  shows "leads P (andThen m f)"
  unfolding leads_def
proof (intro allI impI wp_runI)
  fix e r g
  assume p: "P (e_db e)" and r0: "run_state (andThen m f) e = (r, g)"
  obtain x e' where x: "run_state m e = (x, e')" by force
  from guarD [OF m [unfolded peer_def] x] stable [OF p] have p': "P (e_db e')" by blast
  show "governed (e_db g)"
  proof (cases x)
    case (Inl err)
    with r0 x p' gov show ?thesis by (simp add: run)
  next
    case (Inr a)
    with r0 x have "run_state (f a) e' = (r, g)" by (simp add: run)
    with f [of a] p' show ?thesis unfolding leads_def by (blast dest: wp_runD)
  qed
qed

lemma leads_keeps: "keeps m \<Longrightarrow> (\<And>s. P s \<Longrightarrow> governed s) \<Longrightarrow> leads P (on_db m)"
  unfolding leads_def by (auto intro!: wp_runI dest!: guarD simp: run split: prod.splits)

lemma leads_peer: "peer (\<lambda>s t. governed s \<longrightarrow> governed t) m \<Longrightarrow> (\<And>s. P s \<Longrightarrow> governed s) \<Longrightarrow> leads P m"
  unfolding leads_def peer_def by (auto intro!: wp_runI dest: guarD)

lemma leads_bind:
  assumes "leads P m" and "\<And>a. peer (\<lambda>s t. governed s \<longrightarrow> governed t) (f a)"
  shows "leads P (State_Monad.bind m f)"
  using assms unfolding leads_def peer_def guar_def by (force simp: wp_def run split: prod.splits)

section \<open>Reading an overlay\<close>

lemma GetConfig_run:
  assumes "run_state (GetConfig reg name) s = (r, t)"
  shows "(\<forall>c. r = Inr c \<longrightarrow> find_config s reg name = Some c) \<and>
    (\<forall>e. r = Inl e \<and> is_sentinel e ErrNotFound \<longrightarrow> find_config s reg name = None)"
proof -
  have nf: "is_sentinel (mapConfigErr err) ErrNotFound \<longleftrightarrow> err = NoRows" for err
    by (cases err) (simp_all add: mapConfigErr_def)
  have f: "failure_error x \<noteq> NoRows" for x by (cases x) simp_all
  have [simp]: "find_config (s\<lparr>d_faults := fs\<rparr>) reg name = find_config s reg name" for fs
    by (simp add: find_config_def)
  show ?thesis using assms nf f
    by (auto simp: GetConfig_def ready_def wrapped_def run trip_def sql_select_config_def map_err_def
        split: if_splits list.splits fault.splits option.splits sum.splits prod.splits)
qed

lemma overlay_of_run:
  assumes "run_state (overlay_of reg name) e = (Inr x, f)"
  shows "find_config (e_db e) reg name = x"
proof -
  obtain r t where r: "run_state (GetConfig reg name) (e_db e) = (r, t)" by force
  with assms GetConfig_run [OF r] show ?thesis
    by (auto simp: overlay_of_def run split: sum.splits if_splits)
qed

lemma leads_overlay:
  assumes f: "\<And>x. leads (\<lambda>s. P s \<and> find_config s reg name = x) (f x)"
    and stable: "\<And>s t. P s \<Longrightarrow> steady s t \<Longrightarrow> P t" and gov: "\<And>s. P s \<Longrightarrow> governed s"
  shows "leads P (andThen (overlay_of reg name) f)"
  unfolding leads_def
proof (intro allI impI wp_runI)
  fix e r g
  assume p: "P (e_db e)" and r0: "run_state (andThen (overlay_of reg name) f) e = (r, g)"
  obtain x e' where x: "run_state (overlay_of reg name) e = (x, e')" by force
  have st: "steady (e_db e) (e_db e')"
    by (rule guarD [OF still.p_overlay [OF still.g_GetConfig, unfolded peer_def] x])
  then have p': "P (e_db e')" by (rule stable [OF p])
  show "governed (e_db g)"
  proof (cases x)
    case (Inl err)
    with r0 x p' gov show ?thesis by (simp add: run)
  next
    case (Inr a)
    from overlay_of_run [OF x [unfolded Inr]] tables_cong(2) [of "e_db e'" "e_db e"] st
    have "find_config (e_db e') reg name = a" by (simp add: steady_def)
    moreover from Inr r0 x have "run_state (f a) e' = (r, g)" by (simp add: run)
    ultimately show ?thesis using f [of a] p' unfolding leads_def by (blast dest: wp_runD)
  qed
qed

section \<open>Workers and requests\<close>

lemma still_target: "quiet u \<Longrightarrow> peer steady (assertTargetFree u reg name)"
  unfolding assertTargetFree_def
  by (intro still.p_if still.p_rules still.p_overlay still.g_GetConfig peersD quiet_steady)

lemma leads_rename:
  assumes "quiet u"
  shows "leads governed (doRename u reg name newName pr)"
  unfolding doRename_def Let_def
proof (intro leads_overlay leads_andThen still_target still.p_rules peersD(10) quiet_steady assms still.g_Get leads_bind)
  fix overlay :: "repo_config option" and r :: registry
  let ?v = "resolveVisibility (case overlay of None \<Rightarrow> r_default_visibility r | Some c \<Rightarrow> c_visibility c) (r_default_visibility r)"
  let ?is = "renameIntents reg name newName (r_project_id r) pr ?v"
  show "leads (\<lambda>s. governed s \<and> find_config s reg name = overlay)
      (case overlay of None \<Rightarrow> on_db (InsertConfig \<lparr>c_registry_id = reg, c_name = newName, c_description = [],
            c_labels = [], c_visibility = ?v, c_created_at = 0\<rparr> ?is)
        | Some c \<Rightarrow> on_db (RekeyConfig reg name newName ?is))"
  proof (cases overlay)
    case None
    show ?thesis unfolding leads_def
    proof (intro allI impI wp_runI)
      fix e a f
      let ?c = "\<lparr>c_registry_id = reg, c_name = newName, c_description = [], c_labels = [], c_visibility = ?v, c_created_at = 0\<rparr>"
      assume g: "governed (e_db e) \<and> find_config (e_db e) reg name = overlay"
        and r0: "run_state (case overlay of None \<Rightarrow> on_db (InsertConfig ?c ?is)
          | Some c \<Rightarrow> on_db (RekeyConfig reg name newName ?is)) e = (a, f)"
      then obtain t where t: "run_state (InsertConfig ?c ?is) (e_db e) = (a, t)" "f = e\<lparr>e_db := t\<rparr>"
        by (auto simp: None run split: prod.splits)
      from g None have "\<not> public (e_db e) reg name" by (simp add: not_public_absent)
      then show "governed (e_db f)"
        using governed_rename_insert [of "e_db e" ?c reg name "r_project_id r" pr a t] g t by simp
    qed
  next
    case (Some c)
    show ?thesis unfolding leads_def
    proof (intro allI impI wp_runI)
      fix e a f
      assume g: "governed (e_db e) \<and> find_config (e_db e) reg name = overlay"
        and r0: "run_state (case overlay of None \<Rightarrow> on_db (InsertConfig \<lparr>c_registry_id = reg, c_name = newName,
            c_description = [], c_labels = [], c_visibility = ?v, c_created_at = 0\<rparr> ?is)
          | Some c \<Rightarrow> on_db (RekeyConfig reg name newName ?is)) e = (a, f)"
      then obtain t where t: "run_state (RekeyConfig reg name newName ?is) (e_db e) = (a, t)" "f = e\<lparr>e_db := t\<rparr>"
        by (auto simp: Some run split: prod.splits)
      have c: "c \<in> set (d_configs (e_db e))" using g Some find_config_SomeD [of "e_db e" reg name c] by simp
      with g have "c_visibility c \<in> {VisibilityPrivate, VisibilityPublic}"
        by (auto simp: governed_def db_ok_def configs_ok_def)
      then have "?v = c_visibility c" by (auto simp: Some resolveVisibility_def)
      then show "governed (e_db f)"
        using governed_Rekey [of "e_db e" reg name newName "r_project_id r" pr c a t] g t Some by simp
    qed
  qed
next
  fix overlay :: "repo_config option" and r :: registry and a :: "gerror + repo_config"
  show "peer (\<lambda>s t. governed s \<longrightarrow> governed t)
      (case a of Inl werr \<Rightarrow> State_Monad.return (Inl (if is_sentinel werr ErrAlreadyExists
          then failAlreadyExists ''repository already exists'' else mapRepoErr werr))
        | Inr row \<Rightarrow> andThen (mapped (z_RepositoryProjection (u_zot u) reg newName))
            (\<lambda>proj. State_Monad.return (Inr (mergeRepository reg newName (Some row) proj))))"
    by (intro governance.p_sum governance.p_rules peersD quiet_governed assms)
qed (auto intro: steady_governed simp: steady_def dest: tables_cong(2))

lemma leads_peerI: "leads governed m \<Longrightarrow> peer (\<lambda>s t. governed s \<longrightarrow> governed t) m"
  unfolding leads_def peer_def guar_def by (simp add: wp_def split: prod.splits)

lemma keeps_reads: "keeps (repo_Get i)" "keeps (GetConfig reg name)"
  by (intro keeps_steady still.g_Get still.g_GetConfig)+

lemmas keeps_store = keeps_reads keeps_create keeps_promote keeps_UpdateConfig keeps_DeleteConfig
  keeps_MarkDeleting keeps_Update keeps_Delete keeps_Unregister

lemma governed_apply: "peer (\<lambda>s t. governed s \<longrightarrow> governed t) (applyRepoUpdate u spec pr)"
  unfolding applyRepoUpdate_def Let_def
  by (intro governance.p_sum governance.p_if governance.p_rules keeps_store) simp_all

lemma governed_doDelete: "quiet u \<Longrightarrow> peer (\<lambda>s t. governed s \<longrightarrow> governed t) (doDelete u reg)"
  unfolding doDelete_def
  by (intro governance.p_sum governance.p_rules governance.p_done keeps_store peersD quiet_governed)

lemma governed_unregister: "quiet u \<Longrightarrow> peer (\<lambda>s t. governed s \<longrightarrow> governed t) (unregisterRepoIfEmpty u reg name)"
  unfolding unregisterRepoIfEmpty_def
  by (intro governance.p_if governance.p_rules keeps_store peersD quiet_governed)

lemma governed_job: "quiet u \<Longrightarrow> peer (\<lambda>s t. governed s \<longrightarrow> governed t) (run_job u j)"
  by (cases j) (simp_all add: doUpdate_def doDeleteTag_def doTriggerGC_def finishCreateRepository_def
      doUpdateRepository_def doDeleteRepository_def doRenameRepository_def,
    (intro governance.p_rules governance.p_done keeps_store governed_doDelete governed_apply governed_unregister
      leads_peerI leads_rename peersD quiet_governed; assumption)+)

text \<open>\<open>ids.NewID\<close> never hands out an id twice: in particular none that the outbox already speaks of,
  and an id has no slash.\<close>

definition fresh_ids :: "'x usecase \<Rightarrow> bool" where
  "fresh_ids u \<longleftrightarrow> (\<forall>e i f. run_state (u_NewID u (cl_PrefixRegistry (u_corelib u))) e = (i, f) \<longrightarrow>
     fresh_id i (e_db e))"

text \<open>Creation inserts the row only after steps that leave the database as it was when the id was
  drawn.\<close>

interpretation idle: env_guarantee "\<lambda>s t. t = s"
  by unfold_locales auto

definition moves :: "(db \<Rightarrow> bool) \<Rightarrow> ('x world, 'a) state \<Rightarrow> bool" where
  "moves P m \<longleftrightarrow> (\<forall>w. P (e_db (w_env w)) \<longrightarrow> wp m (\<lambda>_ v. governed (e_db (w_env v))) w)"

lemma moves_andThen:
  assumes m: "idle.serves m" and f: "\<And>a. moves P (f a)" and gov: "\<And>s. P s \<Longrightarrow> governed s"
  shows "moves P (andThen m f)"
  unfolding moves_def
proof (intro allI impI wp_runI)
  fix w r v
  assume p: "P (e_db (w_env w))" and r0: "run_state (andThen m f) w = (r, v)"
  obtain x w' where x: "run_state m w = (x, w')" by force
  from guarD [OF m [unfolded idle.serves_def] x] have same: "e_db (w_env w') = e_db (w_env w)" by simp
  show "governed (e_db (w_env v))"
  proof (cases x)
    case (Inl e)
    with r0 x p same gov show ?thesis by (auto simp: run)
  next
    case (Inr a)
    with r0 x have "run_state (f a) w' = (r, v)" by (simp add: run)
    moreover have "wp (f a) (\<lambda>_ v. governed (e_db (w_env v))) w'" using f [of a] p same by (simp add: moves_def)
    ultimately show ?thesis by (rule wp_runD [rotated])
  qed
qed

lemma moves_insert:
  assumes "\<And>r. governance.serves (f r)"
  shows "moves (\<lambda>s. governed s \<and> fresh_id (r_id reg) s)
    (State_Monad.bind (on_env (on_db (repo_Insert reg (RegisterIntentForCreate reg pt pn)))) f)"
  unfolding moves_def
proof (intro allI impI wp_runI)
  fix w a v
  assume p: "governed (e_db (w_env w)) \<and> fresh_id (r_id reg) (e_db (w_env w))"
    and r0: "run_state (State_Monad.bind (on_env (on_db (repo_Insert reg (RegisterIntentForCreate reg pt pn)))) f) w = (a, v)"
  obtain res t where t: "run_state (repo_Insert reg (RegisterIntentForCreate reg pt pn)) (e_db (w_env w)) = (res, t)" by force
  from governed_Insert [OF _ t] p have "governed t" by blast
  moreover from r0 t have "run_state (f res) (w\<lparr>w_env := (w_env w)\<lparr>e_db := t\<rparr>\<rparr>) = (a, v)" by (simp add: run)
  ultimately show "governed (e_db (w_env v))"
    using guarD [OF assms [unfolded governance.serves_def]] by fastforce
qed

lemma governed_Create:
  assumes "quiet u" and "fresh_ids u"
  shows "moves governed (Create u pr spec)"
proof -
  have q: "peers (\<lambda>s t. t = s) u" using assms(1) by (simp add: quiet_def)
  let ?p = "cl_PrefixRegistry (u_corelib u)"
  have body: "moves governed (State_Monad.bind (on_env (u_NewID u ?p)) f)"
    if "\<And>i. moves (\<lambda>s. governed s \<and> fresh_id i s) (f i)" for f
    unfolding moves_def
  proof (intro allI impI wp_runI)
    fix w a v
    assume g: "governed (e_db (w_env w))" and r0: "run_state (State_Monad.bind (on_env (u_NewID u ?p)) f) w = (a, v)"
    obtain i e where i: "run_state (u_NewID u ?p) (w_env w) = (i, e)" by force
    have "e_db e = e_db (w_env w)" using guarD [OF peersD(13) [OF q, unfolded peer_def] i] .
    moreover have "fresh_id i (e_db (w_env w))" using assms(2) i unfolding fresh_ids_def by blast
    moreover from r0 i have "run_state (f i) (w\<lparr>w_env := e\<rparr>) = (a, v)" by (simp add: run)
    moreover have "wp (f i) (\<lambda>_ v. governed (e_db (w_env v))) (w\<lparr>w_env := e\<rparr>)"
      using that [of i] g calculation(1,2) by (simp add: moves_def)
    ultimately show "governed (e_db (w_env v))" by (blast dest: wp_runD)
  qed
  show ?thesis
    unfolding Create_def Let_def
    by (intro moves_andThen body moves_insert [where reg = "\<lparr>r_id = i, r_project_id = p, r_name = n,
          r_description = d, r_labels = ls, r_status = st, r_created_at = c, r_default_visibility = dv\<rparr>" for i p n d ls st c dv,
          unfolded registry.simps] idle.w_rules idle.w_open idle.p_rules peersD q
        governance.w_sum governance.w_rules) simp_all
qed

lemma moves_serves: "moves governed m \<Longrightarrow> governance.serves m"
  unfolding moves_def governance.serves_def guar_def by (simp add: wp_def split: prod.splits)

lemma governed_handle:
  assumes "quiet u" and "fresh_ids u"
  shows "governance.serves (handle u pr r)"
proof -
  show ?thesis
    by (cases r) (auto simp: Update_def Delete_def DeleteTag_def TriggerGC_def Let_def
        CreateRepository_def UpdateRepository_def DeleteRepository_def RenameRepository_def
      intro!: governance.w_rules governance.w_submit governance.w_open governance.p_rules keeps_store
        peersD quiet_governed assms moves_serves [OF governed_Create [OF assms]])
qed

section \<open>The data plane as the environment\<close>

text \<open>What pushes and their upkeep do to the store: register a pushed repository, record and forget
  blobs and push grants.\<close>

fun data_plane_op :: "store_op \<Rightarrow> bool" where
  "data_plane_op (OpRegisterRepo n) = (\<exists>reg repo p sub. n = RegisterIntentForRepoPush reg repo p sub)"
| "data_plane_op (OpRecordBlob reg repo d) = True"
| "data_plane_op (OpSweepBlobs ttl) = True"
| "data_plane_op (OpRecordGrant reg repo sub) = True"
| "data_plane_op (OpDeleteGrant reg repo sub) = True"
| "data_plane_op (OpSweepGrants ttl) = True"
| "data_plane_op _ = False"

inductive data_plane :: "'x env \<Rightarrow> 'x env \<Rightarrow> bool" where
  push: "data_plane_op op \<Longrightarrow> store_step op (e_db e) s \<Longrightarrow> e_db f = s \<Longrightarrow> data_plane e f"

definition bookkeeping :: "db \<Rightarrow> db \<Rightarrow> bool" where
  "bookkeeping s t \<longleftrightarrow> d_registries t = d_registries s \<and> d_configs t = d_configs s \<and> d_outbox t = d_outbox s \<and>
     evolves s t"

interpretation books: guarantee bookkeeping
  by unfold_locales
    (auto simp: bookkeeping_def evolution.refl evolution.faults rollback_def
      intro: evolution.trans evolution.undo [unfolded rollback_def])

lemma bookkeeping_governed: "bookkeeping s t \<Longrightarrow> governed s \<Longrightarrow> governed t"
  by (rule governed_registries [of s]) (simp_all add: bookkeeping_def public_def)

lemma books_freshness:
  "guar bookkeeping (RecordUploadedBlob reg repo d)" "guar bookkeeping (SweepStaleBlobs ttl)"
  "guar bookkeeping (RecordPushGrant reg repo sub)" "guar bookkeeping (DeletePushGrant reg repo sub)"
  "guar bookkeeping (SweepStaleGrants ttl)"
  unfolding RecordUploadedBlob_def SweepStaleBlobs_def RecordPushGrant_def DeletePushGrant_def SweepStaleGrants_def
  by (auto intro!: books.g_rules simp: bookkeeping_def evolution.s_blobs evolution.s_grants evolution.refl)

lemma governed_clock: "governed (s\<lparr>d_now := n, d_clock := c, d_faults := fs\<rparr>) = governed s"
  by (simp add: governed_def db_ok_def agrees_def public_def)

lemma governed_data_plane:
  assumes "data_plane e f" and "governed (e_db e)"
  shows "governed (e_db f)"
  using assms(1)
proof cases
  case (push op s)
  from push(2) obtain n c fs where s: "s = effect op ((e_db e)\<lparr>d_now := n, d_clock := c, d_faults := fs\<rparr>)"
    by (auto elim: store_stepE)
  let ?s = "(e_db e)\<lparr>d_now := n, d_clock := c, d_faults := fs\<rparr>"
  have g: "governed ?s" using assms(2) by (simp add: governed_clock)
  have step: "governed (snd (run_state m ?s))" if "keeps m" for m :: "(db, 'b) state"
    using guarD [OF that, of ?s "fst (run_state m ?s)" "snd (run_state m ?s)"] g by simp
  have "governed s"
    using push(1) unfolding s
    by (cases op) (auto intro!: step keeps_Register guar_mono [OF books_freshness(1)]
        guar_mono [OF books_freshness(2)] guar_mono [OF books_freshness(3)] guar_mono [OF books_freshness(4)]
        guar_mono [OF books_freshness(5)] intro: bookkeeping_governed)
  with push(3) show ?thesis by simp
qed

text \<open>
  C19. Anonymous access follows visibility: in every state the system can reach - requests, workers
  and pushes in any order, any failures of the database - and for every registry that exists, the
  authorization store that results from the outbox lets everyone pull a repository exactly when
  its overlay is PUBLIC. It is assumed that ids are never reused and that nothing else writes the
  database while one worker waits for a peer.
\<close>

theorem public_grants_follow_visibility:
  assumes "quiet u" and "fresh_ids u" and "reachable data_plane u w v" and "governed (e_db (w_env w))"
    and "i \<in> r_id ` set (d_registries (e_db (w_env v)))"
  shows "FGARepoPublicGetTuple i name \<in> granted (d_outbox (e_db (w_env v))) \<longleftrightarrow>
    (\<exists>c \<in> set (d_configs (e_db (w_env v))). c_registry_id c = i \<and> c_name c = name \<and> c_visibility c = VisibilityPublic)"
proof -
  have "governed (e_db (w_env v))"
    using assms(3,4)
  proof (induction rule: reachable.induct)
    case (next_step v v')
    then have g: "governed (e_db (w_env v))" by blast
    from next_step.hyps(2) show ?case
    proof (cases rule: sys_step.cases)
      case (request pr r res)
      with g show ?thesis
        using guarD [OF governed_handle [OF assms(1,2), unfolded governance.serves_def]] by blast
    next
      case (worker before j k after res e)
      with g show ?thesis using guarD [OF governed_job [OF assms(1), unfolded peer_def]] by fastforce
    next
      case (environment e)
      with g governed_data_plane show ?thesis by auto
    qed
  qed
  with assms(5) have "agrees (e_db (w_env v)) i" by (auto simp: governed_def)
  then show ?thesis by (simp add: agrees_def public_def cfg_key_def)
qed

text \<open>Ids that are longer than everything the outbox mentions.\<close>

definition outbox_weight :: "db \<Rightarrow> nat" where
  "outbox_weight s = sum_list (map (\<lambda>b. sum_list (map (\<lambda>p. length (tp_object p)) (i_tuples (ob_intent b)))) (d_outbox s))"

definition fresh_usecase :: "demo_ext usecase" where
  "fresh_usecase = demo_usecase\<lparr>u_NewID := \<lambda>prefix. State (\<lambda>e. (prefix @ replicate (outbox_weight (e_db e)) CHR ''a'', e))\<rparr>"

lemma settle_source: "p \<in> settle xs S \<Longrightarrow> p \<in> S \<or> (\<exists>(ev, i) \<in> set xs. p \<in> set (i_tuples i))"
  by (induction xs arbitrary: S) (fastforce split: if_splits)+

lemma granted_weight:
  assumes "p \<in> granted (d_outbox s)" shows "length (tp_object p) \<le> outbox_weight s"
proof -
  from settle_source [OF assms [unfolded granted_def]] obtain b where
    b: "b \<in> set (d_outbox s)" "p \<in> set (i_tuples (ob_intent b))" by auto
  have "length (tp_object p) \<le> sum_list (map (\<lambda>p. length (tp_object p)) (i_tuples (ob_intent b)))"
    using b(2) by (intro member_le_sum_list) auto
  also have "\<dots> \<le> outbox_weight s" unfolding outbox_weight_def using b(1) by (intro member_le_sum_list) auto
  finally show ?thesis .
qed

lemma fresh_usecase_ok: "fresh_ids fresh_usecase" "quiet fresh_usecase"
proof -
  have "fresh_id (''reg'' @ replicate (outbox_weight s) CHR ''a'') s" for s
    using granted_weight [of _ s]
    by (fastforce simp: fresh_id_def FGARepoPublicGetTuple_def FGAObjectRef_def repoObjectID_def)
  then show "fresh_ids fresh_usecase"
    by (simp add: fresh_ids_def fresh_usecase_def demo_usecase_def NewUseCase_def demo_corelib_def)
  have "peers (\<lambda>s t. t = s) demo_usecase" by (rule demo_peers) simp
  then show "quiet fresh_usecase"
    by (simp add: quiet_def fresh_usecase_def peers_def peer_def guar_def)
qed

definition ask_fresh :: "demo_ext usecase \<Rightarrow> rpc \<Rightarrow> demo_ext world \<Rightarrow> demo_ext world" where
  "ask_fresh u r w = snd (run_state (handle u demo_principal r) w)"

definition demo_create_repo :: create_repo_spec where
  "demo_create_repo = \<lparr>rs_RegistryID = ''reg'', rs_Repository = ''app'', rs_Description = [], rs_Labels = [],
     rs_Visibility = VisibilityPublic\<rparr>"

definition public_world :: "demo_ext usecase \<Rightarrow> demo_ext world" where
  "public_world u = ask_fresh u (RCreateRepository demo_create_repo) (ask_fresh u (RCreate demo_create) demo_world)"

lemma ask_reachable: "reachable rely u w v \<Longrightarrow> reachable rely u w (ask_fresh u r v)"
  by (erule reachable.next_step, cases "run_state (handle u demo_principal r) v")
    (simp add: ask_fresh_def sys_step.request)

lemma demo_world_governed: "governed (e_db (w_env demo_world))"
  by (simp add: governed_def demo_world_def empty_db_ok) (simp add: empty_db_def)

lemma public_grants_follow_visibility_witness:
  "FGARepoPublicGetTuple ''reg'' ''app'' \<in> granted (d_outbox (e_db (w_env (public_world fresh_usecase))))"
proof -
  let ?s = "e_db (w_env (public_world fresh_usecase))"
  have "reachable data_plane fresh_usecase demo_world (public_world fresh_usecase)"
    unfolding public_world_def by (intro ask_reachable reachable.start)
  moreover have "list_ex (\<lambda>r. r_id r = ''reg'') (d_registries ?s)" by code_simp
  then have "''reg'' \<in> r_id ` set (d_registries ?s)" by (force simp: list_ex_iff)
  moreover have "list_ex (\<lambda>c. c_registry_id c = ''reg'' \<and> c_name c = ''app'' \<and> c_visibility c = VisibilityPublic) (d_configs ?s)"
    by code_simp
  ultimately show ?thesis
    using public_grants_follow_visibility [OF fresh_usecase_ok(2,1) _ demo_world_governed, of "public_world fresh_usecase" "''reg''" "''app''"]
    by (auto simp: list_ex_iff)
qed

section \<open>Where the governance fails\<close>

text \<open>An engine that takes its time: while the rename of \<open>a\<close> is in flight, another request makes this
  repository private.\<close>

definition make_private :: "string \<Rightarrow> string \<Rightarrow> config_update" where
  "make_private reg name = \<lparr>cu_RegistryID = reg, cu_Name = name, cu_Description = [], cu_Labels = [],
     cu_Visibility = VisibilityPrivate, cu_ApplyDescription = False, cu_ApplyLabels = False,
     cu_ApplyVisibility = True\<rparr>"

definition racing_usecase :: "demo_ext usecase" where
  "racing_usecase = fresh_usecase\<lparr>u_zot := demo_zot\<lparr>z_RenameRepository := \<lambda>reg a b.
     do { updated \<leftarrow> applyRepoUpdate fresh_usecase (make_private reg a) demo_principal;
          change (map (\<lambda>(n, k). (if n = a then b else n, k))) }\<rparr>\<rparr>"

definition race :: "demo_ext world" where
  "race = (case run_state (run_job racing_usecase (JRenameRepository ''reg'' ''app'' ''web'' demo_principal))
      (w_env (public_world racing_usecase)) of (res, e) \<Rightarrow> (public_world racing_usecase)\<lparr>w_env := e\<rparr>)"

text \<open>
  A rename can publish a private repository: the worker of a rename reads the visibility before
  it asks the engine and emits the grants for that visibility afterwards, so when the repository is
  made private while the engine works, the renamed overlay is PRIVATE and everyone may pull it.
\<close>

theorem rename_race_leaves_public_grant:
  "FGARepoPublicGetTuple ''reg'' ''web'' \<in> granted (d_outbox (e_db (w_env race))) \<and>
   map (\<lambda>c. (c_registry_id c, c_name c, c_visibility c)) (d_configs (e_db (w_env race))) =
     [(''reg'', ''web'', VisibilityPrivate)]"
proof
  show "FGARepoPublicGetTuple ''reg'' ''web'' \<in> granted (d_outbox (e_db (w_env race)))" by code_simp
  show "map (\<lambda>c. (c_registry_id c, c_name c, c_visibility c)) (d_configs (e_db (w_env race))) =
     [(''reg'', ''web'', VisibilityPrivate)]" by code_simp
qed

end
