(* ===== verification/RegistryProps.thy ===== *)
theory RegistryProps
  imports GrantGovernance
begin

text \<open>
  What the workers of deletions promise: a registry and a repository go only after the engine has
  confirmed that nothing is left in them, and with them goes exactly what belongs to them.
\<close>

section \<open>Deleting a registry\<close>

text \<open>The rows after a mark: those of registry \<open>i\<close> are DELETING, nothing else of them differs.\<close>

definition marked :: "string \<Rightarrow> registry list \<Rightarrow> registry list" where
  "marked i rs = map (\<lambda>r. if r_id r = i then r\<lparr>r_status := RegistryStatusDeleting\<rparr> else r) rs"

lemma filter_marked: "filter (\<lambda>r. r_id r \<noteq> i) (marked i rs) = filter (\<lambda>r. r_id r \<noteq> i) rs"
  by (induction rs) (auto simp: marked_def)

lemma marked_ids: "r_id ` set (marked i rs) = r_id ` set rs"
  by (induction rs) (simp_all add: marked_def)

lemma put_registry_marked:
  assumes "distinct (map r_id rs)" and "find_registry s i = Some x" and "d_registries s = rs"
  shows "put_registry (x\<lparr>r_status := RegistryStatusDeleting\<rparr>) rs = marked i rs"
proof -
  from find_registry_SomeD [OF assms(2)] assms(3) have x: "x \<in> set rs" "r_id x = i" by simp_all
  have same: "y = x" if "y \<in> set rs" "r_id y = i" for y
    using inj_onD [of r_id "set rs" y x] assms(1) x that by (simp add: distinct_map)
  show ?thesis
    unfolding put_registry_def marked_def
  proof (rule map_cong [OF refl])
    fix y
    assume "y \<in> set rs"
    from same [OF this] x(2) show "(if r_id y = r_id (x\<lparr>r_status := RegistryStatusDeleting\<rparr>) then x\<lparr>r_status := RegistryStatusDeleting\<rparr> else y) =
        (if r_id y = i then y\<lparr>r_status := RegistryStatusDeleting\<rparr> else y)"
      by (cases "r_id y = i") simp_all
  qed
qed

lemma sql_mark_deleting_marks:
  assumes "db_ok s" and "sql_mark_deleting i s = (w, u)"
  shows "d_registries u \<in> {d_registries s, marked i (d_registries s)} \<and> d_configs u = d_configs s \<and> d_outbox u = d_outbox s \<and>
    (\<forall>row. w = Inr row \<longrightarrow> d_registries u = marked i (d_registries s) \<and>
      (\<exists>x. find_registry s i = Some x \<and> row = x\<lparr>r_status := RegistryStatusDeleting\<rparr>))"
proof -
  have "distinct (map r_id (d_registries s))" using assms(1) by (simp add: db_ok_def registries_ok_def)
  from put_registry_marked [OF this] assms(2) show ?thesis
    by (auto simp: sql_mark_deleting_def Let_def split: option.splits if_splits)
qed

lemma MarkDeleting_outcome:
  assumes "db_ok s" and "run_state (repo_MarkDeleting i) s = (r, t)"
  shows "d_registries t \<in> {d_registries s, marked i (d_registries s)} \<and> d_configs t = d_configs s \<and> d_outbox t = d_outbox s \<and>
    (\<forall>row. r = Inr row \<longrightarrow> d_registries t = marked i (d_registries s) \<and>
      (\<exists>x. find_registry s i = Some x \<and> row = x\<lparr>r_status := RegistryStatusDeleting\<rparr>))"
proof -
  have act: "?thesis" if "sql_mark_deleting i (s\<lparr>d_faults := fs\<rparr>) = (w, t)" "\<forall>row. r = Inr row \<longrightarrow> w = Inr row" for fs w
    using sql_mark_deleting_marks [OF _ that(1)] that(2) assms(1) tables_cong(1) [of "s\<lparr>d_faults := fs\<rparr>" s i]
    by (auto simp: db_ok_def)
  from ready_cases [OF assms(2) [unfolded repo_MarkDeleting_def]] consider
      "\<exists>e. r = Inl e" "t = s"
    | v where "run_state (trip (sql_mark_deleting i)) s = (v, t)" "r = map_err (\<lambda>e. wrapPgErr e ''Registry'' i) v"
    by (auto simp: wrapped_def run split: prod.splits)
  then show ?thesis
  proof cases
    case 1
    then show ?thesis by auto
  next
    case (2 v)
    show ?thesis
    proof (cases v)
      case (Inl e)
      then have r: "r \<noteq> Inr row" for row using 2(2) by (simp add: map_err_def)
      from trip_tables [OF 2(1)] show ?thesis
      proof
        assume "tables t = tables s"
        with r show ?thesis by (auto dest: tables_eqD)
      next
        assume "\<exists>fs. t = snd (sql_mark_deleting i (s\<lparr>d_faults := fs\<rparr>))"
        then obtain fs where "sql_mark_deleting i (s\<lparr>d_faults := fs\<rparr>) = (fst (sql_mark_deleting i (s\<lparr>d_faults := fs\<rparr>)), t)"
          by (metis prod.collapse)
        with act r show ?thesis by blast
      qed
    next
      case (Inr row)
      with trip_Inr [of "sql_mark_deleting i" s row t] 2 act show ?thesis by auto
    qed
  qed
qed

lemma quiet_peer: "peer (\<lambda>s t. t = s) m \<Longrightarrow> run_state m e = (a, f) \<Longrightarrow> e_db f = e_db e"
  unfolding peer_def by (drule (1) guarD)

lemmas quietD = quiet_peer [OF peersD(4) [OF quiet_def [THEN iffD1]]] quiet_peer [OF peersD(5) [OF quiet_def [THEN iffD1]]]
  quiet_peer [OF peersD(9) [OF quiet_def [THEN iffD1]]] quiet_peer [OF peersD(8) [OF quiet_def [THEN iffD1]]]
  quiet_peer [OF peersD(10) [OF quiet_def [THEN iffD1]]]

text \<open>The worker of a deletion stops after the mark, or goes on to delete the row.\<close>

lemma doDelete_outcome:
  assumes "quiet u" and "run_state (doDelete u i) e = (res, f)" and "run_state (repo_MarkDeleting i) (e_db e) = (r, s)"
  shows "e_db f = s \<or> (\<exists>row g c. r = Inr row \<and> e_db g = s \<and> fst (run_state (z_NamespaceEmpty (u_zot u) i) g) = Inr True \<and>
    run_state (repo_Delete i (UnregisterIntentForDelete i (r_project_id row))) s = (c, e_db f))"
proof (cases r)
  case (Inl err)
  with assms(2,3) show ?thesis by (auto simp: doDelete_def run)
next
  case (Inr row)
  let ?g = "e\<lparr>e_db := s\<rparr>"
  obtain a g where ask: "run_state (z_NamespaceEmpty (u_zot u) i) ?g = (a, g)" by force
  from quietD(1) [OF assms(1) ask] have g: "e_db g = s" by simp
  show ?thesis
  proof (cases "a = Inr True")
    case False
    with assms(2,3) ask Inr have "f = g" by (cases a) (auto simp: doDelete_def run)
    with g show ?thesis by simp
  next
    case True
    obtain b h where rem: "run_state (z_RemoveNamespace (u_zot u) i) g = (b, h)" by force
    from quietD(2) [OF assms(1) rem] g have h: "e_db h = s" by simp
    obtain c t where del: "run_state (repo_Delete i (UnregisterIntentForDelete i (r_project_id row))) s = (c, t)" by force
    from assms(2,3) ask Inr True rem del h have "e_db f = s \<or> e_db f = t"
      by (auto simp: doDelete_def run done_if_absent_def split: sum.splits)
    then show ?thesis
    proof
      assume "e_db f = t"
      with ask True Inr del show ?thesis
        by (intro disjI2 exI [of _ row] exI [of _ ?g] exI [of _ c]) simp
    qed simp
  qed
qed

text \<open>
  C20. Deleting waits for the engine. Whatever fails, the worker of a deletion leaves the overlays and
  the outbox as they were, and every registry row as it was up to one change: the status of this
  registry may have become DELETING. The exception is that the engine answered that the namespace
  is empty, at a moment when this registry was already marked; only then does its row go (all the
  other rows stay as they were), with exactly its overlays, and one unregister intent for it, with
  the project of the row, is appended to the outbox. The tables are assumed to satisfy the schema,
  and the engine and the other peers not to write to the database of this service.
\<close>

theorem deletion_waits_for_the_engine:
  assumes "quiet u" and "db_ok (e_db e)" and "run_state (doDelete u i) e = (res, f)"
  shows "(d_registries (e_db f) \<in> {d_registries (e_db e), marked i (d_registries (e_db e))} \<and>
      d_configs (e_db f) = d_configs (e_db e) \<and> d_outbox (e_db f) = d_outbox (e_db e)) \<or>
    (\<exists>g row n. fst (run_state (z_NamespaceEmpty (u_zot u) i) g) = Inr True \<and>
      d_registries (e_db g) = marked i (d_registries (e_db e)) \<and> find_registry (e_db e) i = Some row \<and>
      d_registries (e_db f) = filter (\<lambda>r. r_id r \<noteq> i) (d_registries (e_db e)) \<and>
      d_configs (e_db f) = filter (\<lambda>c. c_registry_id c \<noteq> i) (d_configs (e_db e)) \<and>
      d_outbox (e_db f) = d_outbox (e_db e) @
        [outbox_entry n FGAEventUnregister (UnregisterIntentForDelete i (r_project_id row))])"
  (is "?kept \<or> ?gone")
proof -
  obtain r s where mark: "run_state (repo_MarkDeleting i) (e_db e) = (r, s)" by force
  note m = MarkDeleting_outcome [OF assms(2) mark]
  have ok: "db_ok s" using evolves_of [OF evolution.g_MarkDeleting mark] assms(2) by (simp add: evolves_def)
  from doDelete_outcome [OF assms(1,3) mark] show ?thesis
  proof (elim disjE exE conjE)
    assume "e_db f = s"
    with m show ?thesis by simp
  next
    fix row :: registry and g c
    let ?intent = "UnregisterIntentForDelete i (r_project_id row)"
    assume row: "r = Inr row" and g: "e_db g = s" "fst (run_state (z_NamespaceEmpty (u_zot u) i) g) = Inr True"
      and del: "run_state (repo_Delete i ?intent) s = (c, e_db f)"
    from m row obtain x where x: "find_registry (e_db e) i = Some x" "r_project_id row = r_project_id x"
      and s: "d_registries s = marked i (d_registries (e_db e))" by auto
    have "i_tuples ?intent \<noteq> []" by (simp add: UnregisterIntentForDelete_def)
    from repo_Delete_outcome [OF this ok del] consider
        "d_registries (e_db f) = d_registries s" "d_configs (e_db f) = d_configs s" "d_outbox (e_db f) = d_outbox s"
      | n where "d_registries (e_db f) = filter (\<lambda>r. r_id r \<noteq> i) (d_registries s)"
          "d_configs (e_db f) = filter (\<lambda>c. c_registry_id c \<noteq> i) (d_configs s)"
          "d_outbox (e_db f) = d_outbox s @ [outbox_entry n FGAEventUnregister ?intent]"
      by blast
    then show ?thesis
    proof cases
      case 1
      with m show ?thesis by simp
    next
      case (2 n)
      with g m x s show ?thesis
        by (intro disjI2 exI [of _ g] exI [of _ x] exI [of _ n]) (simp add: filter_marked)
    qed
  qed
qed

lemma deletion_waits_for_the_engine_witness:
  "find_registry (e_db (snd (run_state (doDelete fresh_usecase ''reg'') \<lparr>e_db = e_db (w_env (public_world fresh_usecase)),
     e_ext = (5, [(''app'', 3)])\<rparr>))) ''reg'' \<noteq> None"
proof -
  let ?e = "\<lparr>e_db = e_db (w_env (public_world fresh_usecase)), e_ext = (5, [(''app'', 3)])\<rparr>"
  let ?m = "doDelete fresh_usecase ''reg''"
  have "reachable (\<lambda>_ _. False) fresh_usecase demo_world (public_world fresh_usecase)"
    unfolding public_world_def by (intro ask_reachable reachable.start)
  from evolving.system [OF this] have "evolves (e_db (w_env demo_world)) (e_db ?e)"
    using quiet_peers [OF fresh_usecase_ok(2), of evolves] evolution.refl by simp
  then have ok: "db_ok (e_db ?e)" by (simp add: evolves_def demo_world_def empty_db_ok)
  have "length (d_outbox (e_db (snd (run_state ?m ?e)))) = length (d_outbox (e_db ?e))" by code_simp
  moreover have "list_ex (\<lambda>r. r_id r = ''reg'') (d_registries (e_db ?e))" by code_simp
  then have "''reg'' \<in> r_id ` set (d_registries (e_db ?e))" by (auto simp: list_ex_iff intro: rev_image_eqI)
  ultimately show ?thesis
    using deletion_waits_for_the_engine [OF fresh_usecase_ok(2) ok, of "''reg''" "fst (run_state ?m ?e)" "snd (run_state ?m ?e)"]
    by (auto simp: find_registry_None marked_ids)
qed

section \<open>Deleting a repository\<close>

lemma DeleteConfig_cases:
  assumes "run_state (DeleteConfig reg name intents) s = (res, t)"
  shows "(\<exists>e. res = Inl e) \<and> tables t = tables s \<or>
    find_config s reg name \<noteq> None \<and>
      guarded_write reg intents (Some (filter (\<lambda>c. cfg_key c \<noteq> (reg, name)) (d_configs s))) s t"
proof -
  let ?dml = "sql_delete_config reg name"
  from runConfigTx_guarded [OF sql_config_frame(4) sql_config_cong(4) assms [unfolded DeleteConfig_def]] show ?thesis
    by (auto simp: guarded_write_def sql_delete_config_def split: option.splits)
qed

text \<open>What the storage answers to a deletion of an overlay, when it answers.\<close>

lemma DeleteConfig_answers:
  assumes "answering s" and "find_registry s reg = Some r" and "r_status r \<noteq> RegistryStatusDeleting"
    and "run_state (DeleteConfig reg name (deleteRepoIntents reg name)) s = (res, t)"
  shows "find_config t reg name = None \<and> (res = Inr () \<or> (\<exists>e. res = Inl e \<and> is_sentinel e ErrNotFound))"
  using assms
  by (auto simp: answering_def DeleteConfig_def ready_def runConfigTx_def in_tx_def guardRegistryActive_def trip_def no_op_def
      sql_select_registry_def statusString_def statusFromString_def sql_delete_config_def wrapped_def mapConfigErr_def run
      deleteRepoIntents_def emitFGAIntent_def sql_insert_outbox_def push_intent_tuples fga_events wrapE_def bare_def
      rollback_def find_config_def find_registry_def find_None_iff split: option.splits)

text \<open>
  C40. Deleting a repository waits for the engine, too. Whatever fails, the worker leaves every table as
  it was unless the engine answered, when it was asked first, that the repository is empty, and the
  registry is there and not DELETING; only then does the overlay of this very repository go (and no
  other), and exactly two unregister intents, for the parent and for the public read tuple of the
  repository, are appended to the outbox. If the engine answers that the repository is not empty, the
  worker refuses with a failed precondition, and it reports success only if the engine answered that
  it is empty. When the database answers, success also means that no overlay is left, and a
  repository that never had an overlay is deleted successfully. The engine and the other peers
  are assumed not to write to the database of this service.
\<close>

theorem repository_deletion_waits_for_the_engine:
  assumes "quiet u" and "run_state (doDeleteRepository u reg name) e = (res, f)"
    and "fst (run_state (z_RepositoryEmpty (u_zot u) reg name) e) = said"
  shows "(tables (e_db f) = tables (e_db e) \<or>
      said = Inr True \<and> find_config (e_db e) reg name \<noteq> None \<and>
      guarded_write reg [(FGAEventUnregister, UnregisterIntentForRepo reg name),
          (FGAEventUnregister, UnregisterIntentForRepoPublicGrant reg name)]
        (Some (filter (\<lambda>c. (c_registry_id c, c_name c) \<noteq> (reg, name)) (d_configs (e_db e)))) (e_db e) (e_db f)) \<and>
    (said = Inr False \<longrightarrow> res = Inl (failFailedPrecondition ''repository is not empty'')) \<and>
    (res = Inr AnyEmpty \<longrightarrow> said = Inr True) \<and>
    (answering (e_db e) \<and> res = Inr AnyEmpty \<longrightarrow> find_config (e_db f) reg name = None) \<and>
    (answering (e_db e) \<and> said = Inr True \<and>
      (\<exists>r. find_registry (e_db e) reg = Some r \<and> r_status r \<noteq> RegistryStatusDeleting) \<longrightarrow> res = Inr AnyEmpty)"
proof -
  obtain g where ask: "run_state (z_RepositoryEmpty (u_zot u) reg name) e = (said, g)"
    using assms(3) by (metis prod.collapse)
  from quietD(3) [OF assms(1) ask] have g: "e_db g = e_db e" .
  obtain d t where del: "run_state (DeleteConfig reg name (deleteRepoIntents reg name)) (e_db e) = (d, t)" by force
  show ?thesis
  proof (cases "said = Inr True")
    case False
    with ask g assms(2) show ?thesis
      by (cases said) (auto simp: doDeleteRepository_def run)
  next
    case True
    with ask g assms(2) del have f: "e_db f = t"
      and res: "res = (case d of Inl e \<Rightarrow> if is_sentinel e ErrNotFound then Inr AnyEmpty else Inl (mapRepoErr e) | Inr _ \<Rightarrow> Inr AnyEmpty)"
      by (auto simp: doDeleteRepository_def run done_if_absent_def split: sum.splits)
    have refused: "\<exists>m. d = Inl (wrapE ErrFailedPrecondition m)"
      if "answering (e_db e)" "\<And>r. find_registry (e_db e) reg = Some r \<Longrightarrow> r_status r = RegistryStatusDeleting"
      using guard_refuses [OF that, where reg = reg and intents = "deleteRepoIntents reg name" and dml = "trip (sql_delete_config reg name)"]
        del by (simp add: DeleteConfig_def)
    note answers = DeleteConfig_answers [OF _ _ _ del]
    from DeleteConfig_cases [OF del] True f have "tables (e_db f) = tables (e_db e) \<or> find_config (e_db e) reg name \<noteq> None \<and>
        guarded_write reg (deleteRepoIntents reg name) (Some (filter (\<lambda>c. cfg_key c \<noteq> (reg, name)) (d_configs (e_db e)))) (e_db e) (e_db f)"
      by blast
    moreover have "find_config t reg name = None" if "answering (e_db e)" "res = Inr AnyEmpty"
      using that refused answers res by (force simp: wrapE_def split: sum.splits if_splits)
    moreover have "res = Inr AnyEmpty"
      if "answering (e_db e)" "find_registry (e_db e) reg = Some r" "r_status r \<noteq> RegistryStatusDeleting" for r
      using answers [OF that] res by auto
    ultimately show ?thesis using True f unfolding deleteRepoIntents_def cfg_key_def by auto
  qed
qed

text \<open>The repository \<open>app\<close> has an overlay in \<open>public_world\<close>; the engine holds nothing of it any more.\<close>

definition emptied :: "demo_ext env" where
  "emptied = \<lparr>e_db = e_db (w_env (public_world fresh_usecase)), e_ext = (5, [])\<rparr>"

lemma repository_deletion_waits_for_the_engine_witness:
  "find_config (e_db emptied) ''reg'' ''app'' \<noteq> None \<and>
   find_config (e_db (snd (run_state (doDeleteRepository fresh_usecase ''reg'' ''app'') emptied))) ''reg'' ''app'' = None"
proof
  have "list_ex (\<lambda>c. cfg_key c = (''reg'', ''app'')) (d_configs (e_db emptied))" by code_simp
  then show "find_config (e_db emptied) ''reg'' ''app'' \<noteq> None" by (auto simp: find_config_None list_ex_iff intro: rev_image_eqI)
  let ?m = "doDeleteRepository fresh_usecase ''reg'' ''app''"
  have "case fst (run_state ?m emptied) of Inl err \<Rightarrow> False | Inr a \<Rightarrow> (case a of AnyEmpty \<Rightarrow> True | _ \<Rightarrow> False)" by code_simp
  then have "fst (run_state ?m emptied) = Inr AnyEmpty" by (cases "fst (run_state ?m emptied)") (simp_all split: any.splits)
  moreover have "d_faults (e_db emptied) = [] \<and> d_pool (e_db emptied)" by (intro conjI) code_simp+
  then have "answering (e_db emptied)" by (simp add: answering_def)
  moreover note repository_deletion_waits_for_the_engine
      [OF fresh_usecase_ok(2) surjective_pairing refl, of "''reg''" "''app''" emptied]
  ultimately show "find_config (e_db (snd (run_state ?m emptied))) ''reg'' ''app'' = None" by (elim conjE) (rule mp, assumption, rule conjI)
qed

end
