(* ===== verification/Handlers.thy ===== *)
theory Handlers
  imports RepoUseCases
begin

text \<open>
  The gRPC transport of \<open>internal/handler\<close>: parse, authorize, call the use case, format. The calls
  that the per-RPC interceptor does not check are authorized here (\<open>listauthz.go\<close>): per-repository
  verbs, filters over rows, denials that look like absence. The principal of the request context is
  an argument; the authorizer and \<open>authz.FormatSubject\<close> of the library are parameters.
\<close>

section \<open>Authorization in the handler\<close>

type_synonym 'x authorizer = "string \<Rightarrow> string \<Rightarrow> string \<Rightarrow> ('x env, gerror + bool) state"

text \<open>\<open>repoAuthz\<close>: without an authorizer (breakglass) every check passes.\<close>

record 'x repo_authz =
  az :: "'x authorizer option"
  az_FormatSubject :: "string \<Rightarrow> string \<Rightarrow> string"

record 'x registry_handler =
  rh_uc :: "'x usecase"
  rh_authz :: "'x repo_authz"

definition registryObjectRef :: "string \<Rightarrow> string" where
  "registryObjectRef registryID = FGAObjectRef FGAObjectTypeRegistry registryID"

definition repositoryObjectRef :: "string \<Rightarrow> string \<Rightarrow> string" where
  "repositoryObjectRef registryID repository = FGAObjectRef FGAObjectTypeRepository (registryID @ ''/'' @ repository)"

definition subjectFromContext :: "'x repo_authz \<Rightarrow> principal \<Rightarrow> string" where
  "subjectFromContext a pr = az_FormatSubject a (pr_type pr) (pr_id pr)"

definition authz_check :: "'x repo_authz \<Rightarrow> principal \<Rightarrow> string \<Rightarrow> string \<Rightarrow> ('x env, gerror + bool) state" where
  "authz_check a pr relation object = (case az a of
       None \<Rightarrow> State_Monad.return (Inr True)
     | Some chk \<Rightarrow> chk (subjectFromContext a pr) relation object)"

definition errHideExistence :: gerror where
  "errHideExistence = GStatus NotFound ''not found''"

definition errRepoHideExistence :: gerror where
  "errRepoHideExistence = GStatus NotFound ''repository not found''"

definition errAuthzUnavailable :: gerror where
  "errAuthzUnavailable = GStatus Unavailable ''authorization service unavailable''"

text \<open>One check, closed on failure: an error of the authorizer is \<open>Unavailable\<close>, a refusal is \<open>denied\<close>.\<close>

definition gated :: "'x repo_authz \<Rightarrow> principal \<Rightarrow> string \<Rightarrow> string \<Rightarrow> gerror \<Rightarrow> ('x env, gerror + unit) state" where
  "gated a pr relation object denied = do {
     r \<leftarrow> authz_check a pr relation object;
     State_Monad.return (case r of
         Inl e \<Rightarrow> Inl errAuthzUnavailable
       | Inr allowed \<Rightarrow> if \<not> allowed then Inl denied else Inr ()) }"

definition namespaceGate :: "'x repo_authz \<Rightarrow> principal \<Rightarrow> string \<Rightarrow> ('x env, gerror + unit) state" where
  "namespaceGate a pr registryID = gated a pr FGARelationVList (registryObjectRef registryID) errHideExistence"

definition checkRepo :: "'x repo_authz \<Rightarrow> principal \<Rightarrow> string \<Rightarrow> string \<Rightarrow> string \<Rightarrow> ('x env, gerror + unit) state" where
  "checkRepo a pr registryID repository relation =
     gated a pr relation (repositoryObjectRef registryID repository) errHideExistence"

definition checkRepository :: "'x repo_authz \<Rightarrow> principal \<Rightarrow> string \<Rightarrow> string \<Rightarrow> string \<Rightarrow> ('x env, gerror + unit) state" where
  "checkRepository a pr registryID repository relation =
     gated a pr relation (repositoryObjectRef registryID repository) errRepoHideExistence"

definition registryGate :: "'x repo_authz \<Rightarrow> principal \<Rightarrow> string \<Rightarrow> string \<Rightarrow> ('x env, gerror + unit) state" where
  "registryGate a pr registryID relation = gated a pr relation (registryObjectRef registryID) errHideExistence"

definition requireRegistryAdmin :: "'x repo_authz \<Rightarrow> principal \<Rightarrow> string \<Rightarrow> string \<Rightarrow> ('x env, gerror + unit) state" where
  "requireRegistryAdmin a pr registryID msg =
     gated a pr FGARelationAdmin (registryObjectRef registryID) (GStatus PermissionDenied msg)"

section \<open>Filters over rows\<close>

text \<open>The checks of the error group, here in the order of the rows: every check runs, an error of
  any of them is the error of the group. A row without an object (\<open>None\<close>) is kept unchecked.\<close>

fun row_flags :: "'x authorizer \<Rightarrow> string \<Rightarrow> string option list \<Rightarrow> ('x env, gerror + bool list) state" where
  "row_flags chk subject [] = State_Monad.return (Inr [])"
| "row_flags chk subject (None # rest) =
     do { vs \<leftarrow> row_flags chk subject rest; State_Monad.return (case vs of Inl e \<Rightarrow> Inl e | Inr bs \<Rightarrow> Inr (True # bs)) }"
| "row_flags chk subject (Some object # rest) =
     do { v \<leftarrow> chk subject FGARelationVList object;
          vs \<leftarrow> row_flags chk subject rest;
          State_Monad.return (case (v, vs) of (Inl e, _) \<Rightarrow> Inl e | (_, Inl e) \<Rightarrow> Inl e
            | (Inr b, Inr bs) \<Rightarrow> Inr (b # bs)) }"

definition filter_rows :: "'x repo_authz \<Rightarrow> principal \<Rightarrow> ('a \<Rightarrow> string option) \<Rightarrow> 'a list \<Rightarrow> ('x env, gerror + 'a list) state" where
  "filter_rows a pr object rows = (case az a of
       None \<Rightarrow> State_Monad.return (Inr rows)
     | Some chk \<Rightarrow> do {
         fs \<leftarrow> row_flags chk (subjectFromContext a pr) (map object rows);
         State_Monad.return (case fs of
             Inl e \<Rightarrow> Inl errAuthzUnavailable
           | Inr flags \<Rightarrow> Inr (keep_flags rows flags)) })"

definition filterRegistries :: "'x repo_authz \<Rightarrow> principal \<Rightarrow> registry list \<Rightarrow> ('x env, gerror + registry list) state" where
  "filterRegistries a pr regs = filter_rows a pr (\<lambda>r. Some (registryObjectRef (r_id r))) regs"

definition filterRepos :: "'x repo_authz \<Rightarrow> principal \<Rightarrow> string \<Rightarrow> repository list \<Rightarrow> ('x env, gerror + repository list) state" where
  "filterRepos a pr registryID repos = filter_rows a pr (\<lambda>r. Some (repositoryObjectRef registryID (p_name r))) repos"

text \<open>The value of the field \<open>repository\<close> of an operation's metadata, when the message has it and it
  is not empty.\<close>

fun metadata_repository :: "metadata \<Rightarrow> string option" where
  "metadata_repository (DeleteTagMetadata reg repo tag) = Some repo"
| "metadata_repository (CreateRepositoryMetadata reg repo) = Some repo"
| "metadata_repository (UpdateRepositoryMetadata reg repo) = Some repo"
| "metadata_repository (DeleteRepositoryMetadata reg repo) = Some repo"
| "metadata_repository (RenameRepositoryMetadata reg repo newName) = Some repo"
| "metadata_repository (CreateRegistryMetadata reg) = None"
| "metadata_repository (UpdateRegistryMetadata reg) = None"
| "metadata_repository (DeleteRegistryMetadata reg) = None"
| "metadata_repository (TriggerGarbageCollectionMetadata reg) = None"

definition repositoryOfOperation :: "operation \<Rightarrow> string option" where
  "repositoryOfOperation op = (case op_Metadata op of None \<Rightarrow> None
     | Some meta \<Rightarrow> (case metadata_repository meta of None \<Rightarrow> None
         | Some repository \<Rightarrow> if repository = [] then None else Some repository))"

definition filterOperations :: "'x repo_authz \<Rightarrow> principal \<Rightarrow> string \<Rightarrow> operation list \<Rightarrow> ('x env, gerror + operation list) state" where
  "filterOperations a pr registryID ops =
     filter_rows a pr (\<lambda>op. map_option (repositoryObjectRef registryID) (repositoryOfOperation op)) ops"

section \<open>Converters\<close>

definition toProtoRepository :: "repository \<Rightarrow> pb_repository" where
  "toProtoRepository r = \<lparr>bp_registry_id = p_registry_id r, bp_name = p_name r,
     bp_description = p_description r, bp_labels = p_labels r, bp_visibility = p_visibility r,
     bp_created_at = Truncate (p_created_at r), bp_tag_count = p_tag_count r,
     bp_size_bytes = p_size_bytes r, bp_updated_at = Truncate (p_updated_at r),
     bp_artifact_type = p_artifact_type r,
     bp_artifact_types = (if length (p_artifact_types r) > 0 then map id (p_artifact_types r) else []),
     bp_last_pulled_at = Truncate (p_last_pulled_at r), bp_download_count = p_download_count r\<rparr>"

record pb_tag =
  bt_registry_id :: string
  bt_repository :: string
  bt_tag :: string
  bt_digest :: string
  bt_size_bytes :: int
  bt_media_type :: string
  bt_created_at :: "time option"
  bt_architecture :: string
  bt_last_pulled_at :: "time option"
  bt_pushed_by :: string
  bt_download_count :: int

definition toProtoTag :: "tag \<Rightarrow> pb_tag" where
  "toProtoTag t = \<lparr>bt_registry_id = t_registry_id t, bt_repository = t_repository t, bt_tag = t_tag t,
     bt_digest = t_digest t, bt_size_bytes = t_size_bytes t, bt_media_type = t_media_type t,
     bt_created_at = Truncate (t_created_at t), bt_architecture = t_architecture t,
     bt_last_pulled_at = Truncate (t_last_pulled_at t), bt_pushed_by = t_pushed_by t,
     bt_download_count = t_download_count t\<rparr>"

text \<open>The statistics on the wire: no field of the message is filled for the time of the last collection.\<close>

record pb_stats =
  bs_registry_id :: string
  bs_repository_count :: int
  bs_tag_count :: int
  bs_total_size_bytes :: int
  bs_blob_count :: int
  bs_last_gc_at :: "time option"

definition toProtoStats :: "registry_stats \<Rightarrow> pb_stats" where
  "toProtoStats s = \<lparr>bs_registry_id = s_registry_id s, bs_repository_count = s_repository_count s,
     bs_tag_count = s_tag_count s, bs_total_size_bytes = s_total_size_bytes s,
     bs_blob_count = s_blob_count s, bs_last_gc_at = None\<rparr>"

record pb_referrer =
  bf_registry_id :: string
  bf_repository :: string
  bf_subject_digest :: string
  bf_digest :: string
  bf_artifact_type :: string
  bf_size_bytes :: int
  bf_annotations :: labels
  bf_created_at :: "time option"

definition toProtoReferrer :: "referrer \<Rightarrow> pb_referrer" where
  "toProtoReferrer r = \<lparr>bf_registry_id = f_registry_id r, bf_repository = f_repository r,
     bf_subject_digest = f_subject_digest r, bf_digest = f_digest r, bf_artifact_type = f_artifact_type r,
     bf_size_bytes = f_size_bytes r, bf_annotations = f_annotations r,
     bf_created_at = Truncate (f_created_at r)\<rparr>"

datatype operation_result = OperationError gerror | OperationResponse any

record pb_operation =
  bo_id :: string
  bo_description :: string
  bo_created_at :: "time option"
  bo_created_by :: string
  bo_modified_at :: "time option"
  bo_done :: bool
  bo_metadata :: "metadata option"
  bo_principal_type :: string
  bo_principal_id :: string
  bo_principal_display_name :: string
  bo_result :: "operation_result option"

definition operationToProto :: "operation \<Rightarrow> pb_operation" where
  "operationToProto op = \<lparr>bo_id = op_ID op, bo_description = op_Description op,
     bo_created_at = Truncate (op_CreatedAt op), bo_created_by = op_CreatedBy op,
     bo_modified_at = Truncate (op_ModifiedAt op), bo_done = op_Done op, bo_metadata = op_Metadata op,
     bo_principal_type = pr_type (op_Principal op), bo_principal_id = pr_id (op_Principal op),
     bo_principal_display_name = pr_display_name (op_Principal op),
     bo_result = (case op_Error op of Some e \<Rightarrow> Some (OperationError e)
       | None \<Rightarrow> map_option OperationResponse (op_Response op))\<rparr>"

section \<open>RegistryService\<close>

record pb_update_registry_request =
  xq_registry_id :: string
  xq_name :: string
  xq_description :: string
  xq_labels :: labels
  xq_default_visibility :: int
  xq_update_mask :: "string list"

record pb_create_repository_request =
  yq_registry_id :: string
  yq_repository :: string
  yq_description :: string
  yq_labels :: labels
  yq_visibility :: int

record pb_update_repository_request =
  zq_registry_id :: string
  zq_repository :: string
  zq_description :: string
  zq_labels :: labels
  zq_visibility :: int
  zq_update_mask :: "string list"

definition maskContains :: "string list \<Rightarrow> string \<Rightarrow> bool" where
  "maskContains paths field = list_ex (\<lambda>p. p = field) paths"

text \<open>The result of a use case as the handler answers it: the error mapped, or the value formatted.\<close>

definition answered :: "('a \<Rightarrow> 'b) \<Rightarrow> ('s, gerror + 'a) state \<Rightarrow> ('s, gerror + 'b) state" where
  "answered format m = do { r \<leftarrow> m;
     State_Monad.return (case r of Inl e \<Rightarrow> Inl (mapErr e) | Inr a \<Rightarrow> Inr (format a)) }"

text \<open>What every call on a registry or a repository checks of its request first.\<close>

definition valid_registry :: "'x registry_handler \<Rightarrow> string \<Rightarrow> gerror option" where
  "valid_registry h registryID = map_option mapErr (ValidateRegistryID (u_corelib (rh_uc h)) registryID)"

definition required_field :: "string \<Rightarrow> string \<Rightarrow> gerror option" where
  "required_field name v = (if v = [] then Some (GStatus InvalidArgument (name @ '' is required'')) else None)"

definition h_Get :: "'x registry_handler \<Rightarrow> string \<Rightarrow> ('x env, gerror + pb_registry) state" where
  "h_Get h registryID = answered (ProtoRegistry (rh_uc h)) (GetRegistry (rh_uc h) registryID)"

definition h_List :: "'x registry_handler \<Rightarrow> principal \<Rightarrow> list_query \<Rightarrow> ('x env, gerror + pb_registry list \<times> string) state" where
  "h_List h pr q =
     andThen (answered id (ListRegistries (rh_uc h) q)) (\<lambda>page.
     andThen (filterRegistries (rh_authz h) pr (fst page)) (\<lambda>filtered.
     State_Monad.return (Inr (map (ProtoRegistry (rh_uc h)) filtered, snd page))))"

definition h_Create :: "'x registry_handler \<Rightarrow> principal \<Rightarrow> create_spec \<Rightarrow> ('x world, gerror + pb_operation) state" where
  "h_Create h pr req = answered operationToProto (Create (rh_uc h) pr req)"

definition h_Update :: "'x registry_handler \<Rightarrow> principal \<Rightarrow> pb_update_registry_request \<Rightarrow> ('x world, gerror + pb_operation) state" where
  "h_Update h pr req =
     andThen (if maskContains (xq_update_mask req) ''default_visibility'' \<and> xq_default_visibility req = VisibilityPublic
       then andThen (guard_ok (valid_registry h (xq_registry_id req))) (\<lambda>_.
         on_env (requireRegistryAdmin (rh_authz h) pr (xq_registry_id req)
           ''changing default visibility to public requires registry admin''))
       else State_Monad.return (Inr ())) (\<lambda>_.
     answered operationToProto (Update (rh_uc h) pr
       \<lparr>us_RegistryID = xq_registry_id req, us_Name = xq_name req, us_Description = xq_description req,
        us_Labels = xq_labels req, us_Mask = xq_update_mask req, us_ApplyName = False,
        us_ApplyDescription = False, us_ApplyLabels = False,
        us_DefaultVisibility = xq_default_visibility req, us_ApplyDefaultVisibility = False\<rparr>))"

definition h_Delete :: "'x registry_handler \<Rightarrow> principal \<Rightarrow> string \<Rightarrow> ('x world, gerror + pb_operation) state" where
  "h_Delete h pr registryID = answered operationToProto (Delete (rh_uc h) pr registryID)"

definition h_ListRepositories ::
  "'x registry_handler \<Rightarrow> principal \<Rightarrow> repo_list_query \<Rightarrow> ('x env, gerror + pb_repository list \<times> string) state" where
  "h_ListRepositories h pr q =
     andThen (guard_ok (valid_registry h (rq_RegistryID q))) (\<lambda>_.
     andThen (namespaceGate (rh_authz h) pr (rq_RegistryID q)) (\<lambda>_.
     andThen (answered id (ListRepositories (rh_uc h) q)) (\<lambda>page.
     andThen (filterRepos (rh_authz h) pr (rq_RegistryID q) (fst page)) (\<lambda>filtered.
     State_Monad.return (Inr (map toProtoRepository filtered, snd page))))))"

definition h_ListTags ::
  "'x registry_handler \<Rightarrow> principal \<Rightarrow> tag_list_query \<Rightarrow> ('x env, gerror + pb_tag list \<times> string) state" where
  "h_ListTags h pr q =
     andThen (guard_ok (valid_registry h (tq_RegistryID q))) (\<lambda>_.
     andThen (guard_ok (required_field ''repository'' (tq_Repository q))) (\<lambda>_.
     andThen (checkRepo (rh_authz h) pr (tq_RegistryID q) (tq_Repository q) FGARelationVList) (\<lambda>_.
     answered (\<lambda>page. (map toProtoTag (fst page), snd page)) (ListTags (rh_uc h) q))))"

definition h_DeleteTag ::
  "'x registry_handler \<Rightarrow> principal \<Rightarrow> string \<Rightarrow> string \<Rightarrow> string \<Rightarrow> ('x world, gerror + pb_operation) state" where
  "h_DeleteTag h pr registryID repository tag =
     andThen (guard_ok (valid_registry h registryID)) (\<lambda>_.
     andThen (guard_ok (required_field ''repository'' repository)) (\<lambda>_.
     andThen (guard_ok (required_field ''tag'' tag)) (\<lambda>_.
     andThen (on_env (checkRepo (rh_authz h) pr registryID repository FGARelationVDelete)) (\<lambda>_.
     answered operationToProto (DeleteTag (rh_uc h) pr registryID repository tag)))))"

definition h_ListOperations ::
  "'x registry_handler \<Rightarrow> principal \<Rightarrow> operations_query \<Rightarrow> ('x env, gerror + pb_operation list \<times> string) state" where
  "h_ListOperations h pr q =
     andThen (answered id (ListOperations (rh_uc h) q)) (\<lambda>page.
     andThen (filterOperations (rh_authz h) pr (oq_RegistryID q) (fst page)) (\<lambda>filtered.
     State_Monad.return (Inr (map operationToProto filtered, snd page))))"

section \<open>The overlay calls\<close>

definition h_GetRepository ::
  "'x registry_handler \<Rightarrow> principal \<Rightarrow> string \<Rightarrow> string \<Rightarrow> ('x env, gerror + pb_repository) state" where
  "h_GetRepository h pr registryID repository =
     andThen (guard_ok (valid_registry h registryID)) (\<lambda>_.
     andThen (guard_ok (required_field ''repository'' repository)) (\<lambda>_.
     andThen (checkRepository (rh_authz h) pr registryID repository FGARelationVGet) (\<lambda>_.
     answered ProtoRepository (GetRepository (rh_uc h) registryID repository))))"

definition h_CreateRepository ::
  "'x registry_handler \<Rightarrow> principal \<Rightarrow> pb_create_repository_request \<Rightarrow> ('x world, gerror + pb_operation) state" where
  "h_CreateRepository h pr req =
     andThen (guard_ok (valid_registry h (yq_registry_id req))) (\<lambda>_.
     andThen (on_env (registryGate (rh_authz h) pr (yq_registry_id req) FGARelationVCreate)) (\<lambda>_.
     andThen (if yq_visibility req = VisibilityPublic
       then on_env (requireRegistryAdmin (rh_authz h) pr (yq_registry_id req)
         ''creating a public repository requires registry admin'')
       else State_Monad.return (Inr ())) (\<lambda>_.
     answered operationToProto (CreateRepository (rh_uc h) pr
       \<lparr>rs_RegistryID = yq_registry_id req, rs_Repository = yq_repository req,
        rs_Description = yq_description req, rs_Labels = yq_labels req, rs_Visibility = yq_visibility req\<rparr>))))"

definition h_UpdateRepository ::
  "'x registry_handler \<Rightarrow> principal \<Rightarrow> pb_update_repository_request \<Rightarrow> ('x world, gerror + pb_operation) state" where
  "h_UpdateRepository h pr req =
     andThen (guard_ok (valid_registry h (zq_registry_id req))) (\<lambda>_.
     andThen (guard_ok (required_field ''repository'' (zq_repository req))) (\<lambda>_.
     andThen (on_env (checkRepository (rh_authz h) pr (zq_registry_id req) (zq_repository req) FGARelationVUpdate)) (\<lambda>_.
     andThen (if maskContains (zq_update_mask req) ''visibility'' \<and> zq_visibility req = VisibilityPublic
       then on_env (requireRegistryAdmin (rh_authz h) pr (zq_registry_id req)
         ''changing repository visibility requires registry admin'')
       else State_Monad.return (Inr ())) (\<lambda>_.
     answered operationToProto (UpdateRepository (rh_uc h) pr
       \<lparr>ur_RegistryID = zq_registry_id req, ur_Repository = zq_repository req,
        ur_Description = zq_description req, ur_Labels = zq_labels req, ur_Visibility = zq_visibility req,
        ur_Mask = zq_update_mask req\<rparr>)))))"

definition h_DeleteRepository ::
  "'x registry_handler \<Rightarrow> principal \<Rightarrow> string \<Rightarrow> string \<Rightarrow> ('x world, gerror + pb_operation) state" where
  "h_DeleteRepository h pr registryID repository =
     andThen (guard_ok (valid_registry h registryID)) (\<lambda>_.
     andThen (guard_ok (required_field ''repository'' repository)) (\<lambda>_.
     andThen (on_env (checkRepository (rh_authz h) pr registryID repository FGARelationVDelete)) (\<lambda>_.
     answered operationToProto (DeleteRepository (rh_uc h) pr registryID repository))))"

definition h_RenameRepository ::
  "'x registry_handler \<Rightarrow> principal \<Rightarrow> string \<Rightarrow> string \<Rightarrow> string \<Rightarrow> ('x world, gerror + pb_operation) state" where
  "h_RenameRepository h pr registryID repository newName =
     andThen (guard_ok (valid_registry h registryID)) (\<lambda>_.
     andThen (guard_ok (required_field ''repository'' repository)) (\<lambda>_.
     andThen (on_env (checkRepository (rh_authz h) pr registryID repository FGARelationVUpdate)) (\<lambda>_.
     andThen (on_env (registryGate (rh_authz h) pr registryID FGARelationVCreate)) (\<lambda>_.
     answered operationToProto (RenameRepository (rh_uc h) pr registryID repository newName)))))"

definition h_ListReferrers ::
  "'x registry_handler \<Rightarrow> principal \<Rightarrow> referrers_query \<Rightarrow> ('x env, gerror + pb_referrer list) state" where
  "h_ListReferrers h pr q =
     andThen (guard_ok (valid_registry h (fq_RegistryID q))) (\<lambda>_.
     andThen (guard_ok (required_field ''repository'' (fq_Repository q))) (\<lambda>_.
     andThen (checkRepository (rh_authz h) pr (fq_RegistryID q) (fq_Repository q) FGARelationVGet) (\<lambda>_.
     answered (map toProtoReferrer) (ListReferrers (rh_uc h) q))))"

section \<open>InternalRegistryService and OperationService\<close>

definition h_TriggerGarbageCollection :: "'x usecase \<Rightarrow> principal \<Rightarrow> string \<Rightarrow> ('x world, gerror + pb_operation) state" where
  "h_TriggerGarbageCollection u pr registryID = answered operationToProto (TriggerGC u pr registryID)"

definition h_GetRegistryStats :: "'x usecase \<Rightarrow> string \<Rightarrow> ('x env, gerror + pb_stats) state" where
  "h_GetRegistryStats u registryID = answered toProtoStats (Stats u registryID)"

text \<open>The errors of the operations library the handler tells apart, and its ownership-scoped store
  (\<open>operations.OwnedOperationRepo\<close>, \<open>operations.OwnerFromPrincipal\<close>), which are parameters.\<close>

datatype operations_error = OpsErrNotFound | OpsErrAlreadyDone | OpsErrOther string

record ('x, 'o) operation_handler =
  oh_OwnerFromPrincipal :: "principal \<Rightarrow> 'o"
  oh_GetOwned :: "string \<Rightarrow> 'o \<Rightarrow> ('x env, operations_error + operation) state"
  oh_CancelOwned :: "string \<Rightarrow> 'o \<Rightarrow> ('x env, operations_error + operation) state"

definition operation_get_error :: "string \<Rightarrow> operations_error \<Rightarrow> gerror" where
  "operation_get_error i e = (case e of
       OpsErrNotFound \<Rightarrow> GStatus NotFound (''operation '' @ i @ '' not found'')
     | _ \<Rightarrow> GStatus Internal ''operation get failed'')"

definition operation_cancel_error :: "string \<Rightarrow> operations_error \<Rightarrow> gerror" where
  "operation_cancel_error i e = (case e of
       OpsErrNotFound \<Rightarrow> GStatus NotFound (''operation '' @ i @ '' not found'')
     | OpsErrAlreadyDone \<Rightarrow> GStatus FailedPrecondition (''operation '' @ i @ '' already completed'')
     | _ \<Rightarrow> GStatus Internal ''operation cancel failed'')"

definition oh_Get :: "('x, 'o) operation_handler \<Rightarrow> principal \<Rightarrow> string \<Rightarrow> ('x env, gerror + pb_operation) state" where
  "oh_Get h pr i = (if i = [] then State_Monad.return (Inl (GStatus InvalidArgument ''operation_id required''))
     else do { r \<leftarrow> oh_GetOwned h i (oh_OwnerFromPrincipal h pr);
       State_Monad.return (case r of Inl e \<Rightarrow> Inl (operation_get_error i e) | Inr op \<Rightarrow> Inr (operationToProto op)) })"

definition oh_Cancel :: "('x, 'o) operation_handler \<Rightarrow> principal \<Rightarrow> string \<Rightarrow> ('x env, gerror + pb_operation) state" where
  "oh_Cancel h pr i = (if i = [] then State_Monad.return (Inl (GStatus InvalidArgument ''operation_id required''))
     else do { r \<leftarrow> oh_CancelOwned h i (oh_OwnerFromPrincipal h pr);
       State_Monad.return (case r of Inl e \<Rightarrow> Inl (operation_cancel_error i e) | Inr op \<Rightarrow> Inr (operationToProto op)) })"

section \<open>The permission map of the interceptor\<close>

text \<open>\<open>check.PermissionMap\<close>: how the interceptor treats each method, and the extractors of the object
  a request is about. Of a request only the fields that identify the object matter here; any other
  message is given by the name of its type.\<close>

datatype rpc_request = GetRegistryRequest string | UpdateRegistryRequest string
  | DeleteRegistryRequest string | ListRepositoriesRequest string | ListRegistryOperationsRequest string
  | TriggerGarbageCollectionRequest string | GetRegistryStatsRequest string
  | CreateRegistryRequest string | ListRegistriesRequest string
  | ListTagsRequest string string | DeleteTagRequest string string | OtherRequest string

fun go_type :: "rpc_request \<Rightarrow> string" where
  "go_type (GetRegistryRequest i) = ''*registryv1.GetRegistryRequest''"
| "go_type (UpdateRegistryRequest i) = ''*registryv1.UpdateRegistryRequest''"
| "go_type (DeleteRegistryRequest i) = ''*registryv1.DeleteRegistryRequest''"
| "go_type (ListRepositoriesRequest i) = ''*registryv1.ListRepositoriesRequest''"
| "go_type (ListRegistryOperationsRequest i) = ''*registryv1.ListRegistryOperationsRequest''"
| "go_type (TriggerGarbageCollectionRequest i) = ''*registryv1.TriggerGarbageCollectionRequest''"
| "go_type (GetRegistryStatsRequest i) = ''*registryv1.GetRegistryStatsRequest''"
| "go_type (CreateRegistryRequest i) = ''*registryv1.CreateRegistryRequest''"
| "go_type (ListRegistriesRequest i) = ''*registryv1.ListRegistriesRequest''"
| "go_type (ListTagsRequest i n) = ''*registryv1.ListTagsRequest''"
| "go_type (DeleteTagRequest i n) = ''*registryv1.DeleteTagRequest''"
| "go_type (OtherRequest t) = t"

fun extractRegistry :: "rpc_request \<Rightarrow> gerror + string \<times> string" where
  "extractRegistry (GetRegistryRequest i) = Inr (FGAObjectTypeRegistry, i)"
| "extractRegistry (UpdateRegistryRequest i) = Inr (FGAObjectTypeRegistry, i)"
| "extractRegistry (DeleteRegistryRequest i) = Inr (FGAObjectTypeRegistry, i)"
| "extractRegistry (ListRepositoriesRequest i) = Inr (FGAObjectTypeRegistry, i)"
| "extractRegistry (ListRegistryOperationsRequest i) = Inr (FGAObjectTypeRegistry, i)"
| "extractRegistry (TriggerGarbageCollectionRequest i) = Inr (FGAObjectTypeRegistry, i)"
| "extractRegistry (GetRegistryStatsRequest i) = Inr (FGAObjectTypeRegistry, i)"
| "extractRegistry r = Inl (Raw (''registry object extractor: unexpected request '' @ go_type r))"

fun extractProject :: "rpc_request \<Rightarrow> gerror + string \<times> string" where
  "extractProject (CreateRegistryRequest i) = Inr (FGAObjectTypeProject, i)"
| "extractProject (ListRegistriesRequest i) = Inr (FGAObjectTypeProject, i)"
| "extractProject r = Inl (Raw (''project object extractor: unexpected request '' @ go_type r))"

fun extractRepository :: "rpc_request \<Rightarrow> gerror + string \<times> string" where
  "extractRepository (ListTagsRequest i n) = Inr (FGAObjectTypeRepository, i @ ''/'' @ n)"
| "extractRepository (DeleteTagRequest i n) = Inr (FGAObjectTypeRepository, i @ ''/'' @ n)"
| "extractRepository r = Inl (Raw (''repository object extractor: unexpected request '' @ go_type r))"

type_synonym extractor = "rpc_request \<Rightarrow> gerror + string \<times> string"

record rpc_entry =
  pe_Relation :: string
  pe_Extract :: "extractor option"
  pe_Permission :: string
  pe_ScopeFiltered :: bool
  pe_Public :: bool

definition guarded_entry :: "string \<Rightarrow> extractor \<Rightarrow> string \<Rightarrow> rpc_entry" where
  "guarded_entry relation e permission = \<lparr>pe_Relation = relation, pe_Extract = Some e,
     pe_Permission = permission, pe_ScopeFiltered = False, pe_Public = False\<rparr>"

definition scope_filtered :: "string \<Rightarrow> extractor \<Rightarrow> string \<Rightarrow> rpc_entry" where
  "scope_filtered relation e permission = (guarded_entry relation e permission)\<lparr>pe_ScopeFiltered := True\<rparr>"

definition public_entry :: rpc_entry where
  "public_entry = \<lparr>pe_Relation = [], pe_Extract = None, pe_Permission = [], pe_ScopeFiltered = False, pe_Public = True\<rparr>"

definition PermissionMap :: "string \<rightharpoonup> rpc_entry" where
  "PermissionMap = map_of
     [(''/kacho.cloud.registry.v1.RegistryService/Get'', guarded_entry FGARelationVGet extractRegistry ''registry.registries.get''),
      (''/kacho.cloud.registry.v1.RegistryService/List'', scope_filtered FGARelationVList extractProject ''registry.registries.list''),
      (''/kacho.cloud.registry.v1.RegistryService/Create'', guarded_entry FGARelationVCreate extractProject ''registry.registries.create''),
      (''/kacho.cloud.registry.v1.RegistryService/Update'', guarded_entry FGARelationVUpdate extractRegistry ''registry.registries.update''),
      (''/kacho.cloud.registry.v1.RegistryService/Delete'', guarded_entry FGARelationVDelete extractRegistry ''registry.registries.delete''),
      (''/kacho.cloud.registry.v1.RegistryService/ListOperations'', guarded_entry FGARelationVList extractRegistry ''registry.registries.listOperations''),
      (''/kacho.cloud.registry.v1.RegistryService/ListRepositories'', scope_filtered FGARelationVList extractRegistry ''registry.repositories.list''),
      (''/kacho.cloud.registry.v1.RegistryService/ListTags'', scope_filtered FGARelationVList extractRepository ''registry.repositories.list''),
      (''/kacho.cloud.registry.v1.RegistryService/DeleteTag'', scope_filtered FGARelationVDelete extractRepository ''registry.repositories.delete''),
      (''/kacho.cloud.operation.OperationService/Get'', public_entry),
      (''/kacho.cloud.operation.OperationService/Cancel'', public_entry),
      (''/kacho.cloud.registry.v1.InternalRegistryService/TriggerGarbageCollection'', guarded_entry FGARelationVDelete extractRegistry ''registry.registries.gc''),
      (''/kacho.cloud.registry.v1.InternalRegistryService/GetRegistryStats'', guarded_entry FGARelationVGet extractRegistry ''registry.registries.stats'')]"

end
