(* ===== verification/HandlerProps.thy ===== *)
theory HandlerProps
  imports Handlers RegistryProps
begin

text \<open>
  What the transport promises: no operation is opened without the licences the authorization model
  asks for, rows of a list are those the subject may see, and a refused read looks like an absent
  object; and where the gate of public repositories can be passed without the role it asks for.
\<close>

section \<open>Licences of the mutating calls\<close>

datatype mutation = MUpdate pb_update_registry_request | MCreateRepository pb_create_repository_request
  | MUpdateRepository pb_update_repository_request | MDeleteRepository string string
  | MRenameRepository string string string | MDeleteTag string string string

fun serve_mutation :: "'x registry_handler \<Rightarrow> principal \<Rightarrow> mutation \<Rightarrow> ('x world, gerror + pb_operation) state" where
  "serve_mutation h pr (MUpdate req) = h_Update h pr req"
| "serve_mutation h pr (MCreateRepository req) = h_CreateRepository h pr req"
| "serve_mutation h pr (MUpdateRepository req) = h_UpdateRepository h pr req"
| "serve_mutation h pr (MDeleteRepository reg name) = h_DeleteRepository h pr reg name"
| "serve_mutation h pr (MRenameRepository reg name newName) = h_RenameRepository h pr reg name newName"
| "serve_mutation h pr (MDeleteTag reg name tag) = h_DeleteTag h pr reg name tag"

text \<open>The relations on objects the handler asks for, per call.\<close>

definition admin_if :: "bool \<Rightarrow> string \<Rightarrow> (string \<times> string) list" where
  "admin_if b reg = (if b then [(FGARelationAdmin, registryObjectRef reg)] else [])"

fun licences :: "mutation \<Rightarrow> (string \<times> string) list" where
  "licences (MUpdate req) = admin_if (''default_visibility'' \<in> set (xq_update_mask req) \<and>
     xq_default_visibility req = VisibilityPublic) (xq_registry_id req)"
| "licences (MCreateRepository req) = (FGARelationVCreate, registryObjectRef (yq_registry_id req)) #
     admin_if (yq_visibility req = VisibilityPublic) (yq_registry_id req)"
| "licences (MUpdateRepository req) = (FGARelationVUpdate, repositoryObjectRef (zq_registry_id req) (zq_repository req)) #
     admin_if (''visibility'' \<in> set (zq_update_mask req) \<and> zq_visibility req = VisibilityPublic) (zq_registry_id req)"
| "licences (MDeleteRepository reg name) = [(FGARelationVDelete, repositoryObjectRef reg name)]"
| "licences (MRenameRepository reg name newName) =
     [(FGARelationVUpdate, repositoryObjectRef reg name), (FGARelationVCreate, registryObjectRef reg)]"
| "licences (MDeleteTag reg name tag) = [(FGARelationVDelete, repositoryObjectRef reg name)]"

text \<open>The checks of this request, one after the other from the state the request finds: each has to be
  answered yes, and its answer is asked in the state the one before it left.\<close>

fun affirmed :: "'x authorizer \<Rightarrow> string \<Rightarrow> (string \<times> string) list \<Rightarrow> 'x env \<Rightarrow> bool" where
  "affirmed chk subject [] e = True"
| "affirmed chk subject ((relation, object) # ls) e = (case run_state (chk subject relation object) e of
     (Inl err, f) \<Rightarrow> False | (Inr yes, f) \<Rightarrow> yes \<and> affirmed chk subject ls f)"

text \<open>A request that leaves nothing behind but an error.\<close>

definition untouched :: "'x world \<Rightarrow> gerror + 'a \<Rightarrow> 'x world \<Rightarrow> bool" where
  "untouched w res v \<longleftrightarrow> (\<exists>e. res = Inl e) \<and> w_opened v = w_opened w \<and> w_jobs v = w_jobs w \<and>
     w_done v = w_done w \<and> e_db (w_env v) = e_db (w_env w)"

definition needs :: "'x authorizer \<Rightarrow> string \<Rightarrow> (string \<times> string) list \<Rightarrow> ('x world, gerror + 'a) state \<Rightarrow> bool" where
  "needs chk sub ls m \<longleftrightarrow> (\<forall>w. wp m (\<lambda>res v. affirmed chk sub ls (w_env w) \<or> untouched w res v) w)"

lemma needs_nothing: "needs chk sub [] m"
  by (simp add: needs_def wp_def split: prod.splits)

lemma needs_guard: "(\<And>a. needs chk sub ls (f a)) \<Longrightarrow> needs chk sub ls (andThen (guard_ok v) f)"
  by (cases v) (auto simp: needs_def untouched_def)

lemma needs_pass: "needs chk sub ls (f ()) \<Longrightarrow> needs chk sub ls (andThen (State_Monad.return (Inr ())) f)"
  by (simp add: needs_def)

lemma gate_cases:
  assumes "az a = Some chk" and "peer (\<lambda>s t. t = s) (chk (subjectFromContext a pr) relation object)"
    and "run_state (gated a pr relation object denied) e = (r, f)"
  shows "e_db f = e_db e \<and> (r = Inr () \<longrightarrow> run_state (chk (subjectFromContext a pr) relation object) e = (Inr True, f))"
proof -
  obtain x g where x: "run_state (chk (subjectFromContext a pr) relation object) e = (x, g)" by force
  have "e_db g = e_db e" using quiet_peer [OF assms(2) x] .
  moreover have "f = g" "r = Inr () \<longrightarrow> x = Inr True"
    using assms(1,3) x by (auto simp: gated_def authz_check_def run split: sum.splits if_splits)
  ultimately show ?thesis using x by auto
qed

lemma needs_gate:
  assumes "az a = Some chk" and "\<And>s r b. peer (\<lambda>s t. t = s) (chk s r b)"
    and "needs chk (subjectFromContext a pr) ls (f ())"
  shows "needs chk (subjectFromContext a pr) ((relation, object) # ls) (andThen (on_env (gated a pr relation object denied)) f)"
  unfolding needs_def
proof (intro allI wp_runI)
  let ?ok = "affirmed chk (subjectFromContext a pr)"
  fix w res v
  assume r0: "run_state (andThen (on_env (gated a pr relation object denied)) f) w = (res, v)"
  obtain x e where x: "run_state (gated a pr relation object denied) (w_env w) = (x, e)" by force
  note c = gate_cases [OF assms(1,2) x]
  show "?ok ((relation, object) # ls) (w_env w) \<or> untouched w res v"
  proof (cases x)
    case (Inl err)
    with r0 x c show ?thesis by (auto simp: run untouched_def)
  next
    case (Inr u)
    with r0 x have "run_state (f ()) (w\<lparr>w_env := e\<rparr>) = (res, v)" by (simp add: run)
    with assms(3) have "?ok ls e \<or> untouched (w\<lparr>w_env := e\<rparr>) res v" unfolding needs_def by (force dest: wp_runD)
    then show ?thesis using c Inr by (auto simp: untouched_def)
  qed
qed

lemma needs_admin:
  assumes "\<not> b \<Longrightarrow> needs chk sub ls (f ())" and "b \<Longrightarrow> needs chk sub ls (andThen m f)"
  shows "needs chk sub ls (andThen (if b then m else State_Monad.return (Inr ())) f)"
  using assms by (cases b) (simp_all add: needs_pass)

lemmas gates = namespaceGate_def checkRepo_def checkRepository_def registryGate_def requireRegistryAdmin_def

lemma maskContains_iff [simp]: "maskContains paths field \<longleftrightarrow> field \<in> set paths"
  by (auto simp: maskContains_def list_ex_iff)

lemma andThen_assoc: "andThen (andThen m f) g = andThen m (\<lambda>a. andThen (f a) g)"
  by (rule state.expand, rule ext) (simp add: run split: prod.splits sum.splits)

text \<open>The interceptor asks for a relation on the registry of the request before the method is served:
  the entry is neither public nor left to the handler.\<close>

definition interceptor_asks :: "string \<Rightarrow> string \<Rightarrow> bool" where
  "interceptor_asks rpc relation \<longleftrightarrow> (case PermissionMap (''/kacho.cloud.registry.v1.'' @ rpc) of
       None \<Rightarrow> False
     | Some p \<Rightarrow> pe_Relation p = relation \<and> pe_Extract p = Some extractRegistry \<and> \<not> pe_ScopeFiltered p \<and> \<not> pe_Public p)"

text \<open>
  C21. No mutation without a licence. If the authorizer is wired and does not touch the database, each
  of these six calls - UpdateRepository, CreateRepository, DeleteRepository, RenameRepository, DeleteTag
  and, where the request names \<open>default_visibility\<close> and PUBLIC, Update - either had every check of
  its own answered yes, in this request and in this order: the verb on the repository (create: on the
  registry; rename: \<open>v_update\<close> on the repository, then \<open>v_create\<close> on the registry), then the admin role
  of the registry where the request names a visibility it makes PUBLIC; or it answers an error and
  leaves the database, the operations and the workers as they were. An error of the authorizer counts
  as a refusal. The handlers of Update, Delete (with its cascade) and TriggerGarbageCollection ask for no
  verb themselves: the table of the interceptor has \<open>v_update\<close>, \<open>v_delete\<close> and \<open>v_delete\<close> on the
  registry for them, neither public nor scope filtered.
\<close>

theorem mutations_need_licences:
  assumes "az (rh_authz h) = Some chk" and "\<And>s r b. peer (\<lambda>s t. t = s) (chk s r b)"
    and "run_state (serve_mutation h pr c) w = (res, v)"
  shows "(affirmed chk (subjectFromContext (rh_authz h) pr) (licences c) (w_env w) \<or> untouched w res v) \<and>
    interceptor_asks ''RegistryService/Update'' FGARelationVUpdate \<and>
    interceptor_asks ''RegistryService/Delete'' FGARelationVDelete \<and>
    interceptor_asks ''InternalRegistryService/TriggerGarbageCollection'' FGARelationVDelete"
proof -
  note gate = needs_gate [OF assms(1,2)]
  have "needs chk (subjectFromContext (rh_authz h) pr) (licences c) (serve_mutation h pr c)"
    by (cases c)
      (auto simp: h_Update_def h_CreateRepository_def h_UpdateRepository_def h_DeleteRepository_def
        h_RenameRepository_def h_DeleteTag_def gates admin_if_def andThen_assoc split: if_splits
        intro!: needs_guard needs_admin gate needs_nothing needs_pass)
  with assms(3) have "affirmed chk (subjectFromContext (rh_authz h) pr) (licences c) (w_env w) \<or> untouched w res v"
    unfolding needs_def by (blast dest: wp_runD)
  then show ?thesis by (simp add: interceptor_asks_def PermissionMap_def guarded_entry_def)
qed

text \<open>A transport over the concrete system, with a table of permissions.\<close>

definition demo_handler_with :: "(string \<times> string \<times> string) list \<Rightarrow> demo_ext registry_handler" where
  "demo_handler_with perms = \<lparr>rh_uc = fresh_usecase, rh_authz =
     \<lparr>az = Some (\<lambda>s r b. State_Monad.return (Inr ((s, r, b) \<in> set perms))),
      az_FormatSubject = (\<lambda>t i. t @ '':'' @ i)\<rparr>\<rparr>"

lemma demo_authorizer_quiet: "az (rh_authz (demo_handler_with perms)) = Some chk \<Longrightarrow> peer (\<lambda>s t. t = s) (chk s r b)"
  by (auto simp: demo_handler_with_def peer_def guar_def)

text \<open>The editor may update the repository \<open>app\<close> and the registry, and is not its admin.\<close>

definition editor :: "demo_ext registry_handler" where
  "editor = demo_handler_with
     [(''user:usr1'', FGARelationVUpdate, repositoryObjectRef ''reg'' ''app''),
      (''user:usr1'', FGARelationVGet, repositoryObjectRef ''reg'' ''app'')]"

definition private_world :: "demo_ext world" where
  "private_world = ask_fresh fresh_usecase
     (RCreateRepository (demo_create_repo\<lparr>rs_Visibility := VisibilityPrivate\<rparr>))
     (ask_fresh fresh_usecase (RCreate demo_create) demo_world)"

definition publish :: "string list \<Rightarrow> pb_update_repository_request" where
  "publish paths = \<lparr>zq_registry_id = ''reg'', zq_repository = ''app'', zq_description = [], zq_labels = [],
     zq_visibility = VisibilityPublic, zq_update_mask = paths\<rparr>"

definition publish_default :: "string list \<Rightarrow> pb_update_registry_request" where
  "publish_default paths = \<lparr>xq_registry_id = ''reg'', xq_name = [], xq_description = [], xq_labels = [],
     xq_default_visibility = VisibilityPublic, xq_update_mask = paths\<rparr>"

text \<open>The call, then the worker it started.\<close>

definition after_call :: "demo_ext registry_handler \<Rightarrow> mutation \<Rightarrow> demo_ext world \<Rightarrow> db" where
  "after_call h m w = (case run_state (serve_mutation h demo_principal m) w of (res, v) \<Rightarrow>
     (case rev (w_jobs v) of [] \<Rightarrow> e_db (w_env v)
      | (i, j) # js \<Rightarrow> e_db (snd (run_state (run_job (rh_uc h) j) (w_env v)))))"

lemma mutations_need_licences_witness:
  "untouched private_world (fst (run_state (serve_mutation editor demo_principal (MUpdateRepository (publish [''visibility'']))) private_world))
     (snd (run_state (serve_mutation editor demo_principal (MUpdateRepository (publish [''visibility'']))) private_world))"
proof -
  let ?c = "MUpdateRepository (publish [''visibility''])"
  obtain chk where chk: "az (rh_authz editor) = Some chk" by (auto simp: editor_def demo_handler_with_def)
  have "licences ?c = [(FGARelationVUpdate, repositoryObjectRef ''reg'' ''app''), (FGARelationAdmin, registryObjectRef ''reg'')]"
    by (simp add: admin_if_def publish_def)
  then have "\<not> affirmed chk (subjectFromContext (rh_authz editor) demo_principal) (licences ?c) (w_env private_world)"
    using chk by (auto simp: editor_def demo_handler_with_def fga_relations run)
  moreover have "\<And>s r b. peer (\<lambda>s t. t = s) (chk s r b)"
    using chk demo_authorizer_quiet unfolding editor_def by blast
  ultimately show ?thesis
    using mutations_need_licences [OF chk, of demo_principal ?c private_world] by (metis prod.collapse)
qed

text \<open>
  The admin gate before PUBLIC has two holes: it looks for the path \<open>visibility\<close> in the mask, but an
  empty mask changes every field, and it looks for \<open>default_visibility\<close>, but the use case also accepts
  the spelling \<open>defaultVisibility\<close>. An editor without the admin role is refused the named change, and
  with the empty mask publishes the repository - everyone may pull it -, and turns the default
  visibility of the registry to PUBLIC under the other spelling.
\<close>

theorem admin_gate_can_be_passed:
  "fst (run_state (serve_mutation editor demo_principal (MUpdateRepository (publish [''visibility'']))) private_world) =
     Inl (GStatus PermissionDenied ''changing repository visibility requires registry admin'') \<and>
   FGARepoPublicGetTuple ''reg'' ''app'' \<in> granted (d_outbox (after_call editor (MUpdateRepository (publish [])) private_world)) \<and>
   fst (run_state (serve_mutation editor demo_principal (MUpdate (publish_default [''default_visibility'']))) private_world) =
     Inl (GStatus PermissionDenied ''changing default visibility to public requires registry admin'') \<and>
   map r_default_visibility (d_registries (after_call editor (MUpdate (publish_default [''defaultVisibility''])) private_world)) =
     [VisibilityPublic]"
  by (intro conjI) code_simp+

section \<open>Lists show what the subject may see\<close>

text \<open>The authorizer answered yes at some moment.\<close>

definition licensed_by :: "'x authorizer \<Rightarrow> string \<Rightarrow> string \<times> string \<Rightarrow> bool" where
  "licensed_by chk subject l \<longleftrightarrow> (\<exists>e. fst (run_state (chk subject (fst l) (snd l)) e) = Inr True)"

text \<open>The answers of the authorizer for the rows of a page, one after the other; a row without an object
  needs none.\<close>

fun verdicts :: "'x authorizer \<Rightarrow> string \<Rightarrow> string option list \<Rightarrow> 'x env \<Rightarrow> (gerror + bool) list" where
  "verdicts chk subject [] e = []"
| "verdicts chk subject (None # rest) e = Inr True # verdicts chk subject rest e"
| "verdicts chk subject (Some object # rest) e =
     (case run_state (chk subject FGARelationVList object) e of (v, f) \<Rightarrow> v # verdicts chk subject rest f)"

text \<open>What may be shown of a page: nothing but an error if a check failed, else the rows with a yes.\<close>

definition viewable :: "'x authorizer \<Rightarrow> string \<Rightarrow> ('a \<Rightarrow> string option) \<Rightarrow> 'a list \<Rightarrow> 'x env \<Rightarrow> gerror + 'a list" where
  "viewable chk subject object rows e = (let vs = verdicts chk subject (map object rows) e in
     if list_ex (\<lambda>v. case v of Inl err \<Rightarrow> True | Inr yes \<Rightarrow> False) vs then Inl errAuthzUnavailable
     else Inr (map fst (filter (\<lambda>rv. snd rv = Inr True) (zip rows vs))))"

lemma row_flags_verdicts:
  assumes "run_state (row_flags chk subject objects) e = (r, f)"
  shows "case r of
      Inl err \<Rightarrow> list_ex (\<lambda>v. case v of Inl err \<Rightarrow> True | Inr yes \<Rightarrow> False) (verdicts chk subject objects e)
    | Inr flags \<Rightarrow> verdicts chk subject objects e = map Inr flags"
  using assms
proof (induction chk subject objects arbitrary: e r rule: row_flags.induct)
  case (2 chk subject rest)
  obtain vs g where vs: "run_state (row_flags chk subject rest) e = (vs, g)" by force
  from "2.prems" vs have "r = (case vs of Inl e \<Rightarrow> Inl e | Inr bs \<Rightarrow> Inr (True # bs))" "f = g" by (auto simp: run)
  with "2.IH" [of e vs] vs show ?case by (cases vs) auto
next
  case (3 chk subject b rest)
  obtain v g where v: "run_state (chk subject FGARelationVList b) e = (v, g)" by force
  obtain vs g' where vs: "run_state (row_flags chk subject rest) g = (vs, g')" by force
  from "3.prems" v vs have "f = g'" "r = (case (v, vs) of (Inl e, _) \<Rightarrow> Inl e | (_, Inl e) \<Rightarrow> Inl e | (Inr b, Inr bs) \<Rightarrow> Inr (b # bs))"
    by (auto simp: run)
  with "3.IH" [of g vs] v vs show ?case by (cases v; cases vs) auto
qed (simp add: run)

lemma filter_rows_viewable:
  assumes "az a = Some chk" and "run_state (filter_rows a pr object rows) e = (r, f)"
  shows "r = viewable chk (subjectFromContext a pr) object rows e"
proof -
  obtain fs g where fs: "run_state (row_flags chk (subjectFromContext a pr) (map object rows)) e = (fs, g)" by force
  with assms have r: "r = (case fs of Inl e \<Rightarrow> Inl errAuthzUnavailable | Inr flags \<Rightarrow> Inr (keep_flags rows flags))"
    by (simp add: filter_rows_def run)
  show ?thesis
  proof (cases fs)
    case (Inl err)
    with r row_flags_verdicts [OF fs] show ?thesis by (simp add: viewable_def)
  next
    case (Inr flags)
    have "\<not> list_ex (\<lambda>v. case v of Inl err \<Rightarrow> True | Inr yes \<Rightarrow> False) (map Inr flags :: (gerror + bool) list)"
      by (simp add: list_ex_iff)
    moreover have "map fst (filter (\<lambda>rv. snd rv = Inr True) (zip rows (map Inr flags :: (gerror + bool) list))) = keep_flags rows flags"
      by (simp add: keep_flags_def zip_map2 filter_map o_def case_prod_unfold)
    ultimately show ?thesis using r Inr row_flags_verdicts [OF fs] by (simp add: viewable_def)
  qed
qed

text \<open>A row with a yes was affirmed, if it has an object.\<close>

lemma verdicts_licensed:
  "(Some b, Inr True) \<in> set (zip objects (verdicts chk subject objects e)) \<Longrightarrow>
    licensed_by chk subject (FGARelationVList, b)"
proof (induction chk subject objects e rule: verdicts.induct)
  case (3 chk subject object rest e)
  then show ?case by (cases "run_state (chk subject FGARelationVList object) e") (auto simp: licensed_by_def intro: exI [of _ e])
qed simp_all

lemma filter_rows_affirmed:
  assumes "az a = Some chk" and "run_state (filter_rows a pr object rows) e = (Inr kept, f)"
  shows "(\<forall>r \<in> set kept. r \<in> set rows \<and> (\<forall>b. object r = Some b \<longrightarrow>
      licensed_by chk (subjectFromContext a pr) (FGARelationVList, b)))"
proof -
  let ?vs = "verdicts chk (subjectFromContext a pr) (map object rows) e"
  from filter_rows_viewable [OF assms] have kept: "kept = map fst (filter (\<lambda>rv. snd rv = Inr True) (zip rows ?vs))"
    by (simp add: viewable_def Let_def split: if_splits)
  have "(object r, v) \<in> set (zip (map object rows) ?vs)" if "(r, v) \<in> set (zip rows ?vs)" for r v
    using that by (force simp: zip_map1)
  then have "licensed_by chk (subjectFromContext a pr) (FGARelationVList, b)"
    if "(r, Inr True) \<in> set (zip rows ?vs)" "object r = Some b" for r b
    using that verdicts_licensed by metis
  with kept show ?thesis by (auto dest: set_zip_leftD)
qed

lemma answered_Inr: "run_state (answered f m) e = (Inr b, g) \<Longrightarrow> \<exists>a. run_state m e = (Inr a, g) \<and> b = f a"
  by (auto simp: answered_def run split: prod.splits sum.splits)

text \<open>The repository an operation on the wire is about.\<close>

definition about_repository :: "pb_operation \<Rightarrow> string option" where
  "about_repository b = Option.bind (bo_metadata b) metadata_repository"

text \<open>The page a list call filters: what stands before the filter in the call, with its guards.\<close>

definition registry_page :: "'x registry_handler \<Rightarrow> list_query \<Rightarrow> ('x env, gerror + registry list \<times> string) state" where
  "registry_page h q = answered id (ListRegistries (rh_uc h) q)"

definition repository_page ::
  "'x registry_handler \<Rightarrow> principal \<Rightarrow> repo_list_query \<Rightarrow> ('x env, gerror + repository list \<times> string) state" where
  "repository_page h pr q = andThen (guard_ok (valid_registry h (rq_RegistryID q))) (\<lambda>_.
     andThen (namespaceGate (rh_authz h) pr (rq_RegistryID q)) (\<lambda>_. answered id (ListRepositories (rh_uc h) q)))"

definition operation_page :: "'x registry_handler \<Rightarrow> operations_query \<Rightarrow> ('x env, gerror + operation list \<times> string) state" where
  "operation_page h q = answered id (ListOperations (rh_uc h) q)"

text \<open>The answer to a list call, given its page: the error of the page, or what may be shown of it.\<close>

definition shown :: "('x env, gerror + 'a list \<times> string) state \<Rightarrow> ('a list \<Rightarrow> 'x env \<Rightarrow> gerror + 'a list) \<Rightarrow> ('a \<Rightarrow> 'b) \<Rightarrow>
    'x env \<Rightarrow> gerror + 'b list \<times> string" where
  "shown page view conv e = (case run_state page e of
       (Inl err, f) \<Rightarrow> Inl err
     | (Inr (rows, tok), f) \<Rightarrow> (case view rows f of Inl err \<Rightarrow> Inl err | Inr kept \<Rightarrow> Inr (map conv kept, tok)))"

lemma shown_andThen:
  assumes "az a = Some chk"
  shows "fst (run_state (andThen page (\<lambda>p. andThen (filter_rows a pr object (fst p)) (\<lambda>kept.
      State_Monad.return (Inr (map conv kept, snd p))))) e) = shown page (viewable chk (subjectFromContext a pr) object) conv e"
proof -
  have v: "fst (run_state (filter_rows a pr object rows) g) = viewable chk (subjectFromContext a pr) object rows g" for rows g
    using filter_rows_viewable [OF assms, of pr object rows g] by (metis prod.collapse)
  show ?thesis
    unfolding shown_def v [symmetric] by (auto simp: run split: prod.splits sum.splits)
qed

text \<open>
  C22. Lists show exactly what the subject may list. With an authorizer wired, an answer of List, of
  ListRepositories and of ListOperations is determined by its page and by the checks of \<open>v_list\<close> of this
  request on the objects of the rows of this page: if any of these checks fails, the answer is the error
  of an unavailable authorizer and holds no rows; otherwise it holds, in their order, the rows whose check
  was answered yes, and those operations that name no repository. So every registry, every repository
  and every operation on a repository in an answer was affirmed for the subject on that very object.
\<close>

theorem lists_show_the_viewable:
  assumes "az (rh_authz h) = Some chk"
  shows "(run_state (h_List h pr lq) e = (Inr (regs, tok), f) \<longrightarrow>
      (\<forall>b \<in> set regs. licensed_by chk (subjectFromContext (rh_authz h) pr) (FGARelationVList, registryObjectRef (br_id b)))) \<and>
    (run_state (h_ListRepositories h pr rq) e = (Inr (repos, tok), f) \<longrightarrow>
      (\<forall>b \<in> set repos. licensed_by chk (subjectFromContext (rh_authz h) pr)
        (FGARelationVList, repositoryObjectRef (rq_RegistryID rq) (bp_name b)))) \<and>
    (run_state (h_ListOperations h pr oq) e = (Inr (ops, tok), f) \<longrightarrow>
      (\<forall>b \<in> set ops. \<forall>name. about_repository b = Some name \<and> name \<noteq> [] \<longrightarrow>
        licensed_by chk (subjectFromContext (rh_authz h) pr) (FGARelationVList, repositoryObjectRef (oq_RegistryID oq) name))) \<and>
    fst (run_state (h_List h pr lq) e) = shown (registry_page h lq)
      (viewable chk (subjectFromContext (rh_authz h) pr) (\<lambda>r. Some (registryObjectRef (r_id r)))) (ProtoRegistry (rh_uc h)) e \<and>
    fst (run_state (h_ListRepositories h pr rq) e) = shown (repository_page h pr rq)
      (viewable chk (subjectFromContext (rh_authz h) pr) (\<lambda>r. Some (repositoryObjectRef (rq_RegistryID rq) (p_name r)))) toProtoRepository e \<and>
    fst (run_state (h_ListOperations h pr oq) e) = shown (operation_page h oq)
      (viewable chk (subjectFromContext (rh_authz h) pr)
        (\<lambda>op. map_option (repositoryObjectRef (oq_RegistryID oq)) (repositoryOfOperation op))) operationToProto e"
proof (intro conjI impI)
  assume "run_state (h_List h pr lq) e = (Inr (regs, tok), f)"
  then obtain rows kept e' g where k: "run_state (filterRegistries (rh_authz h) pr rows) e' = (Inr kept, g)"
    and "regs = map (ProtoRegistry (rh_uc h)) kept"
    unfolding h_List_def by (auto dest!: andThen_Inr simp: run_return)
  then show "\<forall>b \<in> set regs. licensed_by chk (subjectFromContext (rh_authz h) pr) (FGARelationVList, registryObjectRef (br_id b))"
    using filter_rows_affirmed [OF assms k [unfolded filterRegistries_def]] by (auto simp: ProtoRegistry_def)
next
  assume "run_state (h_ListRepositories h pr rq) e = (Inr (repos, tok), f)"
  then obtain rows kept e' g where k: "run_state (filterRepos (rh_authz h) pr (rq_RegistryID rq) rows) e' = (Inr kept, g)"
    and "repos = map toProtoRepository kept"
    unfolding h_ListRepositories_def by (auto dest!: andThen_Inr simp: run_return)
  then show "\<forall>b \<in> set repos. licensed_by chk (subjectFromContext (rh_authz h) pr)
      (FGARelationVList, repositoryObjectRef (rq_RegistryID rq) (bp_name b))"
    using filter_rows_affirmed [OF assms k [unfolded filterRepos_def]] by (auto simp: toProtoRepository_def)
next
  assume "run_state (h_ListOperations h pr oq) e = (Inr (ops, tok), f)"
  then obtain rows kept e' g where k: "run_state (filterOperations (rh_authz h) pr (oq_RegistryID oq) rows) e' = (Inr kept, g)"
    and ops: "ops = map operationToProto kept"
    unfolding h_ListOperations_def by (auto dest!: andThen_Inr simp: run_return)
  have "repositoryOfOperation op = Some name" if "about_repository (operationToProto op) = Some name" "name \<noteq> []" for op name
    using that by (auto simp: about_repository_def operationToProto_def repositoryOfOperation_def Option.bind_eq_Some_conv)
  then show "\<forall>b \<in> set ops. \<forall>name. about_repository b = Some name \<and> name \<noteq> [] \<longrightarrow>
      licensed_by chk (subjectFromContext (rh_authz h) pr) (FGARelationVList, repositoryObjectRef (oq_RegistryID oq) name)"
    using filter_rows_affirmed [OF assms k [unfolded filterOperations_def]] by (auto simp: ops)
qed (simp_all add: h_List_def h_ListRepositories_def h_ListOperations_def registry_page_def repository_page_def
    operation_page_def filterRegistries_def filterRepos_def filterOperations_def shown_andThen [OF assms, symmetric] andThen_assoc)

definition viewer :: "demo_ext registry_handler" where
  "viewer = demo_handler_with
     [(''user:usr1'', FGARelationVList, registryObjectRef ''reg''),
      (''user:usr1'', FGARelationVList, repositoryObjectRef ''reg'' ''app'')]"

definition two_repositories :: "demo_ext env" where
  "two_repositories = \<lparr>e_db = e_db (w_env private_world), e_ext = (5, [(''app'', 3), (''hidden'', 2)])\<rparr>"

definition first_page :: repo_list_query where
  "first_page = \<lparr>rq_RegistryID = ''reg'', rq_PageSize = 0, rq_PageToken = []\<rparr>"

lemma lists_show_the_viewable_witness:
  "\<exists>chk repos tok f. az (rh_authz viewer) = Some chk \<and>
     run_state (h_ListRepositories viewer demo_principal first_page) two_repositories = (Inr (repos, tok), f) \<and>
     map bp_name repos = [''app''] \<and>
     licensed_by chk (subjectFromContext (rh_authz viewer) demo_principal) (FGARelationVList, repositoryObjectRef ''reg'' ''app'')"
proof -
  obtain chk where chk: "az (rh_authz viewer) = Some chk" by (auto simp: viewer_def demo_handler_with_def)
  let ?r = "run_state (h_ListRepositories viewer demo_principal first_page) two_repositories"
  have "case fst ?r of Inl e \<Rightarrow> False | Inr x \<Rightarrow> map bp_name (fst x) = [''app'']" by code_simp
  then obtain repos tok f where r: "?r = (Inr (repos, tok), f)" and n: "map bp_name repos = [''app'']"
    by (cases ?r) (auto split: sum.splits)
  from n obtain b where "b \<in> set repos" "bp_name b = ''app''" by auto
  with lists_show_the_viewable [OF chk] r
  have "licensed_by chk (subjectFromContext (rh_authz viewer) demo_principal)
      (FGARelationVList, repositoryObjectRef (rq_RegistryID first_page) ''app'')" by metis
  with chk r n show ?thesis by (auto simp: first_page_def)
qed

section \<open>A refused read looks like an absent object\<close>

definition is_not_found :: "gerror \<Rightarrow> bool" where
  "is_not_found e \<longleftrightarrow> (\<exists>m. toStatus e = GStatus NotFound m)"

lemma is_not_found_Sent: "is_not_found (Sent s m) \<longleftrightarrow> s = ErrNotFound"
  by (cases s) (auto simp: is_not_found_def internal_status_def)

lemma GetConfig_errors: "run_state (GetConfig reg name) s = (Inl e, t) \<Longrightarrow> \<exists>st m. e = Sent st m"
  by (auto simp: GetConfig_def ready_def wrapped_def run trip_def map_err_def mapConfigErr_def wrapE_def bare_def
      split: if_splits sum.splits prod.splits list.splits fault.splits pg_error.splits)

lemma overlay_of_errors:
  assumes "run_state (overlay_of reg name) e = (Inl err, f)" shows "\<not> is_not_found err"
proof -
  obtain r s where r: "run_state (GetConfig reg name) (e_db e) = (r, s)" by force
  with assms obtain x where x: "r = Inl x" "\<not> is_sentinel x ErrNotFound" "err = mapRepoErr x"
    by (auto simp: overlay_of_def run split: sum.splits if_splits)
  from GetConfig_errors [OF r [unfolded x(1)]] obtain st m where "x = Sent st m" by blast
  with x show ?thesis by (cases st) (auto simp: is_not_found_def mapRepoErr_def internal_status_def)
qed

lemma GetRepository_not_found:
  assumes "resource_id_contract (u_corelib u)"
    and "\<And>e err f. run_state (z_RepositoryProjection (u_zot u) reg name) e = (Inl err, f) \<Longrightarrow> \<not> is_not_found err"
    and "run_state (GetRepository u reg name) e = (Inl err, f)" and "is_not_found err"
  shows "err = failNotFound ''repository not found''"
proof -
  have wired: "assertRepoWired u = Some x \<Longrightarrow> x = bare ErrUnavailable" for x
    by (auto simp: assertRepoWired_def assertWired_def split: option.splits if_splits)
  have valid: "ValidateRegistryID (u_corelib u) reg = Some x \<Longrightarrow> \<not> is_not_found x" for x
    using assms(1) by (fastforce simp: ValidateRegistryID_def resource_id_contract_def is_not_found_def)
  have named: "as_invalid [] v = Some x \<Longrightarrow> \<not> is_not_found x" for v x
    by (auto simp: as_invalid_def is_not_found_def)
  have proj: "run_state (mapped (z_RepositoryProjection (u_zot u) reg name)) e = (Inl x, f) \<Longrightarrow> \<not> is_not_found x" for e x f
    using assms(2) by (fastforce simp: run is_not_found_def mapRepoErr_def map_err_def split: prod.splits sum.splits)
  have unavailable: "\<not> is_not_found (bare ErrUnavailable)" by (simp add: bare_def is_not_found_Sent)
  show ?thesis
    using assms(3,4) wired valid named proj unavailable overlay_of_errors
    unfolding GetRepository_def run_andThen run_guard_ok
    by (auto simp: opt_err_def run_return split: option.splits prod.splits sum.splits dest: overlay_of_errors)
qed

text \<open>
  C23. Reading gives no existence oracle: as long as the engine reports an absent projection as such
  and not as an error, every NotFound answer of GetRepository is the same, whether the subject may
  not see the repository or there is none; and a refused subject gets this answer whatever the
  database and the engine hold.
\<close>

theorem refused_read_looks_absent:
  assumes "resource_id_contract (u_corelib (rh_uc h))"
    and "\<And>e err f. run_state (z_RepositoryProjection (u_zot (rh_uc h)) reg name) e = (Inl err, f) \<Longrightarrow> \<not> is_not_found err"
    and "name \<noteq> []" and "valid_registry h reg = None"
  shows "(run_state (h_GetRepository h pr reg name) e = (Inl (GStatus NotFound m), f) \<longrightarrow> m = ''repository not found'') \<and>
    (fst (run_state (authz_check (rh_authz h) pr FGARelationVGet (repositoryObjectRef reg name)) e) = Inr False \<longrightarrow>
      fst (run_state (h_GetRepository h pr reg name) e) = Inl (GStatus NotFound ''repository not found''))"
proof (intro conjI impI)
  assume r0: "run_state (h_GetRepository h pr reg name) e = (Inl (GStatus NotFound m), f)"
  obtain x g where x: "run_state (checkRepository (rh_authz h) pr reg name FGARelationVGet) e = (x, g)" by force
  show "m = ''repository not found''"
  proof (cases x)
    case (Inl err)
    then have "err = errAuthzUnavailable \<or> err = errRepoHideExistence"
      using x by (auto simp: checkRepository_def gated_def run split: prod.splits sum.splits if_splits)
    with r0 x Inl assms(3,4) show ?thesis
      by (auto simp: h_GetRepository_def run required_field_def errAuthzUnavailable_def errRepoHideExistence_def)
  next
    case (Inr u)
    obtain y k where y: "run_state (GetRepository (rh_uc h) reg name) g = (y, k)" by force
    with r0 x Inr assms(3,4) obtain err where err: "y = Inl err" "mapErr err = GStatus NotFound m"
      by (auto simp: h_GetRepository_def run required_field_def answered_def split: sum.splits)
    then have "is_not_found err" by (simp add: is_not_found_def mapErr_def)
    from GetRepository_not_found [OF assms(1,2) y [unfolded err(1)] this] err show ?thesis
      by (simp add: mapErr_def)
  qed
next
  assume "fst (run_state (authz_check (rh_authz h) pr FGARelationVGet (repositoryObjectRef reg name)) e) = Inr False"
  then show "fst (run_state (h_GetRepository h pr reg name) e) = Inl (GStatus NotFound ''repository not found'')"
    using assms(3,4)
    by (auto simp: h_GetRepository_def run required_field_def checkRepository_def gated_def errRepoHideExistence_def
        split: prod.splits)
qed

lemma refused_read_looks_absent_witness:
  "fst (run_state (h_GetRepository viewer demo_principal ''reg'' ''hidden'') two_repositories) =
     Inl (GStatus NotFound ''repository not found'')"
proof -
  have "resource_id_contract (u_corelib (rh_uc viewer))"
    using demo_corelib_contracts by (simp add: viewer_def demo_handler_with_def fresh_usecase_def demo_usecase_def NewUseCase_def)
  moreover have "\<not> is_not_found err" if "run_state (z_RepositoryProjection (u_zot (rh_uc viewer)) ''reg'' ''hidden'') e = (Inl err, f)" for e err f
    using that by (simp add: viewer_def demo_handler_with_def fresh_usecase_def demo_usecase_def NewUseCase_def demo_zot_def answer_def)
  moreover have "valid_registry viewer ''reg'' = None" by code_simp
  moreover have "fst (run_state (authz_check (rh_authz viewer) demo_principal FGARelationVGet
      (repositoryObjectRef ''reg'' ''hidden'')) two_repositories) = Inr False" by code_simp
  ultimately show ?thesis using refused_read_looks_absent [of viewer "''reg''" "''hidden''"] by blast
qed

section \<open>Calls the interceptor does not know\<close>

text \<open>The interceptor refuses a method without an entry in its map, and the six calls on overlays have
  none: although their handlers check what they need, no subject can reach them while the interceptor
  is on.\<close>

lemma overlay_calls_have_no_permission:
  "map (\<lambda>m. PermissionMap (''/kacho.cloud.registry.v1.RegistryService/'' @ m))
     [''GetRepository'', ''CreateRepository'', ''UpdateRepository'', ''DeleteRepository'', ''RenameRepository'',
      ''ListReferrers''] = replicate 6 None"
  unfolding PermissionMap_def by (simp add: numeral_eq_Suc)

end
