(* ===== verification/Wrap.thy ===== *)
theory Wrap
  imports GoStd "HOL-Library.Word"
begin

text \<open>
  Go's fixed-width integers: \<open>wrap64\<close> and \<open>wrap32\<close> reduce an exact integer to \<open>int64\<close> and \<open>int32\<close>,
  two's complement; and the percent encoders of \<open>net/url\<close>.
\<close>

definition wrap64 :: "int \<Rightarrow> int" where
  "wrap64 i = sint (word_of_int i :: 64 word)"

definition wrap32 :: "int \<Rightarrow> int" where
  "wrap32 i = sint (word_of_int i :: 32 word)"

lemma wrap64_range: "- (2 ^ 63) \<le> wrap64 i \<and> wrap64 i < 2 ^ 63"
  using sint_greater_eq [of "word_of_int i :: 64 word"] sint_less [of "word_of_int i :: 64 word"]
  by (simp add: wrap64_def)

lemma wrap32_range: "- (2 ^ 31) \<le> wrap32 i \<and> wrap32 i < 2 ^ 31"
  using sint_greater_eq [of "word_of_int i :: 32 word"] sint_less [of "word_of_int i :: 32 word"]
  by (simp add: wrap32_def)

lemma wrap64_id: "- (2 ^ 63) \<le> i \<Longrightarrow> i < 2 ^ 63 \<Longrightarrow> wrap64 i = i"
  by (simp add: wrap64_def sint_sbintrunc' signed_take_bit_int_eq_self)

lemma wrap32_id: "- (2 ^ 31) \<le> i \<Longrightarrow> i < 2 ^ 31 \<Longrightarrow> wrap32 i = i"
  by (simp add: wrap32_def sint_sbintrunc' signed_take_bit_int_eq_self)

section \<open>Percent encoding\<close>

definition hex_digit :: "nat \<Rightarrow> char" where
  "hex_digit n = (if n < 10 then char_of (48 + n) else char_of (55 + n))"

definition pct :: "char \<Rightarrow> string" where
  "pct c = [CHR ''%'', hex_digit (of_char c div 16), hex_digit (of_char c mod 16)]"

text \<open>What \<open>url.PathEscape\<close> leaves alone: the unreserved bytes and \<open>$&+=:@\<close>.\<close>

definition unreserved :: "char \<Rightarrow> bool" where
  "unreserved c \<longleftrightarrow> (let v = of_char c :: nat in 97 \<le> v \<and> v \<le> 122 \<or> 65 \<le> v \<and> v \<le> 90 \<or> 48 \<le> v \<and> v \<le> 57)
     \<or> c \<in> set ''-_.~''"

definition escape_with :: "(char \<Rightarrow> bool) \<Rightarrow> string \<Rightarrow> string" where
  "escape_with keep s = concat (map (\<lambda>c. if keep c then [c] else pct c) s)"

definition path_escape :: "string \<Rightarrow> string" where
  "path_escape = escape_with (\<lambda>c. unreserved c \<or> c \<in> set ''$&+=:@'')"

definition query_escape :: "string \<Rightarrow> string" where
  "query_escape s = concat (map (\<lambda>c. if unreserved c then [c] else if c = CHR '' '' then ''+'' else pct c) s)"

lemma hex_val_digit: "n < 16 \<Longrightarrow> hex_val (hex_digit n) = Some n"
  by (auto simp: hex_val_def hex_digit_def Let_def)

lemma path_unescape_pct: "path_unescape (pct c @ s) = map_option (\<lambda>r. c # r) (path_unescape s)"
proof -
  have "of_char c div 16 < (16 :: nat)" using of_char_lt [of c] by linarith
  then show ?thesis by (simp add: pct_def hex_val_digit)
qed

lemma escape_with_roundtrip:
  assumes "\<not> keep CHR ''%''"
  shows "path_unescape (escape_with keep s) = Some s"
proof (induction s)
  case (Cons c s)
  have "keep c \<Longrightarrow> c \<noteq> CHR ''%''" using assms by blast
  with Cons show ?case by (auto simp: escape_with_def path_unescape_pct)
qed (simp add: escape_with_def)

text \<open>An escaped text has none of the separators that are escaped.\<close>

lemma escape_with_avoids:
  assumes "\<not> keep c" and "hex_val c = None" and "c \<noteq> CHR ''%''"
  shows "c \<notin> set (escape_with keep s)"
proof -
  have digit: "hex_digit n \<noteq> c" if "n < 16" for n
    using hex_val_digit [OF that] assms(2) by auto
  have "c \<notin> set (pct d)" for d
  proof -
    have "of_char d div 16 < (16 :: nat)" "of_char d mod 16 < (16 :: nat)" using of_char_lt [of d] by linarith+
    from digit [OF this(1)] digit [OF this(2)] assms(3) show ?thesis by (auto simp: pct_def)
  qed
  with assms(1) show ?thesis by (auto simp: escape_with_def)
qed

lemma path_escape_roundtrip: "path_unescape (path_escape s) = Some s"
  unfolding path_escape_def by (rule escape_with_roundtrip) (simp add: unreserved_def)

lemma path_escape_no_slash: "CHR ''/'' \<notin> set (path_escape s)"
  unfolding path_escape_def by (rule escape_with_avoids) (simp_all add: unreserved_def hex_val_def)

lemma path_escape_inj: "path_escape s = path_escape t \<Longrightarrow> s = t"
  by (metis option.inject path_escape_roundtrip)

end
