(* ===== verification/Json.thy ===== *)
theory Json
  imports GoStd "HOL-Library.AList"
begin

text \<open>
  \<open>encoding/json\<close> as the program uses it: the syntax of JSON, the escaping of strings, the compact
  printer, and the decoding of objects into fields. A string literal is kept as it is spelled, as in
  Go, where the scanner only checks it and the decoder of a field decides whether it is unquoted.
\<close>

section \<open>Values\<close>

type_synonym labels_map = "(string \<times> string) list"

datatype json = JNull | JBool bool | JNum string | JStr string | JArr "json list" | JObj "(string \<times> json) list"

section \<open>Spelling of strings\<close>

definition hex_char :: "nat \<Rightarrow> char" where
  "hex_char n = char_of (if n < 10 then 48 + n else 87 + n)"

definition u_escape :: "nat \<Rightarrow> string" where
  "u_escape r = [CHR 0x5C, CHR ''u'', hex_char (r div 4096), hex_char (r div 256 mod 16),
     hex_char (r div 16 mod 16), hex_char (r mod 16)]"

text \<open>The short escapes after a backslash.\<close>

definition short_escapes :: "(char \<times> char) list" where
  "short_escapes = [(CHR 0x22, CHR 0x22), (CHR 0x5C, CHR 0x5C), (CHR 0x08, CHR ''b''), (CHR 0x0C, CHR ''f''),
     (CHR 0x0A, CHR ''n''), (CHR 0x0D, CHR ''r''), (CHR 0x09, CHR ''t'')]"

definition escape_byte :: "char \<Rightarrow> string" where
  "escape_byte c = (case map_of short_escapes c of
       Some e \<Rightarrow> [CHR 0x5C, e]
     | None \<Rightarrow> if of_char c < (32::nat) \<or> c \<in> {CHR ''<'', CHR ''>'', CHR ''&''} then u_escape (of_char c) else [c])"

text \<open>\<open>appendString\<close> of the encoder, with \<open>escapeHTML\<close>.\<close>

function json_escape :: "string \<Rightarrow> string" where
  "json_escape [] = []"
| "json_escape (c # cs) =
     (if of_char c < (128::nat) then escape_byte c @ json_escape cs
      else case decode_rune (of_char c) (map of_char cs) of (r, k) \<Rightarrow>
        (if k = 0 then u_escape 65533
         else if r = 8232 \<or> r = 8233 then u_escape r else c # take k cs) @ json_escape (drop k cs))"
  by pat_completeness auto
termination by (relation "measure length") (auto simp: less_Suc_eq_le)

text \<open>The scanner: the literal as it is spelled and what follows its closing quote.\<close>

fun hex4 :: "string \<Rightarrow> nat option" where
  "hex4 (a # b # c # d # _) = (case (hex_val a, hex_val b, hex_val c, hex_val d) of
     (Some x, Some y, Some z, Some w) \<Rightarrow> Some (4096 * x + 256 * y + 16 * z + w) | _ \<Rightarrow> None)"
| "hex4 _ = None"

fun scan_str :: "string \<Rightarrow> (string \<times> string) option" where
  "scan_str [] = None"
| "scan_str (c # cs) =
     (if c = CHR 0x22 then Some ([], cs)
      else if of_char c < (32::nat) then None
      else if c \<noteq> CHR 0x5C then map_option (apfst (Cons c)) (scan_str cs)
      else case cs of [] \<Rightarrow> None
        | e # es \<Rightarrow>
            if e \<in> snd ` set short_escapes \<or> e = CHR ''/'' \<or> e = CHR ''u'' \<and> hex4 es \<noteq> None
            then map_option (apfst (\<lambda>t. c # e # t)) (scan_str es) else None)"

text \<open>\<open>utf8.AppendRune\<close>\<close>

definition encode_rune :: "nat \<Rightarrow> string" where
  "encode_rune r = map char_of
     (if r < 128 then [r] else if r < 2048 then [192 + r div 64, 128 + r mod 64]
      else if r > 1114111 \<or> 55296 \<le> r \<and> r \<le> 57343 then [239, 191, 189]
      else if r < 65536 then [224 + r div 4096, 128 + r div 64 mod 64, 128 + r mod 64]
      else [240 + r div 262144, 128 + r div 4096 mod 64, 128 + r div 64 mod 64, 128 + r mod 64])"

text \<open>\<open>utf16.DecodeRune\<close>\<close>

definition pair_rune :: "nat \<Rightarrow> nat option \<Rightarrow> nat option" where
  "pair_rune hi lo = (case lo of None \<Rightarrow> None
     | Some l \<Rightarrow> if 55296 \<le> hi \<and> hi < 56320 \<and> 56320 \<le> l \<and> l < 57344
         then Some ((hi - 55296) * 1024 + (l - 56320) + 65536) else None)"

definition second_half :: "string \<Rightarrow> nat option" where
  "second_half s = (case s of b # u # es \<Rightarrow> if b = CHR 0x5C \<and> u = CHR ''u'' then hex4 es else None | _ \<Rightarrow> None)"

text \<open>\<open>unquote\<close>, on a literal that the scanner accepted.\<close>

function unquote :: "string \<Rightarrow> string" where
  "unquote [] = []"
| "unquote (c # cs) =
     (if c = CHR 0x5C then
        (case cs of [] \<Rightarrow> []
         | e # es \<Rightarrow>
             if e = CHR ''u'' then
               (case hex4 es of None \<Rightarrow> []
                | Some r \<Rightarrow> (case pair_rune r (second_half (drop 4 es)) of
                      Some d \<Rightarrow> encode_rune d @ unquote (drop 10 es)
                    | None \<Rightarrow> encode_rune r @ unquote (drop 4 es)))
             else (case map_of (map prod.swap short_escapes) e of
                 Some b \<Rightarrow> b # unquote es | None \<Rightarrow> e # unquote es))
      else if of_char c < (128::nat) then c # unquote cs
      else case decode_rune (of_char c) (map of_char cs) of (r, k) \<Rightarrow>
        (if k = 0 then encode_rune 65533 else c # take k cs) @ unquote (drop k cs))"
  by pat_completeness auto
termination by (relation "measure length") (auto simp: less_Suc_eq_le)

section \<open>Printing and parsing\<close>

definition quoted :: "string \<Rightarrow> string" where
  "quoted t = CHR 0x22 # t @ [CHR 0x22]"

fun commas :: "string list \<Rightarrow> string" where
  "commas [] = []"
| "commas [x] = x"
| "commas (x # y # ys) = x @ CHR '','' # commas (y # ys)"

fun json_print :: "json \<Rightarrow> string" where
  "json_print JNull = ''null''"
| "json_print (JBool b) = (if b then ''true'' else ''false'')"
| "json_print (JNum t) = t"
| "json_print (JStr t) = quoted t"
| "json_print (JArr js) = CHR ''['' # commas (map json_print js) @ '']''"
| "json_print (JObj ms) = CHR ''{'' # commas (map (\<lambda>(k, j). quoted k @ CHR '':'' # json_print j) ms) @ ''}''"

definition is_ws :: "char \<Rightarrow> bool" where
  "is_ws c \<longleftrightarrow> c \<in> {CHR 0x20, CHR 0x09, CHR 0x0A, CHR 0x0D}"

definition skip_ws :: "string \<Rightarrow> string" where
  "skip_ws = dropWhile is_ws"

definition is_digit :: "char \<Rightarrow> bool" where
  "is_digit c \<longleftrightarrow> digit_val c \<noteq> None"

text \<open>A run of one or more digits.\<close>

definition digits1 :: "string \<Rightarrow> (string \<times> string) option" where
  "digits1 s = (let d = takeWhile is_digit s in if d = [] then None else Some (d, drop (length d) s))"

text \<open>What follows a given character after white space, if it is there.\<close>

definition after :: "char \<Rightarrow> string \<Rightarrow> string option" where
  "after c s = (case skip_ws s of [] \<Rightarrow> None | x # xs \<Rightarrow> if x = c then Some xs else None)"

definition number_sign :: "string \<Rightarrow> string \<times> string" where
  "number_sign s = (if has_prefix s ''-'' then (''-'', drop 1 s) else ([], s))"

definition number_int :: "string \<Rightarrow> (string \<times> string) option" where
  "number_int s = (if has_prefix s ''0'' then Some (''0'', drop 1 s) else digits1 s)"

definition number_frac :: "string \<Rightarrow> (string \<times> string) option" where
  "number_frac s = (if has_prefix s ''.'' then map_option (apfst (Cons CHR ''.'')) (digits1 (drop 1 s)) else Some ([], s))"

definition number_exp :: "string \<Rightarrow> (string \<times> string) option" where
  "number_exp s =
     (if has_prefix s ''e'' \<or> has_prefix s ''E'' then
        (let r = drop 1 s; g = (if has_prefix r ''+'' \<or> has_prefix r ''-'' then take 1 r else []) in
         map_option (apfst (\<lambda>d. take 1 s @ g @ d)) (digits1 (drop (length g) r)))
      else Some ([], s))"

definition parse_number :: "string \<Rightarrow> (string \<times> string) option" where
  "parse_number s =
     (let (sign, s) = number_sign s in
      case number_int s of None \<Rightarrow> None
      | Some (i, s) \<Rightarrow> (case number_frac s of None \<Rightarrow> None
        | Some (f, s) \<Rightarrow> (case number_exp s of None \<Rightarrow> None
          | Some (e, s) \<Rightarrow> Some (sign @ i @ f @ e, s))))"

definition parse_literal :: "string \<Rightarrow> (json \<times> string) option" where
  "parse_literal s =
     (if has_prefix s ''null'' then Some (JNull, drop 4 s)
      else if has_prefix s ''true'' then Some (JBool True, drop 4 s)
      else if has_prefix s ''false'' then Some (JBool False, drop 5 s)
      else map_option (apfst JNum) (parse_number s))"

text \<open>The grammar, with fuel for the steps and the nesting that is still allowed.\<close>

fun parse_value :: "nat \<Rightarrow> nat \<Rightarrow> string \<Rightarrow> (json \<times> string) option"
  and parse_elems :: "nat \<Rightarrow> nat \<Rightarrow> string \<Rightarrow> (json list \<times> string) option"
  and parse_members :: "nat \<Rightarrow> nat \<Rightarrow> string \<Rightarrow> ((string \<times> json) list \<times> string) option" where
  "parse_value 0 d s = None"
| "parse_value (Suc n) d s = (case skip_ws s of
       [] \<Rightarrow> None
     | c # cs \<Rightarrow>
         if c = CHR 0x22 then map_option (apfst JStr) (scan_str cs)
         else if c = CHR ''['' then
           (if d = 0 then None
            else case after CHR '']'' cs of Some r \<Rightarrow> Some (JArr [], r)
              | None \<Rightarrow> map_option (apfst JArr) (parse_elems n (d - 1) cs))
         else if c = CHR ''{'' then
           (if d = 0 then None
            else case after CHR ''}'' cs of Some r \<Rightarrow> Some (JObj [], r)
              | None \<Rightarrow> map_option (apfst JObj) (parse_members n (d - 1) cs))
         else parse_literal (c # cs))"
| "parse_elems 0 d s = None"
| "parse_elems (Suc n) d s = (case parse_value n d s of None \<Rightarrow> None
     | Some (j, r) \<Rightarrow> (case after CHR '','' r of
           Some r' \<Rightarrow> map_option (apfst (Cons j)) (parse_elems n d r')
         | None \<Rightarrow> map_option (Pair [j]) (after CHR '']'' r)))"
| "parse_members 0 d s = None"
| "parse_members (Suc n) d s = (case after CHR 0x22 s of None \<Rightarrow> None
     | Some cs \<Rightarrow> (case scan_str cs of None \<Rightarrow> None
       | Some (k, r) \<Rightarrow> (case after CHR '':'' r of None \<Rightarrow> None
         | Some r \<Rightarrow> (case parse_value n d r of None \<Rightarrow> None
           | Some (j, r) \<Rightarrow> (case after CHR '','' r of
                 Some r' \<Rightarrow> map_option (apfst (Cons (k, j))) (parse_members n d r')
               | None \<Rightarrow> map_option (Pair [(k, j)]) (after CHR ''}'' r))))))"

definition maxNestingDepth :: nat where "maxNestingDepth = 10000"

text \<open>\<open>checkValid\<close>: one value and nothing after it. Every step but the first of an array reads a
  character, so twice the length is fuel enough.\<close>

definition json_parse :: "string \<Rightarrow> json option" where
  "json_parse s = (case parse_value (2 * length s + 1) maxNestingDepth s of
       Some (j, r) \<Rightarrow> if skip_ws r = [] then Some j else None
     | None \<Rightarrow> None)"

section \<open>A printed value reads back\<close>

text \<open>Values that the program prints: clean strings, arrays and objects nested at most \<open>d\<close> deep.\<close>

definition clean :: "string \<Rightarrow> bool" where
  "clean t \<longleftrightarrow> (\<forall>rest. scan_str (t @ CHR 0x22 # rest) = Some (t, rest))"

fun plain :: "nat \<Rightarrow> json \<Rightarrow> bool" where
  "plain d (JStr t) = clean t"
| "plain d JNull = True"
| "plain d (JBool b) = True"
| "plain d (JNum t) = False"
| "plain 0 (JArr js) = False"
| "plain (Suc d) (JArr js) = list_all (plain d) js"
| "plain 0 (JObj ms) = False"
| "plain (Suc d) (JObj ms) = list_all (\<lambda>(k, j). clean k \<and> plain d j) ms"

lemma skip_ws_Cons [simp]: "\<not> is_ws c \<Longrightarrow> skip_ws (c # s) = c # s"
  by (simp add: skip_ws_def)

lemma after_Cons [simp]: "\<not> is_ws x \<Longrightarrow> after c (x # s) = (if x = c then Some s else None)"
  by (simp add: after_def)

lemma not_ws [simp]: "\<not> is_ws CHR 0x22" "\<not> is_ws CHR ''[''" "\<not> is_ws CHR '']''" "\<not> is_ws CHR ''{''"
    "\<not> is_ws CHR ''}''" "\<not> is_ws CHR '':''" "\<not> is_ws CHR '',''" "\<not> is_ws CHR ''n''" "\<not> is_ws CHR ''t''"
    "\<not> is_ws CHR ''f''"
  by (simp_all add: is_ws_def)

lemma print_starts: "plain d j \<Longrightarrow> \<exists>c s. json_print j = c # s \<and> \<not> is_ws c \<and> c \<notin> {CHR '']'', CHR ''}''}"
  by (cases "(d, j)" rule: plain.cases) (auto simp: quoted_def)

definition member_text :: "string \<times> json \<Rightarrow> string" where
  "member_text m = (case m of (k, j) \<Rightarrow> quoted k @ CHR '':'' # json_print j)"

lemma member_text_pair [simp]: "member_text (k, j) = quoted k @ CHR '':'' # json_print j"
  by (simp add: member_text_def)

lemma print_object: "json_print (JObj ms) = CHR ''{'' # commas (map member_text ms) @ ''}''"
  by (simp add: member_text_def [abs_def])

lemma parse_print:
  "\<And>d j rest. plain d j \<Longrightarrow> 2 * length (json_print j) \<le> n \<Longrightarrow>
     parse_value n d (json_print j @ rest) = Some (j, rest)"
  "\<And>d js rest. list_all (plain d) js \<Longrightarrow> js \<noteq> [] \<Longrightarrow> 2 * length (commas (map json_print js)) < n \<Longrightarrow>
     parse_elems n d (commas (map json_print js) @ CHR '']'' # rest) = Some (js, rest)"
  "\<And>d ms rest. list_all (\<lambda>(k, j). clean k \<and> plain d j) ms \<Longrightarrow> ms \<noteq> [] \<Longrightarrow> 2 * length (commas (map member_text ms)) < n \<Longrightarrow>
     parse_members n d (commas (map member_text ms) @ CHR ''}'' # rest) = Some (ms, rest)"
proof (induction n)
  case 0
  {
    case (1 d j rest)
    then show ?case using print_starts [of d j] by auto
  next
    case (2 d js rest)
    then show ?case by simp
  next
    case (3 d ms rest)
    then show ?case by simp
  }
next
  case (Suc n)
  {
    case (1 d j rest)
    show ?case
    proof (cases "(d, j)" rule: plain.cases)
      case (6 d' js)
      show ?thesis
      proof (cases js)
        case Nil
        with 6 show ?thesis by simp
      next
        case (Cons a as)
        with 6 1 obtain c s where c: "json_print a = c # s" "\<not> is_ws c" "c \<noteq> CHR '']''"
          using print_starts [of d' a] by auto
        then have "after CHR '']'' (commas (map json_print js) @ CHR '']'' # rest) = None"
          unfolding Cons by (cases as) simp_all
        with 6 1 Cons Suc.IH(2) [of d' js rest] show ?thesis by simp
      qed
    next
      case (8 d' ms)
      note print_object [simp] json_print.simps(6) [simp del]
      show ?thesis
      proof (cases ms)
        case Nil
        with 8 show ?thesis by simp
      next
        case (Cons a as)
        then have "after CHR ''}'' (commas (map member_text ms) @ CHR ''}'' # rest) = None"
          by (cases as) (auto simp: member_text_def quoted_def split: prod.splits)
        with 8 1 Cons Suc.IH(3) [of d' ms rest] show ?thesis by simp
      qed
    qed (use 1 in \<open>auto simp: quoted_def clean_def parse_literal_def\<close>)
  next
    case (2 d js rest)
    then obtain j as where js: "js = j # as" by (cases js) auto
    show ?case
    proof (cases as)
      case Nil
      with 2 js Suc.IH(1) [of d j "CHR '']'' # rest"] show ?thesis by simp
    next
      case (Cons b bs)
      with 2 js Suc.IH(1) [of d j "CHR '','' # commas (map json_print as) @ CHR '']'' # rest"]
        Suc.IH(2) [of d as rest] show ?thesis by simp
    qed
  next
    case (3 d ms rest)
    then obtain k j as where ms: "ms = (k, j) # as" by (cases ms) auto
    with 3 have k: "scan_str (k @ CHR 0x22 # r) = Some (k, r)" for r by (simp add: clean_def)
    show ?case
    proof (cases as)
      case Nil
      with 3 ms k Suc.IH(1) [of d j "CHR ''}'' # rest"] show ?thesis by (simp add: quoted_def)
    next
      case (Cons b bs)
      with 3 ms k Suc.IH(1) [of d j "CHR '','' # commas (map member_text as) @ CHR ''}'' # rest"]
        Suc.IH(3) [of d as rest] show ?thesis by (simp add: quoted_def)
    qed
  }
qed

lemma json_parse_print: "plain maxNestingDepth j \<Longrightarrow> json_parse (json_print j) = Some j"
  using parse_print(1) [of maxNestingDepth j "2 * length (json_print j) + 1" "[]"]
  by (simp add: json_parse_def skip_ws_def)

section \<open>An escaped string reads back\<close>

text \<open>Well-formed UTF-8, which every string of a protobuf message is.\<close>

function valid_utf8 :: "string \<Rightarrow> bool" where
  "valid_utf8 [] \<longleftrightarrow> True"
| "valid_utf8 (c # cs) \<longleftrightarrow>
     (if of_char c < (128::nat) then valid_utf8 cs
      else case decode_rune (of_char c) (map of_char cs) of (r, k) \<Rightarrow> k \<noteq> 0 \<and> valid_utf8 (drop k cs))"
  by pat_completeness auto
termination by (relation "measure length") (auto simp: less_Suc_eq_le)

lemma hex_val_char [simp]: "n < 16 \<Longrightarrow> hex_val (hex_char n) = Some n"
  by (simp add: hex_val_def hex_char_def Let_def)

lemma hex4_u_escape: "r < 65536 \<Longrightarrow> hex4 (drop 2 (u_escape r) @ t) = Some r"
proof -
  assume r: "r < 65536"
  have "r div 4096 < 16" using r by simp
  moreover have "4096 * (r div 4096) + 256 * (r div 256 mod 16) + 16 * (r div 16 mod 16) + r mod 16 = r"
  proof -
    have "r div 16 = r div 256 * 16 + r div 16 mod 16" "r div 256 = r div 4096 * 16 + r div 256 mod 16"
      using div_mult_mod_eq [of "r div 16" 16] div_mult_mod_eq [of "r div 256" 16]
      by (simp_all add: div_mult2_eq [symmetric])
    moreover have "r = r div 16 * 16 + r mod 16" by simp
    ultimately show ?thesis by linarith
  qed
  ultimately show ?thesis by (simp add: u_escape_def)
qed

lemma u_escape_split: "u_escape r @ t = CHR 0x5C # CHR ''u'' # drop 2 (u_escape r) @ t"
  by (simp add: u_escape_def)

lemma drop_u_escape [simp]: "length (u_escape r) = 6" "drop 6 (u_escape r) = []"
  by (simp_all add: u_escape_def)

lemma unquote_u_escape: "r < 55296 \<Longrightarrow> unquote (u_escape r @ t) = encode_rune r @ unquote t"
  unfolding u_escape_split unquote.simps using hex4_u_escape [of r t]
  by (simp add: pair_rune_def split: option.split)

lemma scan_u_escape: "r < 65536 \<Longrightarrow> scan_str (u_escape r @ t) = map_option (apfst (append (u_escape r))) (scan_str t)"
proof -
  assume "r < 65536"
  from hex4_u_escape [OF this] have "scan_str (u_escape r @ t) =
      map_option (apfst (\<lambda>t. CHR 0x5C # CHR ''u'' # t)) (scan_str (drop 2 (u_escape r) @ t))"
    unfolding u_escape_split by simp
  moreover have h: "hex_char n \<noteq> CHR 0x22 \<and> \<not> of_char (hex_char n) < (32::nat) \<and> hex_char n \<noteq> CHR 0x5C" if "n < 16" for n
  proof -
    have "hex_val (CHR 0x22) = None" "hex_val (CHR 0x5C) = None" by (simp_all add: hex_val_def Let_def)
    moreover have "hex_val c = None" if "of_char c < (32::nat)" for c using that by (simp add: hex_val_def Let_def)
    ultimately show ?thesis using hex_val_char [OF that] by fastforce
  qed
  moreover have "r div 4096 < 16" using \<open>r < 65536\<close> by simp
  ultimately show ?thesis
    by (cases "scan_str t"; cases "the (scan_str t)") (simp_all add: u_escape_def)
qed

lemma escape_byte_cases:
  assumes "of_char c < (128::nat)"
  obtains e where "(c, e) \<in> set short_escapes" "map_of short_escapes c = Some e" "escape_byte c = [CHR 0x5C, e]"
  | "escape_byte c = u_escape (of_char c)"
  | "escape_byte c = [c]" "32 \<le> (of_char c :: nat)" "c \<noteq> CHR 0x22" "c \<noteq> CHR 0x5C"
proof (cases "map_of short_escapes c")
  case None
  then have "c \<noteq> CHR 0x22" "c \<noteq> CHR 0x5C" by (auto simp: short_escapes_def)
  with None that(2,3) show ?thesis
    by (cases "of_char c < (32::nat) \<or> c \<in> {CHR ''<'', CHR ''>'', CHR ''&''}") (auto simp: escape_byte_def)
next
  case (Some e)
  with that(1) [OF map_of_SomeD [OF Some] Some] show ?thesis by (simp add: escape_byte_def)
qed

lemma encode_byte: "of_char c < (128::nat) \<Longrightarrow> encode_rune (of_char c) = [c]"
  by (simp add: encode_rune_def)

lemma unquote_escape_byte:
  assumes c: "of_char c < (128::nat)" shows "unquote (escape_byte c @ t) = c # unquote t"
proof (rule escape_byte_cases [OF c])
  fix e assume "(c, e) \<in> set short_escapes" "escape_byte c = [CHR 0x5C, e]"
  then show ?thesis by (auto simp: short_escapes_def)
next
  assume "escape_byte c = u_escape (of_char c)"
  then show ?thesis using c unquote_u_escape [of "of_char c" t] by (simp add: encode_byte)
qed (use c in simp)

lemma scan_escape_byte:
  assumes c: "of_char c < (128::nat)"
  shows "scan_str (escape_byte c @ t) = map_option (apfst (append (escape_byte c))) (scan_str t)"
proof (rule escape_byte_cases [OF c])
  fix e assume "(c, e) \<in> set short_escapes" and e: "escape_byte c = [CHR 0x5C, e]"
  then have "e \<in> snd ` set short_escapes" by force
  with e show ?thesis by (simp add: append_Cons [abs_def])
next
  assume "escape_byte c = u_escape (of_char c)"
  then show ?thesis using c scan_u_escape [of "of_char c" t] by simp
qed (simp add: append_Cons [abs_def])

text \<open>The encodings of more than one byte.\<close>

lemma decode_rune_many:
  assumes "decode_rune x bs = (r, k)" "k \<noteq> 0"
  obtains b cs where "bs = b # cs" "k = 1" "cont b" "194 \<le> x" "x \<le> 223" "r = (x - 192) * 64 + (b - 128)"
  | b c cs where "bs = b # c # cs" "k = 2" "cont b" "cont c" "224 \<le> x" "x \<le> 239" "x = 224 \<longrightarrow> 160 \<le> b" "x = 237 \<longrightarrow> b \<le> 159"
      "r = (x - 224) * 4096 + (b - 128) * 64 + (c - 128)"
  | b c e cs where "bs = b # c # e # cs" "k = 3" "cont b" "cont c" "cont e" "240 \<le> x" "x \<le> 244" "x = 240 \<longrightarrow> 144 \<le> b" "x = 244 \<longrightarrow> b \<le> 143"
      "r = (x - 240) * 262144 + (b - 128) * 4096 + (c - 128) * 64 + (e - 128)"
  using assms unfolding decode_rune_def rune_error_def
  by (auto simp: cont_def split: if_split_asm list.split_asm)

lemma decode_rune_prefix:
  assumes "decode_rune x bs = (r, k)" "k \<noteq> 0"
  shows "k \<le> length bs \<and> decode_rune x (take k bs @ zs) = (r, k) \<and> (\<forall>b \<in> set (take k bs). 128 \<le> b)"
  using assms
proof (rule decode_rune_many)
qed (simp_all add: cont_def decode_rune_def)

lemma decode_line_separators:
  assumes "decode_rune x bs = (r, k)" "k \<noteq> 0" "r = 8232 \<or> r = 8233"
  shows "map char_of (x # take k bs) = encode_rune r"
  using assms(1,2)
proof (rule decode_rune_many)
  fix b cs assume "r = (x - 192) * 64 + (b - 128)" "x \<le> 223" "cont b"
  with assms(3) show ?thesis by (auto simp: cont_def)
next
  fix b c e cs assume r: "r = (x - 240) * 262144 + (b - 128) * 4096 + (c - 128) * 64 + (e - 128)"
    "240 \<le> x" "x = 240 \<longrightarrow> 144 \<le> b"
  then have "65536 \<le> r" by (cases "x = 240") auto
  with assms(3) show ?thesis by auto
next
  fix b c cs assume bs: "bs = b # c # cs" "k = 2" "cont b" "cont c" "224 \<le> x"
    and r: "r = (x - 224) * 4096 + (b - 128) * 64 + (c - 128)"
  from bs r assms(3) have "x = 226" by (auto simp: cont_def)
  moreover from this bs r assms(3) have "b = 128" by (auto simp: cont_def)
  ultimately show ?thesis using bs r assms(3) by (auto simp: encode_rune_def cont_def)
qed

lemma scan_high: "\<forall>c \<in> set w. 128 \<le> (of_char c :: nat) \<Longrightarrow> scan_str (w @ t) = map_option (apfst (append w)) (scan_str t)"
proof (induction w)
  case Nil
  then show ?case by (cases "scan_str t"; cases "the (scan_str t)") simp_all
next
  case (Cons c w)
  then have "c \<noteq> CHR 0x22" "c \<noteq> CHR 0x5C" "\<not> of_char c < (32::nat)" by auto
  with Cons show ?case by (cases "scan_str t"; cases "the (scan_str t)") simp_all
qed

lemma scan_append: "scan_str (u @ x) = map_option (apfst (append u)) (scan_str x) \<Longrightarrow>
    scan_str x = Some (t, r) \<Longrightarrow> scan_str (u @ x) = Some (u @ t, r)"
  by simp

text \<open>The scanner reads an escaped string up to the closing quote, and unquoting gives it back.\<close>

lemma escape_multi:
  assumes d: "decode_rune (of_char c) (map of_char cs) = (r, k)" and k: "k \<noteq> 0" and c: "\<not> of_char c < (128::nat)"
  shows "\<forall>x \<in> set (c # take k cs). 128 \<le> (of_char x :: nat)"
    "unquote (c # take k cs @ t) = c # take k cs @ unquote t"
    "r = 8232 \<or> r = 8233 \<Longrightarrow> encode_rune r = c # take k cs"
proof -
  note p = decode_rune_prefix [OF d k, of "map of_char t"]
  show high: "\<forall>x \<in> set (c # take k cs). 128 \<le> (of_char x :: nat)" using p c by (auto simp: take_map)
  have "decode_rune (of_char c) (map of_char (take k cs @ t)) = (r, k)" "k \<le> length cs"
    using p by (simp_all add: take_map)
  moreover have "c \<noteq> CHR 0x5C" using c by auto
  ultimately show "unquote (c # take k cs @ t) = c # take k cs @ unquote t" using c k by simp
  assume "r = 8232 \<or> r = 8233"
  from decode_line_separators [OF d k this] have "encode_rune r = map char_of (of_char c # take k (map of_char cs) :: nat list)" by simp
  then show "encode_rune r = c # take k cs" by (simp add: take_map comp_def)
qed

lemma escape_roundtrip:
  "valid_utf8 s \<Longrightarrow> unquote (json_escape s) = s \<and> clean (json_escape s)"
proof (induction s rule: json_escape.induct)
  case 1
  then show ?case by (simp add: clean_def)
next
  case (2 c cs)
  show ?case
  proof (cases "of_char c < (128::nat)")
    case True
    with 2 show ?thesis
      by (auto simp: clean_def unquote_escape_byte intro: scan_append [OF scan_escape_byte])
  next
    case c: False
    obtain r k where d: "decode_rune (of_char c) (map of_char cs) = (r, k)" by force
    with 2 c have k: "k \<noteq> 0" and ih: "unquote (json_escape (drop k cs)) = drop k cs" "clean (json_escape (drop k cs))" by auto
    note m = escape_multi [OF d k c]
    let ?u = "if r = 8232 \<or> r = 8233 then u_escape r else c # take k cs"
    have e: "json_escape (c # cs) = ?u @ json_escape (drop k cs)" using c d k by simp
    have "unquote (?u @ t) = c # take k cs @ unquote t" for t
      using m(2) [of t] m(3) unquote_u_escape [of r t] by auto
    moreover have "scan_str (?u @ t) = map_option (apfst (append ?u)) (scan_str t)" for t
      using scan_high [OF m(1), of t] scan_u_escape [of r t] by auto
    ultimately show ?thesis
      using ih unfolding e clean_def by (simp only: append_assoc scan_append) simp
  qed
qed

lemmas unquote_escape = escape_roundtrip [THEN conjunct1]
  and clean_escape = escape_roundtrip [THEN conjunct2]

section \<open>Decoding into fields\<close>

text \<open>A field takes a member whose key it matches exactly or up to case; the two letters outside
  ASCII that fold with \<open>k\<close> and \<open>s\<close> count. Field names are lower case.\<close>

fun fold_key :: "string \<Rightarrow> string" where
  "fold_key [] = []"
| "fold_key (c # cs) =
     (if has_prefix (c # cs) [CHR 0xE2, CHR 0x84, CHR 0xAA] then CHR ''k'' # fold_key (drop 2 cs)
      else if has_prefix (c # cs) [CHR 0xC5, CHR 0xBF] then CHR ''s'' # fold_key (drop 1 cs)
      else ascii_lower c # fold_key cs)"

text \<open>The members of a field are decoded one after the other into the same variable; \<open>None\<close> is a
  type error, which makes the whole decoding fail.\<close>

definition field_members :: "string \<Rightarrow> (string \<times> json) list \<Rightarrow> json list" where
  "field_members name ms = map snd (filter (\<lambda>(k, _). fold_key (unquote k) = name) ms)"

fun decode_into :: "('a \<Rightarrow> json \<Rightarrow> 'a option) \<Rightarrow> 'a \<Rightarrow> json list \<Rightarrow> 'a option" where
  "decode_into dec v [] = Some v"
| "decode_into dec v (j # js) = (case dec v j of None \<Rightarrow> None | Some w \<Rightarrow> decode_into dec w js)"

definition decode_string :: "string \<Rightarrow> json \<Rightarrow> string option" where
  "decode_string v j = (case j of JNull \<Rightarrow> Some v | JStr t \<Rightarrow> Some (unquote t) | _ \<Rightarrow> None)"

text \<open>\<open>map[string]string\<close>: an element that is \<open>null\<close> becomes the empty string.\<close>

fun decode_members :: "labels_map \<Rightarrow> (string \<times> json) list \<Rightarrow> labels_map option" where
  "decode_members l [] = Some l"
| "decode_members l ((k, j) # ms) = (case decode_string [] j of None \<Rightarrow> None
     | Some v \<Rightarrow> decode_members (AList.update (unquote k) v l) ms)"

definition decode_labels :: "labels_map \<Rightarrow> json \<Rightarrow> labels_map option" where
  "decode_labels l j = (case j of JNull \<Rightarrow> Some [] | JObj ms \<Rightarrow> decode_members l ms | _ \<Rightarrow> None)"

text \<open>\<open>int64\<close>: \<open>strconv.ParseInt\<close> reads the number as it is spelled, so a fraction or an exponent is
  an error.\<close>

definition decode_int64 :: "int \<Rightarrow> json \<Rightarrow> int option" where
  "decode_int64 v j = (case j of JNull \<Rightarrow> Some v | JNum t \<Rightarrow> atoi t | _ \<Rightarrow> None)"

text \<open>The elements of a slice are decoded into the ones it already has; those beyond its length start
  as zero values (an array that occurs a third time may find elements of the first one in memory,
  which is left out).\<close>

fun decode_elems :: "('a \<Rightarrow> json \<Rightarrow> 'a option) \<Rightarrow> 'a \<Rightarrow> 'a list \<Rightarrow> json list \<Rightarrow> 'a list option" where
  "decode_elems dec zero vs [] = Some []"
| "decode_elems dec zero vs (j # js) =
     (case dec (case vs of [] \<Rightarrow> zero | v # _ \<Rightarrow> v) j of None \<Rightarrow> None
      | Some t \<Rightarrow> map_option (Cons t) (decode_elems dec zero (drop 1 vs) js))"

definition decode_slice :: "('a \<Rightarrow> json \<Rightarrow> 'a option) \<Rightarrow> 'a \<Rightarrow> 'a list \<Rightarrow> json \<Rightarrow> 'a list option" where
  "decode_slice dec zero vs j = (case j of JNull \<Rightarrow> Some [] | JArr js \<Rightarrow> decode_elems dec zero vs js | _ \<Rightarrow> None)"

text \<open>A structure, by the decoder of its fields; the members of one field, by its name.\<close>

definition decode_object :: "('a \<Rightarrow> (string \<times> json) list \<Rightarrow> 'a option) \<Rightarrow> 'a \<Rightarrow> json \<Rightarrow> 'a option" where
  "decode_object fields v j = (case j of JNull \<Rightarrow> Some v | JObj ms \<Rightarrow> fields v ms | _ \<Rightarrow> None)"

definition decode_field :: "string \<Rightarrow> ('a \<Rightarrow> json \<Rightarrow> 'a option) \<Rightarrow> 'a \<Rightarrow> (string \<times> json) list \<Rightarrow> 'a option" where
  "decode_field name dec v ms = decode_into dec v (field_members (fold_key name) ms)"

text \<open>\<open>json.Unmarshal\<close> wants one value and nothing else; \<open>Decoder.Decode\<close> reads the first value and
  stops.\<close>

definition json_Unmarshal :: "('a \<Rightarrow> json \<Rightarrow> 'a option) \<Rightarrow> 'a \<Rightarrow> string \<Rightarrow> 'a option" where
  "json_Unmarshal dec zero s = Option.bind (json_parse s) (dec zero)"

definition json_Decode :: "('a \<Rightarrow> json \<Rightarrow> 'a option) \<Rightarrow> 'a \<Rightarrow> string \<Rightarrow> 'a option" where
  "json_Decode dec zero s = Option.bind (parse_value (2 * length s + 1) maxNestingDepth s) (\<lambda>(j, _). dec zero j)"

text \<open>The names of the fields.\<close>

lemma plain_names [simp]:
  "unquote ''kind'' = ''kind''" "unquote ''resource_id'' = ''resource_id''" "unquote ''tuples'' = ''tuples''"
  "unquote ''labels'' = ''labels''" "unquote ''parent_project_id'' = ''parent_project_id''"
  "unquote ''subject_id'' = ''subject_id''" "unquote ''relation'' = ''relation''" "unquote ''object'' = ''object''"
  "unquote ''source_version'' = ''source_version''" "unquote ''id'' = ''id''" "unquote ''created_at'' = ''created_at''"
  by simp_all

lemma fold_names [simp]:
  "fold_key ''kind'' = ''kind''" "fold_key ''resource_id'' = ''resource_id''" "fold_key ''tuples'' = ''tuples''"
  "fold_key ''labels'' = ''labels''" "fold_key ''parent_project_id'' = ''parent_project_id''"
  "fold_key ''subject_id'' = ''subject_id''" "fold_key ''relation'' = ''relation''" "fold_key ''object'' = ''object''"
  "fold_key ''source_version'' = ''source_version''" "fold_key ''id'' = ''id''" "fold_key ''created_at'' = ''created_at''"
  by (simp_all add: ascii_lower_def)

declare fold_key.simps [simp del]

lemma clean_names [simp]:
  "clean ''kind''" "clean ''resource_id''" "clean ''tuples''" "clean ''labels''" "clean ''parent_project_id''"
  "clean ''subject_id''" "clean ''relation''" "clean ''object''" "clean ''id''" "clean ''created_at''"
  by (simp_all add: clean_def)

end
