(* ===== verification/Jwks.thy ===== *)
theory Jwks
  imports DomainTypes Wrap Json
begin

text \<open>
  The verifier of identity tokens (\<open>internal/clients/jwks/verifier.go\<close>): a compact JWS signed with
  RS256 or ES256, the keys of the issuer's JWKS document behind a cache with a bounded life time and
  a throttled refresh. The cryptographic primitives of the standard library are parameters (record
  \<open>codec\<close>); base64, JSON, big-endian integers, key checks, the cache and the claims are modelled. Times are nanoseconds since the zero time.

  The clock and the exchange with the JWKS endpoint act on the whole state: the lock is not held
  while the document is fetched, so what other requests do to the cache meanwhile is part of the
  exchange.
\<close>

section \<open>Keys\<close>

text \<open>An RSA key by modulus and exponent, or a point of P-256.\<close>

datatype public_key = RSAKey nat int | ECKey nat nat

record jsonWebKey =
  k_Kty :: string
  k_Kid :: string
  k_Crv :: string
  k_N :: string
  k_E :: string
  k_X :: string
  k_Y :: string

text \<open>\<open>big.Int.SetBytes\<close> and \<open>big.Int.BitLen\<close>.\<close>

definition be_nat :: "string \<Rightarrow> nat" where
  "be_nat bs = foldl (\<lambda>n c. n * 256 + of_char c) 0 bs"

fun bit_len :: "nat \<Rightarrow> nat" where
  "bit_len n = (if n = 0 then 0 else Suc (bit_len (n div 2)))"

declare bit_len.simps [simp del]

definition minRSAModulusBits :: nat where "minRSAModulusBits = 2048"

definition toRSA :: "jsonWebKey \<Rightarrow> public_key option" where
  "toRSA k = (case (b64_decode True (k_N k), b64_decode True (k_E k)) of
       (Some nb, Some eb) \<Rightarrow>
         (if length nb = 0 \<or> length eb = 0 then None
          else let e = be_nat eb; n = be_nat nb in
            if \<not> e < 2 ^ 63 \<or> e < 2 then None
            else if bit_len n < minRSAModulusBits then None
            else Some (RSAKey n (int e)))
     | _ \<Rightarrow> None)"

text \<open>The curve P-256: \<open>ecdh.P256().NewPublicKey\<close> accepts the coordinates of its affine points.\<close>

definition p256_p :: int where
  "p256_p = 2 ^ 256 - 2 ^ 224 + 2 ^ 192 + 2 ^ 96 - 1"

definition p256_b :: int where
  "p256_b = 0x5ac635d8aa3a93e7b3ebbd55769886bc651d06b0cc53b0f63bce3c3e27d2604b"

definition p256_point :: "nat \<Rightarrow> nat \<Rightarrow> bool" where
  "p256_point x y \<longleftrightarrow> int x < p256_p \<and> int y < p256_p \<and>
     (int y * int y - (int x * int x * int x - 3 * int x + p256_b)) mod p256_p = 0"

definition toECDSA :: "jsonWebKey \<Rightarrow> public_key option" where
  "toECDSA k = (if k_Crv k \<noteq> ''P-256'' then None
     else case (b64_decode True (k_X k), b64_decode True (k_Y k)) of
       (Some xb, Some yb) \<Rightarrow>
         (if length xb = 0 \<or> length xb > 32 \<or> length yb = 0 \<or> length yb > 32 then None
          else if \<not> p256_point (be_nat xb) (be_nat yb) then None
          else Some (ECKey (be_nat xb) (be_nat yb)))
     | _ \<Rightarrow> None)"

definition toKey :: "jsonWebKey \<Rightarrow> public_key option" where
  "toKey k = (if k_Kty k = ''RSA'' then toRSA k else if k_Kty k = ''EC'' then toECDSA k else None)"

section \<open>Header and claims\<close>

record jwtHeader =
  jh_Alg :: string
  jh_Kid :: string

record jwtClaims =
  jc_Sub :: string
  jc_Exp :: int
  jc_Iss :: string
  jc_Aud :: "string list"
  jc_KachoPrincipalID :: string

text \<open>One string or an array of strings. The decoder of JSON runs this method also on null, which is
  the empty string.\<close>

definition audience_UnmarshalJSON :: "json \<Rightarrow> string list option" where
  "audience_UnmarshalJSON j = (case decode_string [] j of
       Some single \<Rightarrow> Some [single]
     | None \<Rightarrow> decode_slice decode_string [] [] j)"

definition audience_contains :: "string list \<Rightarrow> string \<Rightarrow> bool" where
  "audience_contains a want = list_ex (\<lambda>v. v = want) a"

text \<open>The structures by their fields.\<close>

definition decode_header :: "jwtHeader \<Rightarrow> (string \<times> json) list \<Rightarrow> jwtHeader option" where
  "decode_header v ms = do {
     alg \<leftarrow> decode_field ''alg'' decode_string (jh_Alg v) ms;
     kid \<leftarrow> decode_field ''kid'' decode_string (jh_Kid v) ms;
     Some \<lparr>jh_Alg = alg, jh_Kid = kid\<rparr> }"

definition decode_ext :: "string \<Rightarrow> (string \<times> json) list \<Rightarrow> string option" where
  "decode_ext = decode_field ''ext_claims'' (decode_object (decode_field ''kacho_principal_id'' decode_string))"

definition decode_claims :: "jwtClaims \<Rightarrow> (string \<times> json) list \<Rightarrow> jwtClaims option" where
  "decode_claims v ms = do {
     sub \<leftarrow> decode_field ''sub'' decode_string (jc_Sub v) ms;
     exp \<leftarrow> decode_field ''exp'' decode_int64 (jc_Exp v) ms;
     iss \<leftarrow> decode_field ''iss'' decode_string (jc_Iss v) ms;
     aud \<leftarrow> decode_field ''aud'' (\<lambda>_. audience_UnmarshalJSON) (jc_Aud v) ms;
     principal \<leftarrow> decode_field ''ext'' (decode_object decode_ext) (jc_KachoPrincipalID v) ms;
     Some \<lparr>jc_Sub = sub, jc_Exp = exp, jc_Iss = iss, jc_Aud = aud, jc_KachoPrincipalID = principal\<rparr> }"

definition decode_jwk :: "jsonWebKey \<Rightarrow> (string \<times> json) list \<Rightarrow> jsonWebKey option" where
  "decode_jwk v ms = do {
     kty \<leftarrow> decode_field ''kty'' decode_string (k_Kty v) ms;
     kid \<leftarrow> decode_field ''kid'' decode_string (k_Kid v) ms;
     crv \<leftarrow> decode_field ''crv'' decode_string (k_Crv v) ms;
     n \<leftarrow> decode_field ''n'' decode_string (k_N v) ms;
     e \<leftarrow> decode_field ''e'' decode_string (k_E v) ms;
     x \<leftarrow> decode_field ''x'' decode_string (k_X v) ms;
     y \<leftarrow> decode_field ''y'' decode_string (k_Y v) ms;
     Some \<lparr>k_Kty = kty, k_Kid = kid, k_Crv = crv, k_N = n, k_E = e, k_X = x, k_Y = y\<rparr> }"

definition zero_jwk :: jsonWebKey where
  "zero_jwk = \<lparr>k_Kty = [], k_Kid = [], k_Crv = [], k_N = [], k_E = [], k_X = [], k_Y = []\<rparr>"

definition unmarshal_header :: "string \<Rightarrow> jwtHeader option" where
  "unmarshal_header = json_Unmarshal (decode_object decode_header) \<lparr>jh_Alg = [], jh_Kid = []\<rparr>"

definition unmarshal_claims :: "string \<Rightarrow> jwtClaims option" where
  "unmarshal_claims = json_Unmarshal (decode_object decode_claims)
     \<lparr>jc_Sub = [], jc_Exp = 0, jc_Iss = [], jc_Aud = [], jc_KachoPrincipalID = []\<rparr>"

definition decode_jwks :: "string \<Rightarrow> jsonWebKey list option" where
  "decode_jwks = json_Decode (decode_object (decode_field ''keys'' (decode_slice (decode_object decode_jwk) zero_jwk))) []"

text \<open>The primitives of the cryptographic library.\<close>

record codec =
  cd_sha256 :: "string \<Rightarrow> string"
  cd_VerifyPKCS1v15 :: "nat \<Rightarrow> int \<Rightarrow> string \<Rightarrow> string \<Rightarrow> bool"
  cd_ecdsa_Verify :: "nat \<Rightarrow> nat \<Rightarrow> string \<Rightarrow> nat \<Rightarrow> nat \<Rightarrow> bool"

definition decodeSegment :: "(string \<Rightarrow> 'a option) \<Rightarrow> string \<Rightarrow> 'a option" where
  "decodeSegment unmarshal seg = (case b64_decode True seg of None \<Rightarrow> None | Some b \<Rightarrow> unmarshal b)"

section \<open>Cache-Control\<close>

text \<open>\<open>fmt.Sscanf(v, "%d", &secs)\<close>: white space, a sign, digits; what follows is not read. Header
  values hold no line breaks.\<close>

definition scan_int :: "string \<Rightarrow> int option" where
  "scan_int v =
     (let s = drop_any (length v) space_runes v;
          sign = (case s of c # _ \<Rightarrow> if c = CHR ''+'' \<or> c = CHR ''-'' then [c] else [] | [] \<Rightarrow> []);
          digits = takeWhile (\<lambda>c. digit_val c \<noteq> None) (drop (length sign) s) in
      if digits = [] then None else atoi (sign @ digits))"

definition second :: int where "second = 1000000000"

fun max_age_of :: "string list \<Rightarrow> int" where
  "max_age_of [] = 0"
| "max_age_of (part # parts) =
     (case cut_prefix (trim_space part) ''max-age='' of
        None \<Rightarrow> max_age_of parts
      | Some v \<Rightarrow> (case scan_int v of
            Some secs \<Rightarrow> if secs > 0 then wrap64 (secs * second) else max_age_of parts
          | None \<Rightarrow> max_age_of parts))"

definition parseMaxAge :: "string \<Rightarrow> int" where
  "parseMaxAge cacheControl = max_age_of (split_on CHR '','' cacheControl)"

section \<open>The verifier\<close>

definition defaultTTL :: int where "defaultTTL = 5 * 60 * second"
definition maxTTL :: int where "maxTTL = 60 * 60 * second"
definition defaultMinRefresh :: int where "defaultMinRefresh = 10 * second"
definition maxJWKSBytes :: nat where "maxJWKSBytes = 1048576"

definition algRS256 :: string where "algRS256 = ''RS256''"
definition algES256 :: string where "algES256 = ''ES256''"

record 'w vstate =
  vs_keys :: "string \<rightharpoonup> public_key"
  vs_fetched :: time
  vs_lastRefresh :: time
  vs_ttl :: int
  vs_world :: 'w

record http_reply =
  hr_StatusCode :: int
  hr_CacheControl :: string
  hr_Body :: string

text \<open>What stays fixed: the configuration, the library, the clock and the exchange with the endpoint.\<close>

record 'w verifier =
  v_jwksURL :: string
  v_aud :: string
  v_iss :: string
  v_minRefresh :: int
  v_codec :: codec
  v_now :: "('w vstate, time) state"
  v_Do :: "string \<Rightarrow> ('w vstate, gerror + http_reply) state"

definition New_verifier :: "string \<Rightarrow> string \<Rightarrow> string \<Rightarrow> codec \<Rightarrow> ('w vstate, time) state \<Rightarrow>
    (string \<Rightarrow> ('w vstate, gerror + http_reply) state) \<Rightarrow> 'w verifier" where
  "New_verifier jwksURL aud iss c now fetch = \<lparr>v_jwksURL = jwksURL, v_aud = aud, v_iss = iss,
     v_minRefresh = defaultMinRefresh, v_codec = c, v_now = now, v_Do = fetch\<rparr>"

definition new_vstate :: "'w \<Rightarrow> 'w vstate" where
  "new_vstate w = \<lparr>vs_keys = Map.empty, vs_fetched = 0, vs_lastRefresh = 0, vs_ttl = defaultTTL, vs_world = w\<rparr>"

datatype key_error = FetchFailed gerror | FetchStatus int | JwksDecode | UnknownKid string

datatype signature_error = KeyTypeMismatch string | SignatureMismatch | BadSignatureLength | UnexpectedAlgorithm string

text \<open>The texts after \<open>ErrInvalidToken\<close>.\<close>

datatype token_error = NotCompactJWS | BadHeader | UnexpectedAlg string | NoKey key_error
  | BadSignatureEncoding | BadSignature signature_error | BadClaims | Expired | AudienceMismatch
  | IssuerMismatch | EmptySubject

fun load_keys :: "jsonWebKey list \<Rightarrow> (string \<rightharpoonup> public_key) \<Rightarrow> (string \<rightharpoonup> public_key)" where
  "load_keys [] m = m"
| "load_keys (k # ks) m =
     (if k_Kid k = [] then load_keys ks m
      else case toKey k of None \<Rightarrow> load_keys ks m | Some pub \<Rightarrow> load_keys ks (m(k_Kid k \<mapsto> pub)))"

definition clamped_ttl :: "string \<Rightarrow> int" where
  "clamped_ttl cacheControl = (let ttl = parseMaxAge cacheControl in if ttl > maxTTL then maxTTL else ttl)"

definition refresh :: "'w verifier \<Rightarrow> ('w vstate, key_error + unit) state" where
  "refresh V = do {
     r \<leftarrow> v_Do V (v_jwksURL V);
     (case r of
        Inl e \<Rightarrow> State_Monad.return (Inl (FetchFailed e))
      | Inr resp \<Rightarrow>
          if hr_StatusCode resp \<noteq> 200 then State_Monad.return (Inl (FetchStatus (hr_StatusCode resp)))
          else (case decode_jwks (take maxJWKSBytes (hr_Body resp)) of
             None \<Rightarrow> State_Monad.return (Inl JwksDecode)
           | Some ks \<Rightarrow>
               (let ttl = clamped_ttl (hr_CacheControl resp) in
                do { now \<leftarrow> v_now V;
                     State_Monad.update (\<lambda>s. s\<lparr>vs_keys := load_keys ks Map.empty, vs_fetched := now,
                       vs_ttl := (if ttl > 0 then ttl else vs_ttl s)\<rparr>);
                     State_Monad.return (Inr ()) }))) }"

definition keyFor :: "'w verifier \<Rightarrow> string \<Rightarrow> ('w vstate, key_error + public_key) state" where
  "keyFor V kid = do {
     now \<leftarrow> v_now V;
     s \<leftarrow> State_Monad.get;
     (let cached = vs_keys s kid; fresh = now - vs_fetched s < vs_ttl s;
          held = (case cached of Some k \<Rightarrow> Inr k | None \<Rightarrow> Inl (UnknownKid kid)) in
      if cached \<noteq> None \<and> fresh then State_Monad.return held
      else if now - vs_lastRefresh s < v_minRefresh V then State_Monad.return held
      else do {
        State_Monad.update (\<lambda>s. s\<lparr>vs_lastRefresh := now\<rparr>);
        andThen (refresh V) (\<lambda>_. do {
          s \<leftarrow> State_Monad.get;
          State_Monad.return (case vs_keys s kid of Some k \<Rightarrow> Inr k | None \<Rightarrow> Inl (UnknownKid kid)) }) }) }"

definition verifySignature :: "codec \<Rightarrow> string \<Rightarrow> public_key \<Rightarrow> string \<Rightarrow> string \<Rightarrow> signature_error + unit" where
  "verifySignature c alg key hash sig =
     (if alg = algRS256 then
        (case key of
           RSAKey n e \<Rightarrow> if cd_VerifyPKCS1v15 c n e hash sig then Inr () else Inl SignatureMismatch
         | ECKey x y \<Rightarrow> Inl (KeyTypeMismatch alg))
      else if alg = algES256 then
        (case key of
           RSAKey n e \<Rightarrow> Inl (KeyTypeMismatch alg)
         | ECKey x y \<Rightarrow> if length sig \<noteq> 64 then Inl BadSignatureLength
             else if cd_ecdsa_Verify c x y hash (be_nat (take 32 sig)) (be_nat (drop 32 sig)) then Inr ()
             else Inl SignatureMismatch)
      else Inl (UnexpectedAlgorithm alg))"

text \<open>\<open>time.Unix(sec, 0)\<close>: the seconds are shifted to the zero time in \<open>int64\<close>.\<close>

definition time_Unix :: "int \<Rightarrow> time" where
  "time_Unix sec = wrap64 (sec + 62135596800) * second"

definition check_claims :: "'w verifier \<Rightarrow> jwtClaims \<Rightarrow> time \<Rightarrow> token_error + string" where
  "check_claims V claims now =
     (if jc_Exp claims = 0 \<or> now > time_Unix (jc_Exp claims) then Inl Expired
      else if \<not> audience_contains (jc_Aud claims) (v_aud V) then Inl AudienceMismatch
      else if v_iss V \<noteq> [] \<and> jc_Iss claims \<noteq> v_iss V then Inl IssuerMismatch
      else if jc_Sub claims = [] then Inl EmptySubject
      else Inr (if jc_KachoPrincipalID claims \<noteq> [] then jc_KachoPrincipalID claims else jc_Sub claims))"

definition Verify :: "'w verifier \<Rightarrow> string \<Rightarrow> ('w vstate, token_error + string) state" where
  "Verify V raw = (case split_on CHR ''.'' raw of
       [header, payload, signature] \<Rightarrow>
         (case decodeSegment unmarshal_header header of
            None \<Rightarrow> State_Monad.return (Inl BadHeader)
          | Some hdr \<Rightarrow>
             (if jh_Alg hdr \<noteq> algRS256 \<and> jh_Alg hdr \<noteq> algES256
              then State_Monad.return (Inl (UnexpectedAlg (jh_Alg hdr)))
              else do {
                k \<leftarrow> keyFor V (jh_Kid hdr);
                (case k of
                   Inl e \<Rightarrow> State_Monad.return (Inl (NoKey e))
                 | Inr key \<Rightarrow>
                   (case b64_decode True signature of
                      None \<Rightarrow> State_Monad.return (Inl BadSignatureEncoding)
                    | Some sig \<Rightarrow>
                      (case verifySignature (v_codec V) (jh_Alg hdr) key
                           (cd_sha256 (v_codec V) (header @ ''.'' @ payload)) sig of
                         Inl e \<Rightarrow> State_Monad.return (Inl (BadSignature e))
                       | Inr _ \<Rightarrow>
                         (case decodeSegment unmarshal_claims payload of
                            None \<Rightarrow> State_Monad.return (Inl BadClaims)
                          | Some claims \<Rightarrow> (if jc_Exp claims = 0 then State_Monad.return (Inl Expired)
                              else do { now \<leftarrow> v_now V; State_Monad.return (check_claims V claims now) }))))) }))
     | _ \<Rightarrow> State_Monad.return (Inl NotCompactJWS))"

end
