(* ===== verification/JsonCut.thy ===== *)
theory JsonCut
  imports Json
begin

text \<open>
  Bodies that are cut off. The adapters read at most so many bytes of an answer; the parser reads a
  text from left to right, so that a value it finds in the cut text stands in the whole text, too.
  Only a number could go on behind the cut.
\<close>

lemma skip_ws_app: "skip_ws s \<noteq> [] \<Longrightarrow> skip_ws (s @ x) = skip_ws s @ x"
  by (induction s) (auto simp: skip_ws_def)

lemma after_app: "after c s = Some r \<Longrightarrow> after c (s @ x) = Some (r @ x)"
  by (auto simp: after_def skip_ws_app split: list.splits if_splits)

lemma after_app_None: "after c s = None \<Longrightarrow> skip_ws s \<noteq> [] \<Longrightarrow> after c (s @ x) = None"
  by (auto simp: after_def skip_ws_app split: list.splits if_splits)

lemma after_ne: "after c s = Some r \<Longrightarrow> s \<noteq> []"
  by (auto simp: after_def skip_ws_def)

lemma hex4_app: "hex4 s = Some v \<Longrightarrow> hex4 (s @ x) = Some v"
  by (cases s rule: hex4.cases) auto

lemma scan_str_app: "scan_str s = Some (t, r) \<Longrightarrow> scan_str (s @ x) = Some (t, r @ x)"
proof (induction s arbitrary: t r rule: scan_str.induct)
  case (2 c cs)
  show ?case
  proof (cases "c = CHR 0x22 \<or> of_char c < (32::nat) \<or> c \<noteq> CHR 0x5C")
    case True
    with 2 show ?thesis by (auto simp: apfst_def map_prod_def split: if_splits)
  next
    case False
    with 2(3) obtain e es where cs: "cs = e # es" by (cases cs) auto
    with 2(3) False obtain t' where t: "scan_str es = Some (t', r)" "t = c # e # t'"
      and ok: "e \<in> snd ` set short_escapes \<or> e = CHR ''/'' \<or> e = CHR ''u'' \<and> hex4 es \<noteq> None"
      by (auto simp: apfst_def map_prod_def split: if_splits)
    from ok have ok': "e \<in> snd ` set short_escapes \<or> e = CHR ''/'' \<or> e = CHR ''u'' \<and> hex4 (es @ x) \<noteq> None"
      using hex4_app [of es _ x] by blast
    from 2(2) False cs ok t have "scan_str (es @ x) = Some (t', r @ x)" by auto
    with False cs ok' t show ?thesis by simp
  qed
qed simp

lemma prefix_app: "has_prefix s p \<Longrightarrow> has_prefix (s @ x) p"
  by (auto simp: has_prefix_iff)

lemma takeWhile_app: "dropWhile P s \<noteq> [] \<Longrightarrow> takeWhile P (s @ x) = takeWhile P s \<and> dropWhile P (s @ x) = dropWhile P s @ x"
  by (induction s) auto

lemma digits1_eq: "digits1 s = (if takeWhile is_digit s = [] then None else Some (takeWhile is_digit s, dropWhile is_digit s))"
  by (simp add: digits1_def Let_def dropWhile_eq_drop)

lemma digits1_app: "digits1 s = Some (d, r) \<Longrightarrow> r \<noteq> [] \<Longrightarrow> digits1 (s @ x) = Some (d, r @ x)"
  using takeWhile_app [of is_digit s x] by (auto simp: digits1_eq split: if_splits)

lemma number_app:
  "number_int s = Some (d, r) \<Longrightarrow> r \<noteq> [] \<Longrightarrow> number_int (s @ x) = Some (d, r @ x)"
  "number_frac s = Some (d, r) \<Longrightarrow> r \<noteq> [] \<Longrightarrow> number_frac (s @ x) = Some (d, r @ x)"
  "number_exp s = Some (d, r) \<Longrightarrow> r \<noteq> [] \<Longrightarrow> number_exp (s @ x) = Some (d, r @ x)"
proof -
  show "number_int s = Some (d, r) \<Longrightarrow> r \<noteq> [] \<Longrightarrow> number_int (s @ x) = Some (d, r @ x)"
    by (cases s) (auto simp: number_int_def digits1_eq [of "[]"] dest: digits1_app [where x = x] split: if_splits)
  show "number_frac s = Some (d, r) \<Longrightarrow> r \<noteq> [] \<Longrightarrow> number_frac (s @ x) = Some (d, r @ x)"
    by (cases s) (auto simp: number_frac_def dest: digits1_app [where x = x] split: if_splits)
  assume e: "number_exp s = Some (d, r)" "r \<noteq> []"
  show "number_exp (s @ x) = Some (d, r @ x)"
  proof (cases s)
    case Nil
    with e show ?thesis by (simp add: number_exp_def)
  next
    case (Cons c cs)
    from e Cons have "cs = [] \<Longrightarrow> c \<noteq> CHR ''e'' \<and> c \<noteq> CHR ''E''"
      by (auto simp: number_exp_def digits1_eq split: if_splits)
    with e Cons show ?thesis
      by (cases cs) (auto simp: number_exp_def Let_def dest: digits1_app [where x = x] split: if_splits)
  qed
qed

lemma number_rest:
  "number_frac s = Some (d, r) \<Longrightarrow> r \<noteq> [] \<Longrightarrow> s \<noteq> []" "number_exp s = Some (d, r) \<Longrightarrow> r \<noteq> [] \<Longrightarrow> s \<noteq> []"
  by (auto simp: number_frac_def number_exp_def split: if_splits)

lemma parse_number_app: "parse_number s = Some (t, r) \<Longrightarrow> r \<noteq> [] \<Longrightarrow> parse_number (s @ x) = Some (t, r @ x)"
proof -
  assume p: "parse_number s = Some (t, r)" "r \<noteq> []"
  obtain g u where g: "number_sign s = (g, u)" by force
  with p obtain i v f w e where n: "number_int u = Some (i, v)" "number_frac v = Some (f, w)" "number_exp w = Some (e, r)"
    and t: "t = g @ i @ f @ e"
    by (auto simp: parse_number_def split: option.splits)
  from n(3) p(2) have w: "w \<noteq> []" by (rule number_rest(2))
  with n(2) have v: "v \<noteq> []" by (rule number_rest(1))
  have "u \<noteq> []" using n(1) by (auto simp: number_int_def digits1_eq)
  then have "number_sign (s @ x) = (g, u @ x)" using g by (cases s) (auto simp: number_sign_def split: if_splits)
  with number_app(1) [OF n(1) v] number_app(2) [OF n(2) w] number_app(3) [OF n(3) p(2)] t
  show ?thesis by (simp add: parse_number_def)
qed

lemma parse_number_starts: "parse_number (c # s) = Some z \<Longrightarrow> c \<notin> {CHR ''n'', CHR ''t'', CHR ''f''}"
  by (auto simp: parse_number_def number_sign_def number_int_def digits1_eq is_digit_def digit_val_def Let_def split: if_splits option.splits)

lemma parse_literal_app:
  assumes "parse_literal (c # s) = Some (j, r)" and "r \<noteq> [] \<or> (\<forall>t. j \<noteq> JNum t)"
  shows "parse_literal (c # s @ x) = Some (j, r @ x)"
proof (cases "has_prefix (c # s) ''null'' \<or> has_prefix (c # s) ''true'' \<or> has_prefix (c # s) ''false''")
  case True
  then obtain p u where p: "p \<in> {''null'', ''true'', ''false''}" "c # s = p @ u" unfolding has_prefix_iff by blast
  then have "c # s @ x = p @ u @ x" by (metis append_Cons append_assoc)
  with p assms(1) show ?thesis by (auto simp: parse_literal_def)
next
  case False
  with assms(1) obtain t where n: "parse_number (c # s) = Some (t, r)" "j = JNum t" by (auto simp: parse_literal_def)
  with assms(2) parse_number_app [OF n(1), of x] parse_number_starts [OF n(1)] show ?thesis by (simp add: parse_literal_def)
qed

text \<open>What has been read does not change when the text goes on, or with more fuel; a number must be
  followed by something.\<close>

lemma parse_app:
  "\<And>d s j r m. parse_value n d s = Some (j, r) \<Longrightarrow> n \<le> m \<Longrightarrow> r \<noteq> [] \<or> (\<forall>t. j \<noteq> JNum t) \<Longrightarrow>
     parse_value m d (s @ x) = Some (j, r @ x)"
  "\<And>d s js r m. parse_elems n d s = Some (js, r) \<Longrightarrow> n \<le> m \<Longrightarrow> parse_elems m d (s @ x) = Some (js, r @ x)"
  "\<And>d s ms r m. parse_members n d s = Some (ms, r) \<Longrightarrow> n \<le> m \<Longrightarrow> parse_members m d (s @ x) = Some (ms, r @ x)"
proof (induction n)
  case 0
  {
    case 1
    then show ?case by simp
  next
    case 2
    then show ?case by simp
  next
    case 3
    then show ?case by simp
  }
next
  case (Suc n)
  {
    case (1 d s j r m)
    then obtain c cs m' where c: "skip_ws s = c # cs" and m: "m = Suc m'" "n \<le> m'"
      by (cases m) (auto split: list.splits)
    have x: "skip_ws (s @ x) = c # cs @ x" using skip_ws_app [of s x] c by simp
    show ?case
    proof (cases "c = CHR ''['' \<or> c = CHR ''{''")
      case True
      show ?thesis
      proof (cases "skip_ws cs")
        case Nil
        then have "after k cs = None" for k by (simp add: after_def)
        moreover have "parse_elems n d' cs = None" "parse_members n d' cs = None" for d'
          using Nil by (cases n; cases "n - 1"; simp add: after_def)+
        ultimately show ?thesis using 1 True c by (auto split: if_splits)
      next
        case (Cons a as)
        then have a: "skip_ws cs \<noteq> []" by simp
        show ?thesis
          using 1 True c x m Suc.IH(2) [of "d - 1" cs _ r m'] Suc.IH(3) [of "d - 1" cs _ r m']
          by (auto split: if_splits option.splits dest: after_app [where x = x] after_app_None [OF _ a, where x = x])
      qed
    next
      case False
      then show ?thesis
        using 1 c x m scan_str_app [of cs _ r x] parse_literal_app [of c cs j r x] by (auto split: if_splits)
    qed
  next
    case (2 d s js r m)
    then obtain j u m' where v: "parse_value n d s = Some (j, u)" and m: "m = Suc m'" "n \<le> m'"
      by (cases m) (auto split: option.splits)
    have u: "u \<noteq> []" using 2 v after_ne by (auto split: option.splits)
    have v': "parse_value m' d (s @ x) = Some (j, u @ x)" using Suc.IH(1) [OF v m(2)] u by blast
    show ?case
    proof (cases "after CHR '','' u")
      case None
      with 2 v have "skip_ws u \<noteq> []" by (auto simp: after_def split: list.splits)
      from after_app_None [OF None this] 2 v v' m None show ?thesis by (auto dest: after_app [where x = x])
    next
      case (Some w)
      with 2 v v' m Suc.IH(2) [of d w _ r m'] after_app [OF Some, of x] show ?thesis by auto
    qed
  next
    case (3 d s ms r m)
    then obtain cs k w y j u m' where v: "after CHR 0x22 s = Some cs" "scan_str cs = Some (k, w)" "after CHR '':'' w = Some y"
        "parse_value n d y = Some (j, u)" and m: "m = Suc m'" "n \<le> m'"
      by (cases m) (auto split: option.splits)
    have u: "u \<noteq> []" using 3 v after_ne by (auto split: option.splits)
    have v': "parse_value m' d (y @ x) = Some (j, u @ x)" using Suc.IH(1) [OF v(4) m(2)] u by blast
    note v'' = after_app [OF v(1)] scan_str_app [OF v(2)] after_app [OF v(3)]
    show ?case
    proof (cases "after CHR '','' u")
      case None
      with 3 v have "skip_ws u \<noteq> []" by (auto simp: after_def split: list.splits)
      from after_app_None [OF None this] 3 v v' v'' m None show ?thesis by (auto dest: after_app [where x = x])
    next
      case (Some z)
      with 3 v v' v'' m Suc.IH(3) [of d z _ r m'] after_app [OF Some, of x] show ?thesis by auto
    qed
  }
qed

text \<open>A structure that is decoded from a body cut off is the one the whole body holds.\<close>

definition uncut :: "(string \<Rightarrow> 'a option) \<Rightarrow> bool" where
  "uncut decode \<longleftrightarrow> (\<forall>n s a. decode (take n s) = Some a \<longrightarrow> decode s = Some a)"

lemma uncutD: "uncut decode \<Longrightarrow> decode (take n s) = Some a \<Longrightarrow> decode s = Some a"
  unfolding uncut_def by blast

lemma cut_body:
  assumes "json_Decode (decode_object f) z (take n s) = Some a"
  shows "json_Decode (decode_object f) z s = Some a"
proof -
  from assms obtain j r where p: "parse_value (2 * length (take n s) + 1) maxNestingDepth (take n s) = Some (j, r)"
    and d: "decode_object f z j = Some a"
    by (auto simp: json_Decode_def bind_eq_Some_conv)
  have "\<forall>t. j \<noteq> JNum t" using d by (auto simp: decode_object_def)
  with parse_app(1) [OF p, of "2 * length s + 1" "drop n s"] d show ?thesis by (auto simp: json_Decode_def)
qed

lemma uncut_Decode: "uncut (json_Decode (decode_object f) z)"
  unfolding uncut_def by (intro allI impI) (rule cut_body)

lemma uncut_map:
  assumes "uncut decode"
  shows "uncut (\<lambda>s. map_option g (decode s))"
  unfolding uncut_def
proof (intro allI impI)
  fix n s a
  assume "map_option g (decode (take n s)) = Some a"
  then obtain b where "decode (take n s) = Some b" "g b = a" by auto
  from uncutD [OF assms this(1)] this(2) show "map_option g (decode s) = Some a" by simp
qed

end
