(* ===== verification/JwksProps.thy ===== *)
theory JwksProps
  imports Jwks JsonCut "HOL-Library.Code_Target_Nat"
begin

text \<open>
  The verifier of identity tokens: which tokens it accepts, what its cache may hold and for how long,
  how often it asks the endpoint, and where the promise of a bounded life time of keys fails.
\<close>

section \<open>Strong keys\<close>

lemma bit_len_bound: "bit_len n \<le> k \<longleftrightarrow> n < 2 ^ k"
proof (induction n arbitrary: k rule: bit_len.induct)
  case (1 n)
  show ?case
  proof (cases "n = 0")
    case True
    then show ?thesis by (simp add: bit_len.simps)
  next
    case False
    then have b: "bit_len n = Suc (bit_len (n div 2))" by (subst bit_len.simps) simp
    show ?thesis
    proof (cases k)
      case 0
      with False b show ?thesis by simp
    next
      case (Suc j)
      with b 1 [OF False] have "bit_len n \<le> k \<longleftrightarrow> n div 2 < 2 ^ j" by simp
      also have "\<dots> \<longleftrightarrow> n < 2 ^ k" using Suc by auto
      finally show ?thesis .
    qed
  qed
qed

lemma bit_len_least: "0 < k \<Longrightarrow> k \<le> bit_len n \<longleftrightarrow> 2 ^ (k - 1) \<le> n"
  using bit_len_bound [of n "k - 1"] by linarith

fun key_strong :: "public_key \<Rightarrow> bool" where
  "key_strong (RSAKey n e) \<longleftrightarrow> 2 ^ (minRSAModulusBits - 1) \<le> n \<and> 2 \<le> e \<and> e < 2 ^ 63"
| "key_strong (ECKey x y) \<longleftrightarrow> p256_point x y"

lemma toRSA_strong: "toRSA k = Some pub \<Longrightarrow> key_strong pub"
proof -
  assume k: "toRSA k = Some pub"
  then obtain nb eb where "pub = RSAKey (be_nat nb) (int (be_nat eb))" "be_nat eb < 2 ^ 63" "\<not> be_nat eb < 2"
    "\<not> bit_len (be_nat nb) < minRSAModulusBits"
    by (auto simp: toRSA_def Let_def split: if_splits option.splits)
  moreover have "0 < minRSAModulusBits" by (simp add: minRSAModulusBits_def)
  ultimately show ?thesis using bit_len_least [of minRSAModulusBits "be_nat nb"] by simp
qed

lemma toKey_strong: "toKey k = Some pub \<Longrightarrow> key_strong pub"
  using toRSA_strong by (auto simp: toKey_def toECDSA_def split: if_splits option.splits)

section \<open>The cache\<close>

text \<open>The continuation of a call only has to cope with answers the call can give.\<close>

context guaranteed
begin

lemma g_bind_answer:
  assumes m: "guar R m" and f: "\<And>s a. fst (run_state m s) = a \<Longrightarrow> guar R (f a)"
  shows "guar R (State_Monad.bind m f)"
proof (rule guarI)
  fix s b t
  assume r: "run_state (State_Monad.bind m f) s = (b, t)"
  obtain a u where a: "run_state m s = (a, u)" by force
  with r have "run_state (f a) u = (b, t)" by (simp add: run)
  moreover have "guar R (f a)" by (rule f [of s]) (simp add: a)
  ultimately show "R s t" using guarD [OF m a] trans by (blast dest: guarD)
qed

end

text \<open>A key the endpoint has published under a kid: an answer with status 200 whose document, as a whole,
  has it.\<close>

definition published :: "'w verifier \<Rightarrow> string \<Rightarrow> public_key \<Rightarrow> bool" where
  "published V kid pub \<longleftrightarrow> (\<exists>s resp ks k. fst (run_state (v_Do V (v_jwksURL V)) s) = Inr resp \<and> hr_StatusCode resp = 200 \<and>
     decode_jwks (hr_Body resp) = Some ks \<and> k \<in> set ks \<and> k_Kid k = kid \<and> toKey k = Some pub)"

definition keys_ok :: "'w verifier \<Rightarrow> (string \<rightharpoonup> public_key) \<Rightarrow> bool" where
  "keys_ok V m \<longleftrightarrow> (\<forall>kid pub. m kid = Some pub \<longrightarrow> key_strong pub \<and> published V kid pub)"

lemma load_keys_from:
  "load_keys ks m kid = Some pub \<Longrightarrow> m kid = Some pub \<or> (\<exists>k \<in> set ks. k_Kid k = kid \<and> toKey k = Some pub)"
  by (induction ks m rule: load_keys.induct) (auto split: if_splits option.splits)

lemma load_keys_ok:
  assumes "fst (run_state (v_Do V (v_jwksURL V)) s) = Inr resp" "hr_StatusCode resp = 200"
    and "decode_jwks (take n (hr_Body resp)) = Some ks"
  shows "keys_ok V (load_keys ks Map.empty)"
proof -
  have "uncut decode_jwks" unfolding decode_jwks_def by (rule uncut_Decode)
  from uncutD [OF this assms(3)] assms(1,2) load_keys_from [of ks Map.empty] toKey_strong show ?thesis
    unfolding keys_ok_def published_def by fastforce
qed

text \<open>Only strong and published keys, and a life time of at most an hour.\<close>

definition cache_ok :: "'w verifier \<Rightarrow> 'w vstate \<Rightarrow> bool" where
  "cache_ok V s \<longleftrightarrow> keys_ok V (vs_keys s) \<and> 0 < vs_ttl s \<and> vs_ttl s \<le> maxTTL"

definition keeps_cache :: "'w verifier \<Rightarrow> ('w vstate, 'a) state \<Rightarrow> bool" where
  "keeps_cache V m \<longleftrightarrow> guar (\<lambda>s t. cache_ok V s \<longrightarrow> cache_ok V t) m"

interpretation cache: guaranteed "\<lambda>s t. cache_ok V s \<longrightarrow> cache_ok V t" for V
  by unfold_locales auto

lemmas cache_rules = cache.g_return cache.g_bind cache.g_andThen cache.g_get

lemma g_update: "(\<And>s. R s (f s)) \<Longrightarrow> guar R (State_Monad.update f)"
  by (simp add: guar_def)

lemma clamped_le: "clamped_ttl cc \<le> maxTTL"
  by (simp add: clamped_ttl_def Let_def)

lemma keeps_refresh:
  assumes "keeps_cache V (v_Do V (v_jwksURL V))" and "keeps_cache V (v_now V)"
  shows "keeps_cache V (refresh V)"
  unfolding keeps_cache_def refresh_def Let_def
proof (rule cache.g_bind_answer)
  show "guar (\<lambda>s t. cache_ok V s \<longrightarrow> cache_ok V t) (v_Do V (v_jwksURL V))" using assms(1) by (simp add: keeps_cache_def)
  fix s r
  assume r: "fst (run_state (v_Do V (v_jwksURL V)) s) = r"
  have upd: "keeps_cache V (State_Monad.update (\<lambda>s. s\<lparr>vs_keys := load_keys ks Map.empty, vs_fetched := now,
      vs_ttl := (if 0 < clamped_ttl cc then clamped_ttl cc else vs_ttl s)\<rparr>))"
    if "r = Inr resp" "hr_StatusCode resp = 200" "decode_jwks (take maxJWKSBytes (hr_Body resp)) = Some ks" for resp ks cc now
    unfolding keeps_cache_def
    by (rule g_update) (simp add: cache_ok_def load_keys_ok [OF r [unfolded that(1)] that(2,3)] clamped_le)
  then show "guar (\<lambda>s t. cache_ok V s \<longrightarrow> cache_ok V t) (case r of
      Inl e \<Rightarrow> State_Monad.return (Inl (FetchFailed e))
    | Inr resp \<Rightarrow>
        if hr_StatusCode resp \<noteq> 200 then State_Monad.return (Inl (FetchStatus (hr_StatusCode resp)))
        else (case decode_jwks (take maxJWKSBytes (hr_Body resp)) of
           None \<Rightarrow> State_Monad.return (Inl JwksDecode)
         | Some ks \<Rightarrow> do { now \<leftarrow> v_now V;
             State_Monad.update (\<lambda>s. s\<lparr>vs_keys := load_keys ks Map.empty, vs_fetched := now,
               vs_ttl := (if 0 < clamped_ttl (hr_CacheControl resp) then clamped_ttl (hr_CacheControl resp) else vs_ttl s)\<rparr>);
             State_Monad.return (Inr ()) }))"
    using assms(2) unfolding keeps_cache_def by (auto split: sum.splits option.splits intro!: cache_rules)
qed

lemma keeps_keyFor:
  assumes "keeps_cache V (v_Do V (v_jwksURL V))" and "keeps_cache V (v_now V)"
  shows "keeps_cache V (keyFor V kid)"
proof -
  have "keeps_cache V (State_Monad.update (\<lambda>s. s\<lparr>vs_lastRefresh := now\<rparr>))" for now
    unfolding keeps_cache_def by (rule g_update) (simp add: cache_ok_def)
  with assms(2) keeps_refresh [OF assms] show ?thesis
    unfolding keeps_cache_def keyFor_def Let_def
    by (intro cache_rules) (auto intro!: cache_rules)
qed

lemma keeps_Verify:
  assumes "keeps_cache V (v_Do V (v_jwksURL V))" and "keeps_cache V (v_now V)"
  shows "keeps_cache V (Verify V raw)"
  using keeps_keyFor [OF assms] assms(2) unfolding keeps_cache_def Verify_def
  by (auto split: list.splits option.splits sum.splits intro!: cache_rules)

text \<open>The key an answer of the cache carries stood in the cache.\<close>

lemma keyFor_key:
  assumes "keeps_cache V (v_Do V (v_jwksURL V))" and "keeps_cache V (v_now V)" and "cache_ok V s"
    and "run_state (keyFor V kid) s = (Inr key, t)"
  shows "vs_keys t kid = Some key \<and> cache_ok V t"
proof -
  have "cache_ok V t" using guarD [OF keeps_keyFor [OF assms(1,2), unfolded keeps_cache_def] assms(4)] assms(3) by blast
  moreover have "vs_keys t kid = Some key"
    using assms(4) by (auto simp: keyFor_def run Let_def split: prod.splits if_splits option.splits sum.splits)
  ultimately show ?thesis by blast
qed

section \<open>Accepted tokens\<close>

text \<open>A signature under a key of the type its algorithm asks for.\<close>

definition signed :: "codec \<Rightarrow> string \<Rightarrow> public_key \<Rightarrow> string \<Rightarrow> string \<Rightarrow> bool" where
  "signed c alg key hash sig \<longleftrightarrow>
     (alg = ''RS256'' \<and> (\<exists>n e. key = RSAKey n e \<and> cd_VerifyPKCS1v15 c n e hash sig)) \<or>
     (alg = ''ES256'' \<and> (\<exists>x y. key = ECKey x y \<and> length sig = 64 \<and>
       cd_ecdsa_Verify c x y hash (be_nat (take 32 sig)) (be_nat (drop 32 sig))))"

lemma verifySignature_signed: "verifySignature c alg key hash sig = Inr u \<Longrightarrow> signed c alg key hash sig"
  by (auto simp: verifySignature_def signed_def algRS256_def algES256_def split: if_splits public_key.splits)

text \<open>The claims as the configuration wants them, at the time \<open>now\<close>, and the identity they carry.\<close>

definition claims_for :: "'w verifier \<Rightarrow> jwtClaims \<Rightarrow> time \<Rightarrow> string \<Rightarrow> bool" where
  "claims_for V claims now ident \<longleftrightarrow> jc_Exp claims \<noteq> 0 \<and> now \<le> time_Unix (jc_Exp claims) \<and>
     v_aud V \<in> set (jc_Aud claims) \<and>
     (v_iss V = [] \<or> jc_Iss claims = v_iss V) \<and> jc_Sub claims \<noteq> [] \<and>
     ident = (if jc_KachoPrincipalID claims = [] then jc_Sub claims else jc_KachoPrincipalID claims)"

lemma check_claims_for: "check_claims V claims now = Inr ident \<Longrightarrow> claims_for V claims now ident"
  by (auto simp: check_claims_def claims_for_def audience_contains_def list_ex_iff split: if_splits)

definition genuine :: "'w verifier \<Rightarrow> string \<Rightarrow> string \<Rightarrow> bool" where
  "genuine V raw ident \<longleftrightarrow> (\<exists>header payload signature hdr sig claims key (u :: 'w vstate) now i.
     raw = header @ ''.'' @ payload @ ''.'' @ signature \<and>
     decodeSegment unmarshal_header header = Some hdr \<and>
     b64_decode True signature = Some sig \<and>
     vs_keys u (jh_Kid hdr) = Some key \<and> cache_ok V u \<and> key_strong key \<and> published V (jh_Kid hdr) key \<and>
     signed (v_codec V) (jh_Alg hdr) key (cd_sha256 (v_codec V) (header @ ''.'' @ payload)) sig \<and>
     decodeSegment unmarshal_claims payload = Some claims \<and>
     now = fst (run_state (v_now V) i) \<and> claims_for V claims now ident)"

lemma split_three: "split_on c raw = [x, y, z] \<Longrightarrow> raw = x @ [c] @ y @ [c] @ z"
  using join_split [of c raw] by simp

lemma Verify_genuine:
  assumes "keeps_cache V (v_Do V (v_jwksURL V))" and "keeps_cache V (v_now V)" and "cache_ok V s"
    and "run_state (Verify V raw) s = (Inr ident, t)"
  shows "genuine V raw ident \<and> ident \<noteq> []"
proof -
  from assms(4) obtain header payload signature hdr where
    parts: "split_on CHR ''.'' raw = [header, payload, signature]" and
    hdr: "decodeSegment unmarshal_header header = Some hdr"
    by (auto simp: Verify_def run split: list.splits option.splits)
  obtain k u where k: "run_state (keyFor V (jh_Kid hdr)) s = (k, u)" by force
  from assms(4) parts hdr k obtain key sig claims where
    key: "k = Inr key" and sig: "b64_decode True signature = Some sig" and
    vs: "verifySignature (v_codec V) (jh_Alg hdr) key (cd_sha256 (v_codec V) (header @ ''.'' @ payload)) sig = Inr ()" and
    claims: "decodeSegment unmarshal_claims payload = Some claims" and
    now: "check_claims V claims (fst (run_state (v_now V) u)) = Inr ident"
    by (auto simp: Verify_def run split: if_splits sum.splits option.splits prod.splits)
  from keyFor_key [OF assms(1-3) k [unfolded key]] have u: "vs_keys u (jh_Kid hdr) = Some key" "cache_ok V u" by auto
  then have "key_strong key" "published V (jh_Kid hdr) key" by (auto simp: cache_ok_def keys_ok_def)
  moreover have "claims_for V claims (fst (run_state (v_now V) u)) ident" using check_claims_for now by blast
  moreover from this have "ident \<noteq> []" by (auto simp: claims_for_def)
  moreover have "raw = header @ ''.'' @ payload @ ''.'' @ signature" using split_three [OF parts] by simp
  ultimately show ?thesis
    using hdr sig u verifySignature_signed [OF vs] claims unfolding genuine_def by blast
qed

text \<open>
  C24. Only genuine tokens are accepted: when the verifier returns an identity, the token is three
  segments; the signature over the first two verifies under a key that the configured endpoint has
  published - in an answer with status 200 whose document lists it under the kid of the header -, of
  the type the algorithm asks for, RS256 or ES256 and nothing else, and strong (an RSA modulus of
  2048 bits or more, or a point on P-256); the claims, decoded from the JSON of the payload, are
  unexpired at a reading of the clock, name our audience and the pinned issuer; and the identity is
  the enriched principal or else the subject, and not empty. The cache stays in order, whatever the
  token.
\<close>

theorem accepted_tokens_are_genuine:
  assumes "keeps_cache V (v_Do V (v_jwksURL V))" and "keeps_cache V (v_now V)" and "cache_ok V s"
    and "run_state (Verify V raw) s = (r, t)"
  shows "cache_ok V t \<and> (\<forall>ident. r = Inr ident \<longrightarrow> genuine V raw ident \<and> ident \<noteq> [])"
proof -
  from guarD [OF keeps_Verify [OF assms(1,2), unfolded keeps_cache_def] assms(4)] assms(3) have "cache_ok V t" by blast
  with Verify_genuine [OF assms(1-3)] assms(4) show ?thesis by blast
qed

section \<open>How often the endpoint is asked\<close>

fun verify_all :: "'w verifier \<Rightarrow> string list \<Rightarrow> ('w vstate, (token_error + string) list) state" where
  "verify_all V [] = State_Monad.return []"
| "verify_all V (raw # raws) =
     do { v \<leftarrow> Verify V raw; vs \<leftarrow> verify_all V raws; State_Monad.return (v # vs) }"

text \<open>A clock that stays in the window of one refresh from \<open>t0\<close> on, and an endpoint whose exchanges are
  counted; neither touches the time of the last refresh.\<close>

definition counted :: "('w \<Rightarrow> nat) \<Rightarrow> time \<Rightarrow> 'w verifier \<Rightarrow> bool" where
  "counted fetches t0 V \<longleftrightarrow>
     (\<forall>s a t. run_state (v_now V) s = (a, t) \<longrightarrow> t0 \<le> a \<and> a < t0 + v_minRefresh V \<and>
        vs_lastRefresh t = vs_lastRefresh s \<and> fetches (vs_world t) = fetches (vs_world s)) \<and>
     (\<forall>s r t. run_state (v_Do V (v_jwksURL V)) s = (r, t) \<longrightarrow>
        vs_lastRefresh t = vs_lastRefresh s \<and> fetches (vs_world t) = Suc (fetches (vs_world s)))"

text \<open>At most one exchange, and none once the refresh slot of the window is taken.\<close>

definition throttled :: "('w \<Rightarrow> nat) \<Rightarrow> time \<Rightarrow> 'w vstate \<Rightarrow> 'w vstate \<Rightarrow> bool" where
  "throttled fetches t0 s t \<longleftrightarrow>
     fetches (vs_world t) = fetches (vs_world s) \<and>
       (vs_lastRefresh t = vs_lastRefresh s \<or> t0 \<le> vs_lastRefresh s \<and> t0 \<le> vs_lastRefresh t) \<or>
     vs_lastRefresh s < t0 \<and> t0 \<le> vs_lastRefresh t \<and> fetches (vs_world t) = Suc (fetches (vs_world s))"

interpretation throttle: guaranteed "throttled fetches t0"
  by unfold_locales (auto simp: throttled_def)

lemma refresh_counted:
  assumes "counted fetches t0 V" and "run_state (refresh V) s = (r, t)"
  shows "vs_lastRefresh t = vs_lastRefresh s \<and> fetches (vs_world t) = Suc (fetches (vs_world s))"
  using assms unfolding counted_def
  by (fastforce simp: refresh_def run Let_def split: prod.splits sum.splits if_splits option.splits)

lemma keyFor_throttled:
  assumes "counted fetches t0 V"
  shows "guar (throttled fetches t0) (keyFor V kid)"
proof (rule guarI)
  fix s r t
  assume r0: "run_state (keyFor V kid) s = (r, t)"
  obtain now u where now: "run_state (v_now V) s = (now, u)" by force
  with assms have n: "t0 \<le> now" "now < t0 + v_minRefresh V" "vs_lastRefresh u = vs_lastRefresh s"
    "fetches (vs_world u) = fetches (vs_world s)" unfolding counted_def by blast+
  let ?u = "u\<lparr>vs_lastRefresh := now\<rparr>"
  obtain x v where x: "run_state (refresh V) ?u = (x, v)" by force
  from refresh_counted [OF assms x] have v: "vs_lastRefresh v = now" "fetches (vs_world v) = Suc (fetches (vs_world u))"
    by simp_all
  from r0 now x have "t = u \<or> \<not> now - vs_lastRefresh u < v_minRefresh V \<and> t = v"
    by (auto simp: keyFor_def run Let_def split: if_splits sum.splits)
  then show "throttled fetches t0 s t"
    using n v by (auto simp: throttled_def)
qed

lemma Verify_throttled:
  assumes "counted fetches t0 V" shows "guar (throttled fetches t0) (Verify V raw)"
proof -
  have "guar (throttled fetches t0) (v_now V)"
    using assms by (auto simp: counted_def throttled_def intro!: guarI)
  with keyFor_throttled [OF assms] show ?thesis
    unfolding Verify_def
    by (auto split: list.splits option.splits sum.splits
      intro!: throttle.g_return throttle.g_bind)
qed

text \<open>
  C25. Unknown kids cannot make the service flood the issuer: however many tokens, with whatever kids,
  are verified while the clock stays within one refresh interval, at most one exchange with the JWKS
  endpoint happens, and none if the slot of this interval was taken before.
\<close>

theorem one_fetch_per_window:
  assumes "counted fetches t0 V" and "run_state (verify_all V raws) s = (res, t)"
  shows "fetches (vs_world t) \<le> Suc (fetches (vs_world s)) \<and>
    (t0 \<le> vs_lastRefresh s \<longrightarrow> fetches (vs_world t) = fetches (vs_world s))"
proof -
  have "guar (throttled fetches t0) (verify_all V raws)"
    by (induction raws) (auto intro!: throttle.g_return throttle.g_bind Verify_throttled assms(1))
  from guarD [OF this assms(2)] show ?thesis by (auto simp: throttled_def)
qed

section \<open>How long a key is believed\<close>

text \<open>The endpoint cannot be reached, and the clock stands still.\<close>

definition endpoint_down :: "'w verifier \<Rightarrow> bool" where
  "endpoint_down V \<longleftrightarrow> (\<forall>s. \<exists>e. run_state (v_Do V (v_jwksURL V)) s = (Inl e, s))"

definition clock_at :: "'w verifier \<Rightarrow> 'w \<Rightarrow> time \<Rightarrow> bool" where
  "clock_at V w now \<longleftrightarrow> (\<forall>s. vs_world s = w \<longrightarrow> run_state (v_now V) s = (now, s))"

text \<open>
  The life time of a key is not bounded while the endpoint is down: with a key that was fetched
  arbitrarily long ago - \<open>now\<close> has no upper bound -, the first token after a quiet interval is refused
  because the refresh fails, and this very attempt opens the refresh window in which the next token
  with the same kid gets the expired key.
\<close>

theorem expired_key_is_served:
  assumes "endpoint_down V" and "clock_at V w now" and "clock_at V w' later"
    and "vs_keys s kid = Some key" and "vs_world s = w"
    and "vs_fetched s + vs_ttl s \<le> now" and "vs_lastRefresh s + v_minRefresh V \<le> now"
    and "now \<le> later" and "later < now + v_minRefresh V"
  shows "(\<exists>e. fst (run_state (keyFor V kid) s) = Inl (FetchFailed e)) \<and>
    fst (run_state (keyFor V kid) (snd (run_state (keyFor V kid) s)\<lparr>vs_world := w'\<rparr>)) = Inr key"
proof -
  from assms(1) obtain e where "run_state (v_Do V (v_jwksURL V)) (s\<lparr>vs_lastRefresh := now\<rparr>) =
      (Inl e, s\<lparr>vs_lastRefresh := now\<rparr>)" unfolding endpoint_down_def by blast
  then have "run_state (refresh V) (s\<lparr>vs_lastRefresh := now\<rparr>) = (Inl (FetchFailed e), s\<lparr>vs_lastRefresh := now\<rparr>)"
    by (simp add: refresh_def run)
  moreover have "run_state (v_now V) s = (now, s)" using assms(2,5) by (simp add: clock_at_def)
  ultimately have first: "run_state (keyFor V kid) s = (Inl (FetchFailed e), s\<lparr>vs_lastRefresh := now\<rparr>)"
    using assms(4,6,7) by (simp add: keyFor_def run Let_def)
  let ?t = "s\<lparr>vs_lastRefresh := now, vs_world := w'\<rparr>"
  have "run_state (v_now V) ?t = (later, ?t)" using assms(3) by (simp add: clock_at_def)
  then have "run_state (keyFor V kid) ?t = (Inr key, ?t)"
    using assms(4,6,8,9) by (simp add: keyFor_def run Let_def)
  with first show ?thesis by simp
qed

text \<open>
  C26. The cache holds strong keys for at most an hour at a time: starting from a new verifier, after any
  tokens and whatever documents and Cache-Control headers the endpoint sends - a \<open>max-age\<close> so large
  that the conversion to nanoseconds wraps around included -, every cached key is strong and the life
  time lies in \<open>(0, 1h]\<close>.
\<close>

theorem cache_is_strong_and_short:
  assumes "keeps_cache V (v_Do V (v_jwksURL V))" and "keeps_cache V (v_now V)"
    and "run_state (verify_all V raws) (new_vstate w) = (res, t)"
  shows "(\<forall>kid key. vs_keys t kid = Some key \<longrightarrow> key_strong key) \<and> 0 < vs_ttl t \<and> vs_ttl t \<le> 60 * 60 * second"
proof -
  have "keeps_cache V (verify_all V raws)"
    using keeps_Verify [OF assms(1,2)] unfolding keeps_cache_def
    by (induction raws) (auto intro!: cache_rules)
  moreover have "cache_ok V (new_vstate w)" by (simp add: cache_ok_def keys_ok_def new_vstate_def defaultTTL_def maxTTL_def second_def)
  ultimately have "cache_ok V t" using guarD [OF _ assms(3)] unfolding keeps_cache_def by blast
  then show ?thesis by (simp add: cache_ok_def keys_ok_def maxTTL_def)
qed

section \<open>A concrete verifier\<close>

text \<open>A clock and a counter of exchanges; an endpoint that answers a document with the base point of
  P-256 under the kid \<open>k1\<close>, or cannot be reached.\<close>

type_synonym demo_clock = "time \<times> nat"

text \<open>The token: \<open>{"alg":"ES256","kid":"k1"}\<close>, claims of subject \<open>client\<close> with an enriched principal, and
  a signature of 64 zero bytes.\<close>

definition demo_header :: string where
  "demo_header = ''eyJhbGciOiJFUzI1NiIsImtpZCI6ImsxIn0''"

definition demo_claims :: string where
  "demo_claims = ''eyJzdWIiOiJjbGllbnQiLCJleHAiOjIwMDAsImlzcyI6Imh5ZHJhIiwiYXVkIjpbIm90aGVyIiwicmVnaXN0cnkiXSwiZXh0Ijp7ImV4dF9jbGFpbXMiOnsia2FjaG9fcHJpbmNpcGFsX2lkIjoic3ZhMSJ9fX0''"

definition demo_signature :: string where
  "demo_signature = replicate 86 (CHR ''A'')"

definition demo_token :: string where
  "demo_token = demo_header @ ''.'' @ demo_claims @ ''.'' @ demo_signature"

definition demo_codec :: codec where
  "demo_codec = \<lparr>cd_sha256 = id, cd_VerifyPKCS1v15 = (\<lambda>n e hash sig. False),
     cd_ecdsa_Verify = (\<lambda>x y hash r t. hash = demo_header @ ''.'' @ demo_claims \<and> r = 0 \<and> t = 0)\<rparr>"

text \<open>The document, with double quotes for the single ones.\<close>

definition demo_member :: "string \<Rightarrow> string \<Rightarrow> string" where
  "demo_member k v = squote k @ '':'' @ squote v"

definition demo_jwks :: string where
  "demo_jwks = map (\<lambda>c. if c = CHR 0x27 then CHR 0x22 else c) (''{'' @ squote ''keys'' @ '':[{'' @
     demo_member ''kty'' ''EC'' @ '','' @ demo_member ''kid'' ''k1'' @ '','' @ demo_member ''crv'' ''P-256'' @ '','' @
     demo_member ''x'' ''axfR8uEsQkf4vOblY6RA8ncDfYEt6zOg9KE5RdiYwpY'' @ '','' @
     demo_member ''y'' ''T-NC4v4af5uO5-tKfA-eFivOM1drMV7Oy7ZAaDe_UfU'' @ ''}]}'')"

definition demo_verifier :: "bool \<Rightarrow> demo_clock verifier" where
  "demo_verifier up = New_verifier ''https://hydra/jwks'' ''registry'' ''hydra'' demo_codec
     (State (\<lambda>s. (fst (vs_world s), s)))
     (\<lambda>url. State (\<lambda>s. (if up then Inr \<lparr>hr_StatusCode = 200, hr_CacheControl = ''public, max-age=9223372037'', hr_Body = demo_jwks\<rparr>
        else Inl (Raw ''connection refused''), s\<lparr>vs_world := (fst (vs_world s), Suc (snd (vs_world s)))\<rparr>)))"

definition demo_time :: time where "demo_time = time_Unix 1000"

lemma demo_verifier_keeps: "keeps_cache V (v_Do (demo_verifier up) url)" "keeps_cache V (v_now (demo_verifier up))"
  by (simp_all add: keeps_cache_def guar_def demo_verifier_def New_verifier_def cache_ok_def)

definition demo_jwk :: jsonWebKey where
  "demo_jwk = \<lparr>k_Kty = ''EC'', k_Kid = ''k1'', k_Crv = ''P-256'', k_N = [], k_E = [],
     k_X = ''axfR8uEsQkf4vOblY6RA8ncDfYEt6zOg9KE5RdiYwpY'', k_Y = ''T-NC4v4af5uO5-tKfA-eFivOM1drMV7Oy7ZAaDe_UfU''\<rparr>"

definition demo_key :: public_key where
  "demo_key = ECKey 0x6B17D1F2E12C4247F8BCE6E563A440F277037D812DEB33A0F4A13945D898C296
     0x4FE342E2FE1A7F9B8EE7EB4A7C0F9E162BCE33576B315ECECBB6406837BF51F5"

lemma demo_document: "decode_jwks demo_jwks = Some [demo_jwk]" "k_Kid demo_jwk = ''k1''" "k_Kty demo_jwk = ''EC''" "k_Crv demo_jwk = ''P-256''"
  by code_simp+

definition demo_x :: string where
  "demo_x = [CHR 0x6B, CHR 0x17, CHR 0xD1, CHR 0xF2, CHR 0xE1, CHR 0x2C, CHR 0x42, CHR 0x47,
     CHR 0xF8, CHR 0xBC, CHR 0xE6, CHR 0xE5, CHR 0x63, CHR 0xA4, CHR 0x40, CHR 0xF2,
     CHR 0x77, CHR 0x03, CHR 0x7D, CHR 0x81, CHR 0x2D, CHR 0xEB, CHR 0x33, CHR 0xA0,
     CHR 0xF4, CHR 0xA1, CHR 0x39, CHR 0x45, CHR 0xD8, CHR 0x98, CHR 0xC2, CHR 0x96]"

definition demo_y :: string where
  "demo_y = [CHR 0x4F, CHR 0xE3, CHR 0x42, CHR 0xE2, CHR 0xFE, CHR 0x1A, CHR 0x7F, CHR 0x9B,
     CHR 0x8E, CHR 0xE7, CHR 0xEB, CHR 0x4A, CHR 0x7C, CHR 0x0F, CHR 0x9E, CHR 0x16,
     CHR 0x2B, CHR 0xCE, CHR 0x33, CHR 0x57, CHR 0x6B, CHR 0x31, CHR 0x5E, CHR 0xCE,
     CHR 0xCB, CHR 0xB6, CHR 0x40, CHR 0x68, CHR 0x37, CHR 0xBF, CHR 0x51, CHR 0xF5]"

lemma demo_bytes: "b64_decode True (k_X demo_jwk) = Some demo_x" "b64_decode True (k_Y demo_jwk) = Some demo_y"
  by code_simp+

lemma demo_coordinates: "be_nat demo_x = 0x6B17D1F2E12C4247F8BCE6E563A440F277037D812DEB33A0F4A13945D898C296"
    "be_nat demo_y = 0x4FE342E2FE1A7F9B8EE7EB4A7C0F9E162BCE33576B315ECECBB6406837BF51F5"
    "length demo_x = 32" "length demo_y = 32"
  by (simp_all add: be_nat_def demo_x_def demo_y_def)

text \<open>The base point of the curve is on it: the equation with its quotient.\<close>

lemma demo_point: "p256_point 0x6B17D1F2E12C4247F8BCE6E563A440F277037D812DEB33A0F4A13945D898C296
    0x4FE342E2FE1A7F9B8EE7EB4A7C0F9E162BCE33576B315ECECBB6406837BF51F5"
proof -
  let ?x = "0x6B17D1F2E12C4247F8BCE6E563A440F277037D812DEB33A0F4A13945D898C296 :: int"
  let ?y = "0x4FE342E2FE1A7F9B8EE7EB4A7C0F9E162BCE33576B315ECECBB6406837BF51F5 :: int"
  have p: "p256_p = 0xFFFFFFFF00000001000000000000000000000000FFFFFFFFFFFFFFFFFFFFFFFF" by (simp add: p256_p_def)
  have "?y * ?y = 0x18EE0D07C8DCD20B9CE0AED20040731334D2A0659B3CDAC48B9F77ED85221580F323BDCF3862CA176DBAFDA0BB50A6DA6C3354D552AEC89C16ECDB42ABD2F479" "?x * ?x = 0x2CCCEBB86E0DEF74D4D2435551CD0B7CD92ADE46207EBDF870387D127A032F22B8D5B1119B64B5C2C89DE54FE3A13ECA1FFD1A5BD36CD01530EDD460C607AFE4" by (simp_all only: arith_simps)
  moreover have "(0x2CCCEBB86E0DEF74D4D2435551CD0B7CD92ADE46207EBDF870387D127A032F22B8D5B1119B64B5C2C89DE54FE3A13ECA1FFD1A5BD36CD01530EDD460C607AFE4 :: int) * ?x =
    0x12BDD1AD1121F686CBAD68DA88E7241CBA2F01D878693D960B5DF51A2DC06312CD5207FA793723FE6500B7D836413F4248356822515ABF749212E22D40563F702C9736C7BC391D8F27FFACDF41F72C4477D6BE9A8E73B70EAB780432AB2BD798"
    "(0xFFFFFFFF00000001000000000000000000000000FFFFFFFFFFFFFFFFFFFFFFFF :: int) * 0x12BDD1AD23DFC833DCCF5F6141D6BB4A1F365DC1430B0E600B52DD851938D2D6933106A72EFBF035FDAF43963B37FD5456E90C6581A8FB7A0D8A46A3629F0458 =
    0x12BDD1AD1121F686CBAD68DA88E7241CBA2F01D878693D960B5DF51A2DC06312B463FAF2B05A51F2C82009063600CC2F1362C7BCB61DE4B006736A3FBB3429EE52F238F88A8C208783F9B7E3D252494F0BB5F7F27E570485F275B95C9D60FBA8"
    by (simp_all only: arith_simps)
  ultimately have "?y * ?y - (?x * ?x * ?x - 3 * ?x + p256_b) = p256_p * - 0x12BDD1AD23DFC833DCCF5F6141D6BB4A1F365DC1430B0E600B52DD851938D2D6933106A72EFBF035FDAF43963B37FD5456E90C6581A8FB7A0D8A46A3629F0458"
    by (simp only: p p256_b_def mult_minus_right)
  then have "(?y * ?y - (?x * ?x * ?x - 3 * ?x + p256_b)) mod p256_p = 0" by (simp only: mod_mult_self1_is_0)
  moreover have "?x < p256_p" "?y < p256_p" by (simp_all add: p)
  ultimately show ?thesis by (simp only: p256_point_def of_nat_numeral)
qed

lemma demo_toKey: "toKey demo_jwk = Some demo_key"
  using demo_coordinates demo_point demo_bytes
  by (auto simp: toKey_def toECDSA_def demo_document demo_key_def)

definition demo_cache :: "time \<Rightarrow> demo_clock vstate" where
  "demo_cache now = (new_vstate (now, 0))\<lparr>vs_keys := [''k1'' \<mapsto> demo_key], vs_fetched := demo_time\<rparr>"

lemma demo_cache_ok: "cache_ok (demo_verifier True) (demo_cache now)"
proof -
  have "published (demo_verifier True) ''k1'' demo_key" unfolding published_def
    by (intro exI [of _ "demo_cache now"] exI [of _ "[demo_jwk]"] exI [of _ demo_jwk])
      (simp add: demo_document demo_toKey demo_verifier_def New_verifier_def)
  then show ?thesis using toKey_strong [OF demo_toKey]
    by (simp add: cache_ok_def keys_ok_def demo_cache_def new_vstate_def defaultTTL_def maxTTL_def second_def)
qed

lemma demo_segments: "b64_decode True demo_signature = Some (replicate 64 CHR 0x00)"
    "split_on CHR ''.'' demo_token = [demo_header, demo_claims, demo_signature]"
    "decodeSegment unmarshal_header demo_header = Some \<lparr>jh_Alg = ''ES256'', jh_Kid = ''k1''\<rparr>"
    "decodeSegment unmarshal_claims demo_claims = Some \<lparr>jc_Sub = ''client'', jc_Exp = 2000, jc_Iss = ''hydra'',
       jc_Aud = [''other'', ''registry''], jc_KachoPrincipalID = ''sva1''\<rparr>"
    "be_nat (replicate 32 CHR 0x00) = 0"
  by code_simp+

lemma demo_accepts: "fst (run_state (Verify (demo_verifier True) demo_token) (demo_cache demo_time)) = Inr ''sva1''"
proof -
  have "demo_time \<le> time_Unix 2000" by (simp add: demo_time_def time_Unix_def wrap64_def second_def)
  then show ?thesis
    by (simp add: Verify_def demo_segments demo_verifier_def New_verifier_def demo_codec_def keyFor_def
        run Let_def demo_cache_def new_vstate_def defaultTTL_def second_def algRS256_def algES256_def verifySignature_def
        demo_key_def check_claims_def audience_contains_def)
qed

lemma accepted_tokens_are_genuine_witness: "genuine (demo_verifier True) demo_token ''sva1''"
  using accepted_tokens_are_genuine [OF demo_verifier_keeps(1,2) demo_cache_ok prod.collapse [symmetric]] demo_accepts
  by simp

definition still_verifier :: "demo_clock verifier" where
  "still_verifier = (demo_verifier False)\<lparr>v_now := State (\<lambda>s. (demo_time, s))\<rparr>"

lemma one_fetch_per_window_witness:
  "snd (vs_world (snd (run_state (verify_all still_verifier [demo_token, demo_token, demo_token])
     (new_vstate (demo_time, 0))))) \<le> 1"
proof -
  have "counted snd demo_time still_verifier"
    by (simp add: counted_def still_verifier_def demo_verifier_def New_verifier_def defaultMinRefresh_def second_def)
  from one_fetch_per_window [OF this] show ?thesis
    by (metis One_nat_def new_vstate_def prod.collapse snd_conv vstate.select_convs(5))
qed

text \<open>A year after the last exchange.\<close>

definition unreachable_verifier :: "demo_clock verifier" where
  "unreachable_verifier = (demo_verifier False)\<lparr>v_Do := \<lambda>url. State (\<lambda>s. (Inl (Raw ''connection refused''), s))\<rparr>"

lemma expired_key_is_served_witness:
  "fst (run_state (keyFor unreachable_verifier ''k1'')
     (snd (run_state (keyFor unreachable_verifier ''k1'') (demo_cache (demo_time + 31536000 * second)))
       \<lparr>vs_world := (demo_time + 31536001 * second, 0)\<rparr>)) = Inr (demo_key)"
proof -
  let ?now = "demo_time + 31536000 * second"
  have "endpoint_down unreachable_verifier" by (simp add: endpoint_down_def unreachable_verifier_def)
  moreover have "clock_at unreachable_verifier (t, n) t" for t n
    by (simp add: clock_at_def unreachable_verifier_def demo_verifier_def New_verifier_def)
  ultimately show ?thesis
    using expired_key_is_served [of unreachable_verifier "(?now, 0)" ?now "(demo_time + 31536001 * second, 0)"
        "demo_time + 31536001 * second" "demo_cache ?now" "''k1''" "demo_key"]
    by (simp add: demo_cache_def new_vstate_def defaultTTL_def second_def unreachable_verifier_def demo_verifier_def
        New_verifier_def defaultMinRefresh_def demo_time_def time_Unix_def wrap64_def)
qed

lemma cache_is_strong_and_short_witness:
  "vs_ttl (snd (run_state (verify_all (demo_verifier True) [demo_token]) (new_vstate (demo_time, 0)))) \<le> 60 * 60 * second"
  using cache_is_strong_and_short [OF demo_verifier_keeps] by (metis prod.collapse)

end
