(* ===== verification/Search.thy ===== *)
theory Search
  imports Json
begin

text \<open>
  The text of a search request (\<open>imageListQuery\<close>, \<open>globalSearchQuery\<close> and the body that \<open>gqlQuery\<close>
  of \<open>internal/clients/zot/graphql.go\<close> posts), with \<open>strconv.Quote\<close>. The table of printable runes
  (\<open>strconv.IsPrint\<close>) is a parameter. A name is always one string literal of the query, whatever
  bytes it has, and the body decodes to the query.
\<close>

section \<open>\<open>strconv.Quote\<close>\<close>

definition x_escape :: "nat \<Rightarrow> string" where
  "x_escape b = [CHR 0x5C, CHR ''x'', hex_char (b div 16), hex_char (b mod 16)]"

definition long_escape :: "nat \<Rightarrow> string" where
  "long_escape r = CHR 0x5C # CHR ''U'' # map (\<lambda>k. hex_char (r div 16 ^ k mod 16)) [7, 6, 5, 4, 3, 2, 1, 0]"

definition control_escapes :: "(nat \<times> char) list" where
  "control_escapes = [(7, CHR ''a''), (8, CHR ''b''), (12, CHR ''f''), (10, CHR ''n''), (13, CHR ''r''),
     (9, CHR ''t''), (11, CHR ''v'')]"

text \<open>\<open>appendEscapedRune\<close>, for a double quote as the delimiter.\<close>

definition escaped_rune :: "(nat \<Rightarrow> bool) \<Rightarrow> nat \<Rightarrow> string" where
  "escaped_rune printable r =
     (if r = 34 \<or> r = 92 then [CHR 0x5C, char_of r]
      else if printable r then encode_rune r
      else case map_of control_escapes r of
          Some e \<Rightarrow> [CHR 0x5C, e]
        | None \<Rightarrow> if r < 32 \<or> r = 127 then x_escape r
            else if r < 65536 then u_escape r else long_escape r)"

function quote_runes :: "(nat \<Rightarrow> bool) \<Rightarrow> string \<Rightarrow> string" where
  "quote_runes printable [] = []"
| "quote_runes printable (c # cs) =
     (if of_char c < (128::nat) then escaped_rune printable (of_char c) @ quote_runes printable cs
      else case decode_rune (of_char c) (map of_char cs) of (r, k) \<Rightarrow>
        (if k = 0 then x_escape (of_char c) else escaped_rune printable r) @ quote_runes printable (drop k cs))"
  by pat_completeness auto
termination by (relation "measure (length \<circ> snd)") (auto simp: less_Suc_eq_le)

definition strconv_Quote :: "(nat \<Rightarrow> bool) \<Rightarrow> string \<Rightarrow> string" where
  "strconv_Quote printable s = quoted (quote_runes printable s)"

section \<open>The query and its body\<close>

definition imageListQuery :: "(nat \<Rightarrow> bool) \<Rightarrow> string \<Rightarrow> string" where
  "imageListQuery printable fullRepo = ''{ImageList(repo:'' @ strconv_Quote printable fullRepo @
     ''){Results{Tag Digest MediaType Size DownloadCount PushTimestamp LastPullTimestamp PushedBy '' @
     ''Manifests{ArtifactType Platform{Os Arch}}}}}''"

definition globalSearchQuery :: "(nat \<Rightarrow> bool) \<Rightarrow> string \<Rightarrow> string" where
  "globalSearchQuery printable query = ''{GlobalSearch(query:'' @ strconv_Quote printable query @
     ''){Repos{Name Size LastUpdated DownloadCount}}}''"

text \<open>\<open>json.Marshal\<close> of the map with the one key.\<close>

definition search_body :: "string \<Rightarrow> string" where
  "search_body query = json_print (JObj [(''query'', JStr (json_escape query))])"

section \<open>A name is one literal\<close>

text \<open>The scanner of a string literal: a backslash takes the byte after it along.\<close>

fun scan_literal :: "string \<Rightarrow> (string \<times> string) option" where
  "scan_literal [] = None"
| "scan_literal (c # cs) =
     (if c = CHR 0x22 then Some ([], cs)
      else if c = CHR 0x5C then (case cs of [] \<Rightarrow> None | e # es \<Rightarrow> map_option (apfst (\<lambda>t. c # e # t)) (scan_literal es))
      else map_option (apfst (Cons c)) (scan_literal cs))"

text \<open>A text that the scanner passes over as a whole.\<close>

definition inert :: "string \<Rightarrow> bool" where
  "inert u \<longleftrightarrow> (\<forall>s. scan_literal (u @ s) = (case scan_literal s of None \<Rightarrow> None | Some (t, r) \<Rightarrow> Some (u @ t, r)))"

lemma inert_Nil [simp]: "inert []"
  by (simp add: inert_def split: option.split)

lemma inert_Cons: "c \<noteq> CHR 0x22 \<Longrightarrow> c \<noteq> CHR 0x5C \<Longrightarrow> inert u \<Longrightarrow> inert (c # u)"
  by (simp add: inert_def split: option.split)

lemma inert_escape: "inert u \<Longrightarrow> inert (CHR 0x5C # e # u)"
  by (simp add: inert_def split: option.split)

lemma inert_append: "inert u \<Longrightarrow> inert v \<Longrightarrow> inert (u @ v)"
  by (simp add: inert_def split: option.split)

lemma inert_list: "\<forall>c \<in> set u. c \<noteq> CHR 0x22 \<and> c \<noteq> CHR 0x5C \<Longrightarrow> inert u"
  by (induction u) (simp_all add: inert_Cons)

lemma hex_char_harmless: "n < 16 \<Longrightarrow> hex_char n \<noteq> CHR 0x22 \<and> hex_char n \<noteq> CHR 0x5C"
  using hex_val_char [of n] by (auto simp: hex_val_def)

lemma inert_hex:
  "b < 256 \<Longrightarrow> inert (x_escape b)" "r < 65536 \<Longrightarrow> inert (u_escape r)" "inert (long_escape r)"
  by (simp_all add: x_escape_def u_escape_def long_escape_def inert_escape inert_Cons hex_char_harmless)

lemma inert_rune: "r \<noteq> 34 \<Longrightarrow> r \<noteq> 92 \<Longrightarrow> inert (encode_rune r)"
proof (rule inert_list, cases "r < 128")
  case True
  moreover assume "r \<noteq> 34" "r \<noteq> 92"
  ultimately show "\<forall>c \<in> set (encode_rune r). c \<noteq> CHR 0x22 \<and> c \<noteq> CHR 0x5C"
    by (simp add: encode_rune_def char_of_eq_iff take_bit_nat_eq_self)
next
  case False
  then have "128 \<le> (of_char c :: nat)" if "c \<in> set (encode_rune r)" for c
    using that by (auto simp: encode_rune_def split: if_splits)
  then show "\<forall>c \<in> set (encode_rune r). c \<noteq> CHR 0x22 \<and> c \<noteq> CHR 0x5C" by fastforce
qed

lemma inert_escaped_rune: "inert (escaped_rune printable r)"
  by (auto simp: escaped_rune_def inert_escape inert_rune inert_hex split: option.split)

lemma inert_quote: "inert (quote_runes printable s)"
  by (induction printable s rule: quote_runes.induct)
    (auto simp: inert_append inert_escaped_rune inert_hex split: prod.split)

theorem quote_is_one_literal:
  "scan_literal (drop 1 (strconv_Quote printable s) @ rest) = Some (quote_runes printable s, rest)"
  using inert_quote [of printable s, unfolded inert_def, rule_format, of "CHR 0x22 # rest"]
  by (simp add: strconv_Quote_def quoted_def)

text \<open>A name of printable ASCII without quotes and backslashes stands in the query as it is.\<close>

lemma quote_codes: "of_char c = (34::nat) \<Longrightarrow> c = CHR 0x22" "of_char c = (92::nat) \<Longrightarrow> c = CHR 0x5C"
proof -
  have "of_char c = (of_char d :: nat) \<Longrightarrow> c = d" for d by simp
  from this [of "CHR 0x22"] this [of "CHR 0x5C"]
  show "of_char c = (34::nat) \<Longrightarrow> c = CHR 0x22" "of_char c = (92::nat) \<Longrightarrow> c = CHR 0x5C" by simp_all
qed

lemma quote_plain:
  assumes "\<forall>r. 32 \<le> r \<and> r < 127 \<longrightarrow> printable r"
    and "\<forall>c \<in> set s. 32 \<le> (of_char c :: nat) \<and> (of_char c :: nat) < 127 \<and> c \<noteq> CHR 0x22 \<and> c \<noteq> CHR 0x5C"
  shows "quote_runes printable s = s"
  using assms(2)
proof (induction s)
  case (Cons c s)
  have "of_char c \<noteq> (34::nat)" "of_char c \<noteq> (92::nat)" using Cons.prems by (auto dest: quote_codes)
  then have "escaped_rune printable (of_char c) = [c]"
    using Cons.prems assms(1) by (simp add: escaped_rune_def encode_byte)
  with Cons show ?case by simp
qed simp

section \<open>The body decodes to the query\<close>

lemma valid_ascii: "\<forall>c \<in> set u. (of_char c :: nat) < 128 \<Longrightarrow> valid_utf8 (u @ t) = valid_utf8 t"
  by (induction u) simp_all

lemma valid_encode_rune: "valid_utf8 (encode_rune r @ t) = valid_utf8 t"
proof -
  have m: "n mod 64 \<le> 63" for n :: nat using mod_less_divisor [of 64 n] by linarith
  consider "r < 128" | "128 \<le> r" "r < 2048" | "2048 \<le> r" "r < 65536" "\<not> (55296 \<le> r \<and> r \<le> 57343)"
    | "r > 1114111 \<or> 55296 \<le> r \<and> r \<le> 57343" | "65536 \<le> r" "r \<le> 1114111" by linarith
  then show ?thesis
  proof cases
    case 2
    then have "2 \<le> r div 64" "r div 64 < 32" by simp_all
    with 2 show ?thesis by (simp add: encode_rune_def decode_rune_def cont_def m)
  next
    case 3
    have "r div 64 = 64 * (r div 4096) + r div 64 mod 64" using div_mult_mod_eq [of "r div 64" 64]
      by (simp add: div_mult2_eq [symmetric])
    moreover have "32 \<le> r div 64" "r < 55296 \<Longrightarrow> r div 64 < 864" "57343 < r \<Longrightarrow> 896 \<le> r div 64" "r div 4096 < 16"
      using 3(1,2) by simp_all
    ultimately have "r div 4096 = 0 \<longrightarrow> 32 \<le> r div 64 mod 64" "r div 4096 = 13 \<longrightarrow> r div 64 mod 64 \<le> 31"
      "r div 4096 = 0 \<longrightarrow> r div 64 \<le> 63" "r div 4096 < 16" using 3(3) m [of "r div 64"] by linarith+
    with 3 show ?thesis by (simp add: encode_rune_def decode_rune_def cont_def m)
  next
    case 5
    have "r div 4096 = 64 * (r div 262144) + r div 4096 mod 64" using div_mult_mod_eq [of "r div 4096" 64]
      by (simp add: div_mult2_eq [symmetric])
    moreover have "16 \<le> r div 4096" "r div 4096 < 272" using 5 by simp_all
    ultimately have "r div 262144 = 0 \<longrightarrow> 16 \<le> r div 4096 mod 64" "r div 262144 = 4 \<longrightarrow> r div 4096 mod 64 \<le> 15"
      "r div 262144 = 0 \<longrightarrow> r div 4096 \<le> 63" "r div 262144 \<le> 4" using m [of "r div 4096"] by linarith+
    with 5 show ?thesis by (simp add: encode_rune_def decode_rune_def cont_def m)
  qed (auto simp: encode_rune_def decode_rune_def cont_def m)
qed

lemma hex_char_ascii: "n < 16 \<Longrightarrow> (of_char (hex_char n) :: nat) < 128"
  by (simp add: hex_char_def)

lemma valid_escapes:
  "b < 256 \<Longrightarrow> valid_utf8 (x_escape b @ t) = valid_utf8 t" "r < 65536 \<Longrightarrow> valid_utf8 (u_escape r @ t) = valid_utf8 t"
  "valid_utf8 (long_escape r @ t) = valid_utf8 t"
  by (rule valid_ascii, simp add: x_escape_def u_escape_def long_escape_def hex_char_ascii)+

lemma valid_escaped_rune: "valid_utf8 (escaped_rune printable r @ t) = valid_utf8 t"
proof -
  have "valid_utf8 (CHR 0x5C # e # t) = valid_utf8 t" if "map_of control_escapes r = Some e" for e
    using map_of_SomeD [OF that] by (auto simp: control_escapes_def)
  then show ?thesis
    by (auto simp: escaped_rune_def valid_encode_rune valid_escapes split: option.split)
qed

lemma valid_quote: "valid_utf8 (quote_runes printable s @ t) = valid_utf8 t"
proof (induction printable s rule: quote_runes.induct)
  case (2 printable c cs)
  obtain r k where "decode_rune (of_char c) (map of_char cs) = (r, k)" by force
  with 2 show ?case by (cases "k = 0") (simp_all add: valid_escaped_rune valid_escapes)
qed simp

lemma valid_queries: "valid_utf8 (imageListQuery printable s)" "valid_utf8 (globalSearchQuery printable s)"
  unfolding imageListQuery_def globalSearchQuery_def strconv_Quote_def quoted_def
  by (simp_all add: valid_quote)

definition decode_search :: "string \<Rightarrow> string option" where
  "decode_search = json_Unmarshal (decode_object (decode_field ''query'' decode_string)) []"

lemma search_body_roundtrip: "valid_utf8 q \<Longrightarrow> decode_search (search_body q) = Some q"
proof -
  assume q: "valid_utf8 q"
  obtain d where d: "maxNestingDepth = Suc d" by (cases maxNestingDepth) (simp_all add: maxNestingDepth_def)
  have "plain maxNestingDepth (JObj [(''query'', JStr (json_escape q))])"
    unfolding d plain.simps by (simp add: clean_escape [OF q]) (simp add: clean_def short_escapes_def)
  from json_parse_print [OF this] show ?thesis
    using unquote_escape [OF q]
    by (simp add: decode_search_def search_body_def json_Unmarshal_def decode_object_def decode_field_def field_members_def
        ascii_lower_def decode_string_def)
qed

theorem search_carries_the_name:
  "\<exists>q. decode_search (search_body (imageListQuery printable name)) = Some q \<and>
     has_prefix q ''{ImageList(repo:'' \<and>
     scan_literal (drop (length ''{ImageList(repo:'' + 1) q) = Some (quote_runes printable name,
       drop (length (''{ImageList(repo:'' @ strconv_Quote printable name)) (imageListQuery printable name))"
  using search_body_roundtrip [OF valid_queries(1)] quote_is_one_literal [of printable name]
  by (simp add: imageListQuery_def strconv_Quote_def quoted_def)

end
