(* ===== verification/ZotClient.thy ===== *)
theory ZotClient
  imports UseCases Wrap Json Search "HOL-Library.AList"
begin

text \<open>
  The adapter to the engine (\<open>internal/clients/zot\<close>): Distribution API, search-extension queries,
  blob scope with its cache, and the re-homing of a repository. The HTTP exchange, the clock, the
  parser of RFC 3339 times and the table of printable runes are parameters. A request that cannot be
  built and one that cannot be sent are both an error of the exchange.
\<close>

section \<open>Messages\<close>

text \<open>The bodies the adapter sends: none, the raw bytes of a manifest with their Content-Type, or the
  JSON text of a search.\<close>

datatype request_body = NoBody | ManifestBody string string | SearchBody string

record zot_request =
  zr_Method :: string
  zr_Path :: string
  zr_Accept :: string
  zr_Body :: request_body

record zot_response =
  zs_StatusCode :: int
  zs_Digest :: string
  zs_ContentType :: string
  zs_Body :: string

record descriptor =
  ds_MediaType :: string
  ds_Digest :: string
  ds_Size :: int

record manifestBody =
  mb_Config :: descriptor
  mb_Layers :: "descriptor list"

record gqlPlatform =
  gp_Os :: string
  gp_Arch :: string

record gqlManifestSummary =
  gm_ArtifactType :: string
  gm_Platform :: gqlPlatform

record gqlImageSummary =
  gi_Tag :: string
  gi_Digest :: string
  gi_MediaType :: string
  gi_Size :: string
  gi_DownloadCount :: int
  gi_PushTimestamp :: string
  gi_LastPullTimestamp :: string
  gi_PushedBy :: string
  gi_Manifests :: "gqlManifestSummary list"

record gqlRepoSummary =
  gr_Name :: string
  gr_Size :: string
  gr_LastUpdated :: string
  gr_DownloadCount :: int

record ociDescriptor =
  od_Digest :: string
  od_MediaType :: string
  od_ArtifactType :: string
  od_Size :: int
  od_Annotations :: labels

section \<open>Decoding\<close>

text \<open>The structures by their fields. A body is decoded up to the end of its first value; a raw message
  is kept as the value it spells.\<close>

definition zero_descriptor :: descriptor where
  "zero_descriptor = \<lparr>ds_MediaType = [], ds_Digest = [], ds_Size = 0\<rparr>"

definition decode_descriptor :: "descriptor \<Rightarrow> (string \<times> json) list \<Rightarrow> descriptor option" where
  "decode_descriptor v ms = do {
     mediaType \<leftarrow> decode_field ''mediaType'' decode_string (ds_MediaType v) ms;
     digest \<leftarrow> decode_field ''digest'' decode_string (ds_Digest v) ms;
     size \<leftarrow> decode_field ''size'' decode_int64 (ds_Size v) ms;
     Some \<lparr>ds_MediaType = mediaType, ds_Digest = digest, ds_Size = size\<rparr> }"

definition decode_manifest_fields :: "manifestBody \<Rightarrow> (string \<times> json) list \<Rightarrow> manifestBody option" where
  "decode_manifest_fields v ms = do {
     config \<leftarrow> decode_field ''config'' (decode_object decode_descriptor) (mb_Config v) ms;
     layers \<leftarrow> decode_field ''layers'' (decode_slice (decode_object decode_descriptor) zero_descriptor) (mb_Layers v) ms;
     Some \<lparr>mb_Config = config, mb_Layers = layers\<rparr> }"

definition decodeManifest :: "string \<Rightarrow> manifestBody option" where
  "decodeManifest = json_Decode (decode_object decode_manifest_fields) \<lparr>mb_Config = zero_descriptor, mb_Layers = []\<rparr>"

definition decodeCatalog :: "string \<Rightarrow> string list option" where
  "decodeCatalog = json_Decode (decode_object (decode_field ''repositories'' (decode_slice decode_string []))) []"

definition decodeTags :: "string \<Rightarrow> string list option" where
  "decodeTags = (\<lambda>body. map_option snd (json_Decode (decode_object (\<lambda>(name, tags) ms. do {
       name \<leftarrow> decode_field ''name'' decode_string name ms;
       tags \<leftarrow> decode_field ''tags'' (decode_slice decode_string []) tags ms;
       Some (name, tags) })) ([], []) body))"

definition decode_oci :: "ociDescriptor \<Rightarrow> (string \<times> json) list \<Rightarrow> ociDescriptor option" where
  "decode_oci v ms = do {
     digest \<leftarrow> decode_field ''digest'' decode_string (od_Digest v) ms;
     mediaType \<leftarrow> decode_field ''mediaType'' decode_string (od_MediaType v) ms;
     artifactType \<leftarrow> decode_field ''artifactType'' decode_string (od_ArtifactType v) ms;
     size \<leftarrow> decode_field ''size'' decode_int64 (od_Size v) ms;
     annotations \<leftarrow> decode_field ''annotations'' decode_labels (od_Annotations v) ms;
     Some \<lparr>od_Digest = digest, od_MediaType = mediaType, od_ArtifactType = artifactType, od_Size = size,
       od_Annotations = annotations\<rparr> }"

definition decodeReferrers :: "string \<Rightarrow> ociDescriptor list option" where
  "decodeReferrers = json_Decode (decode_object (decode_field ''manifests'' (decode_slice (decode_object decode_oci)
     \<lparr>od_Digest = [], od_MediaType = [], od_ArtifactType = [], od_Size = 0, od_Annotations = []\<rparr>))) []"

text \<open>The envelope of a search answer: the data, if there are any, and the messages of the errors.\<close>

definition decodeEnvelope :: "string \<Rightarrow> (json option \<times> string list) option" where
  "decodeEnvelope = json_Decode (decode_object (\<lambda>(data, errors) ms. do {
     data \<leftarrow> decode_field ''data'' (\<lambda>_ j. Some (Some j)) data ms;
     errors \<leftarrow> decode_field ''errors'' (decode_slice (decode_object (decode_field ''message'' decode_string)) []) errors ms;
     Some (data, errors) })) (None, [])"

definition decode_platform :: "gqlPlatform \<Rightarrow> (string \<times> json) list \<Rightarrow> gqlPlatform option" where
  "decode_platform v ms = do {
     os \<leftarrow> decode_field ''Os'' decode_string (gp_Os v) ms;
     arch \<leftarrow> decode_field ''Arch'' decode_string (gp_Arch v) ms;
     Some \<lparr>gp_Os = os, gp_Arch = arch\<rparr> }"

definition zero_platform :: gqlPlatform where
  "zero_platform = \<lparr>gp_Os = [], gp_Arch = []\<rparr>"

definition decode_summary :: "gqlManifestSummary \<Rightarrow> (string \<times> json) list \<Rightarrow> gqlManifestSummary option" where
  "decode_summary v ms = do {
     artifactType \<leftarrow> decode_field ''ArtifactType'' decode_string (gm_ArtifactType v) ms;
     platform \<leftarrow> decode_field ''Platform'' (decode_object decode_platform) (gm_Platform v) ms;
     Some \<lparr>gm_ArtifactType = artifactType, gm_Platform = platform\<rparr> }"

definition decode_image :: "gqlImageSummary \<Rightarrow> (string \<times> json) list \<Rightarrow> gqlImageSummary option" where
  "decode_image v ms = do {
     tag \<leftarrow> decode_field ''Tag'' decode_string (gi_Tag v) ms;
     digest \<leftarrow> decode_field ''Digest'' decode_string (gi_Digest v) ms;
     mediaType \<leftarrow> decode_field ''MediaType'' decode_string (gi_MediaType v) ms;
     size \<leftarrow> decode_field ''Size'' decode_string (gi_Size v) ms;
     downloads \<leftarrow> decode_field ''DownloadCount'' decode_int64 (gi_DownloadCount v) ms;
     push \<leftarrow> decode_field ''PushTimestamp'' decode_string (gi_PushTimestamp v) ms;
     pull \<leftarrow> decode_field ''LastPullTimestamp'' decode_string (gi_LastPullTimestamp v) ms;
     pushedBy \<leftarrow> decode_field ''PushedBy'' decode_string (gi_PushedBy v) ms;
     manifests \<leftarrow> decode_field ''Manifests'' (decode_slice (decode_object decode_summary)
       \<lparr>gm_ArtifactType = [], gm_Platform = zero_platform\<rparr>) (gi_Manifests v) ms;
     Some \<lparr>gi_Tag = tag, gi_Digest = digest, gi_MediaType = mediaType, gi_Size = size, gi_DownloadCount = downloads,
       gi_PushTimestamp = push, gi_LastPullTimestamp = pull, gi_PushedBy = pushedBy, gi_Manifests = manifests\<rparr> }"

definition zero_image :: gqlImageSummary where
  "zero_image = \<lparr>gi_Tag = [], gi_Digest = [], gi_MediaType = [], gi_Size = [], gi_DownloadCount = 0,
     gi_PushTimestamp = [], gi_LastPullTimestamp = [], gi_PushedBy = [], gi_Manifests = []\<rparr>"

definition decode_images :: "json \<Rightarrow> gqlImageSummary list option" where
  "decode_images = decode_object (decode_field ''ImageList'' (decode_object
     (decode_field ''Results'' (decode_slice (decode_object decode_image) zero_image)))) []"

definition decode_repo :: "gqlRepoSummary \<Rightarrow> (string \<times> json) list \<Rightarrow> gqlRepoSummary option" where
  "decode_repo v ms = do {
     name \<leftarrow> decode_field ''Name'' decode_string (gr_Name v) ms;
     size \<leftarrow> decode_field ''Size'' decode_string (gr_Size v) ms;
     updated \<leftarrow> decode_field ''LastUpdated'' decode_string (gr_LastUpdated v) ms;
     downloads \<leftarrow> decode_field ''DownloadCount'' decode_int64 (gr_DownloadCount v) ms;
     Some \<lparr>gr_Name = name, gr_Size = size, gr_LastUpdated = updated, gr_DownloadCount = downloads\<rparr> }"

definition decode_repos :: "json \<Rightarrow> gqlRepoSummary list option" where
  "decode_repos = decode_object (decode_field ''GlobalSearch'' (decode_object
     (decode_field ''Repos'' (decode_slice (decode_object decode_repo)
       \<lparr>gr_Name = [], gr_Size = [], gr_LastUpdated = [], gr_DownloadCount = 0\<rparr>)))) []"

text \<open>\<open>time.Parse(time.RFC3339, s)\<close>: the instant and its year.\<close>

type_synonym time_parser = "string \<Rightarrow> (time \<times> int) option"

section \<open>The client\<close>

record membershipEntry =
  me_inRepo :: bool
  me_expires :: time

text \<open>The state: the membership cache, in the order in which a map iteration visits it, and the world
  outside. \<open>c_started\<close> tells how many of the fetches of a scan the scheduler had started when the scan
  stopped.\<close>

record 'w zstate =
  zc_entries :: "(string \<times> membershipEntry) list"
  zc_world :: 'w

record 'w zclient =
  c_baseURL :: string
  c_corelib :: corelib
  c_RFC3339 :: time_parser
  c_IsPrint :: "nat \<Rightarrow> bool"
  c_Do :: "zot_request \<Rightarrow> ('w zstate, gerror + zot_response) state"
  c_now :: "('w zstate, time) state"
  c_started :: "string list \<Rightarrow> ('w zstate, nat) state"
  c_cacheTTL :: int
  c_cacheMax :: nat

definition blobCacheTTL :: int where "blobCacheTTL = 60 * 1000000000"
definition blobCacheMaxEntries :: nat where "blobCacheMaxEntries = 8192"

text \<open>\<open>New\<close>: slashes at the end of the base URL are dropped.\<close>

definition New_zclient :: "string \<Rightarrow> corelib \<Rightarrow> time_parser \<Rightarrow> (nat \<Rightarrow> bool) \<Rightarrow> (zot_request \<Rightarrow> ('w zstate, gerror + zot_response) state) \<Rightarrow>
    ('w zstate, time) state \<Rightarrow> (string list \<Rightarrow> ('w zstate, nat) state) \<Rightarrow> 'w zclient" where
  "New_zclient baseURL L d printable fetch now started = \<lparr>c_baseURL = rev (dropWhile (\<lambda>c. c = CHR ''/'') (rev baseURL)),
     c_corelib = L, c_RFC3339 = d, c_IsPrint = printable, c_Do = fetch, c_now = now, c_started = started,
     c_cacheTTL = blobCacheTTL, c_cacheMax = blobCacheMaxEntries\<rparr>"

definition zot_ready :: "'w zclient \<Rightarrow> gerror option" where
  "zot_ready c = (if c_baseURL c = [] then Some (bare ErrUnavailable) else None)"

definition zot_failClosed :: gerror where
  "zot_failClosed = bare ErrUnavailable"

definition errNotFound :: gerror where
  "errNotFound = Raw ''zot: not found''"

text \<open>Every operation starts with \<open>ready\<close>.\<close>

definition when_ready :: "'w zclient \<Rightarrow> ('w zstate, gerror + 'a) state \<Rightarrow> ('w zstate, gerror + 'a) state" where
  "when_ready c m = andThen (guard_ok (zot_ready c)) (\<lambda>_. m)"

section \<open>HTTP helpers\<close>

definition maxManifestBytes :: nat where "maxManifestBytes = 16777216"
definition maxJSONBytes :: nat where "maxJSONBytes = 16777216"
definition maxGraphQLBytes :: nat where "maxGraphQLBytes = 16777216"

definition repoPath :: "string \<Rightarrow> string" where
  "repoPath fullRepo = join_with CHR ''/'' (map path_escape (split_on CHR ''/'' fullRepo))"

definition is_2xx :: "int \<Rightarrow> bool" where
  "is_2xx n \<longleftrightarrow> \<not> (n < 200 \<or> n \<ge> 300)"

text \<open>One exchange whose answer is a 2xx response; \<open>absent\<close> is the error of a 404.\<close>

definition exchange :: "'w zclient \<Rightarrow> gerror \<Rightarrow> zot_request \<Rightarrow> ('w zstate, gerror + zot_response) state" where
  "exchange c absent r = do {
     resp \<leftarrow> c_Do c (r\<lparr>zr_Path := c_baseURL c @ zr_Path r\<rparr>);
     State_Monad.return (case resp of
         Inl e \<Rightarrow> Inl zot_failClosed
       | Inr resp \<Rightarrow> if zs_StatusCode resp = 404 then Inl absent
           else if \<not> is_2xx (zs_StatusCode resp) then Inl zot_failClosed else Inr resp) }"

definition decodeJSONBody :: "(string \<Rightarrow> 'a option) \<Rightarrow> nat \<Rightarrow> string \<Rightarrow> gerror + 'a" where
  "decodeJSONBody decode limit body = (case decode (take limit body) of None \<Rightarrow> Inl zot_failClosed | Some a \<Rightarrow> Inr a)"

definition acceptManifests :: string where
  "acceptManifests = ''application/vnd.oci.image.manifest.v1+json,'' @
     ''application/vnd.docker.distribution.manifest.v2+json,'' @
     ''application/vnd.oci.image.index.v1+json,'' @
     ''application/vnd.docker.distribution.manifest.list.v2+json''"

definition acceptJSON :: string where
  "acceptJSON = ''application/json''"

text \<open>A request without an Accept header has the empty one.\<close>

definition zot_do :: "'w zclient \<Rightarrow> string \<Rightarrow> string \<Rightarrow> string \<Rightarrow> ('w zstate, gerror + zot_response) state" where
  "zot_do c meth path accept =
     exchange c errNotFound \<lparr>zr_Method = meth, zr_Path = path, zr_Accept = accept, zr_Body = NoBody\<rparr>"

definition getJSON :: "'w zclient \<Rightarrow> (string \<Rightarrow> 'a option) \<Rightarrow> string \<Rightarrow> ('w zstate, gerror + 'a) state" where
  "getJSON c decode path = andThen (zot_do c ''GET'' path acceptJSON)
     (\<lambda>resp. State_Monad.return (decodeJSONBody decode maxJSONBytes (zs_Body resp)))"

definition manifest_path :: "string \<Rightarrow> string \<Rightarrow> string" where
  "manifest_path fullRepo ref = ''/v2/'' @ repoPath fullRepo @ ''/manifests/'' @ path_escape ref"

definition headManifest :: "'w zclient \<Rightarrow> string \<Rightarrow> string \<Rightarrow> ('w zstate, gerror + string) state" where
  "headManifest c fullRepo ref = andThen (zot_do c ''HEAD'' (manifest_path fullRepo ref) acceptManifests)
     (\<lambda>resp. State_Monad.return (Inr (zs_Digest resp)))"

definition getManifest :: "'w zclient \<Rightarrow> string \<Rightarrow> string \<Rightarrow> ('w zstate, gerror + manifestBody) state" where
  "getManifest c fullRepo ref = andThen (zot_do c ''GET'' (manifest_path fullRepo ref) acceptManifests)
     (\<lambda>resp. State_Monad.return (decodeJSONBody decodeManifest maxManifestBytes (zs_Body resp)))"

section \<open>Distribution API\<close>

definition namespaceRepos :: "'w zclient \<Rightarrow> string \<Rightarrow> ('w zstate, gerror + string list) state" where
  "namespaceRepos c registryID = andThen (getJSON c decodeCatalog ''/v2/_catalog'')
     (\<lambda>names. State_Monad.return (Inr (sort (filter (\<lambda>name. has_prefix name (registryID @ ''/'')) names))))"

definition repoTags :: "'w zclient \<Rightarrow> string \<Rightarrow> ('w zstate, gerror + string list) state" where
  "repoTags c fullRepo = do {
     r \<leftarrow> getJSON c decodeTags (''/v2/'' @ repoPath fullRepo @ ''/tags/list'');
     State_Monad.return (case r of
         Inl e \<Rightarrow> if e = errNotFound then Inr [] else Inl e
       | Inr tags \<Rightarrow> Inr (sort tags)) }"

definition zot_DeleteTag :: "'w zclient \<Rightarrow> string \<Rightarrow> string \<Rightarrow> string \<Rightarrow> ('w zstate, gerror + unit) state" where
  "zot_DeleteTag c registryID repository tag = when_ready c (do {
     d \<leftarrow> headManifest c (registryID @ ''/'' @ repository) tag;
     (case d of
        Inl e \<Rightarrow> State_Monad.return (if e = errNotFound then Inr () else Inl e)
      | Inr digest \<Rightarrow> do {
          r \<leftarrow> zot_do c ''DELETE'' (''/v2/'' @ repoPath (registryID @ ''/'' @ repository) @ ''/manifests/'' @ digest) [];
          State_Monad.return (case r of
              Inl e \<Rightarrow> if e = errNotFound then Inr () else Inl e
            | Inr resp \<Rightarrow> Inr ()) }) })"

definition zot_NamespaceEmpty :: "'w zclient \<Rightarrow> string \<Rightarrow> ('w zstate, gerror + bool) state" where
  "zot_NamespaceEmpty c registryID = when_ready c (andThen (namespaceRepos c registryID)
     (\<lambda>repos. State_Monad.return (Inr (length repos = 0))))"

definition zot_RemoveNamespace :: "'w zclient \<Rightarrow> string \<Rightarrow> ('w zstate, gerror + unit) state" where
  "zot_RemoveNamespace c registryID = when_ready c (andThen (zot_NamespaceEmpty c registryID)
     (\<lambda>emp. State_Monad.return (if \<not> emp then Inl (bare ErrFailedPrecondition) else Inr ())))"

definition zot_TriggerGC :: "'w zclient \<Rightarrow> string \<Rightarrow> ('w zstate, gerror + unit) state" where
  "zot_TriggerGC c registryID = when_ready c (andThen (zot_do c ''GET'' ''/v2/'' []) (\<lambda>_. State_Monad.return (Inr ())))"

text \<open>\<open>Stats\<close>: the tags of every repository, then the manifests of every tag; a manifest that cannot be
  read is left out.\<close>

fun stats_pairs :: "'w zclient \<Rightarrow> string list \<Rightarrow> ('w zstate, gerror + (string \<times> string) list) state" where
  "stats_pairs c [] = State_Monad.return (Inr [])"
| "stats_pairs c (full # rest) = do {
     r \<leftarrow> repoTags c full;
     rs \<leftarrow> stats_pairs c rest;
     State_Monad.return (case (r, rs) of (Inl e, _) \<Rightarrow> Inl e | (_, Inl e) \<Rightarrow> Inl e
       | (Inr tags, Inr ps) \<Rightarrow> Inr (map (Pair full) tags @ ps)) }"

definition manifest_blobs :: "manifestBody \<Rightarrow> (string \<times> int) list" where
  "manifest_blobs mb = filter (\<lambda>(d, n). d \<noteq> []) (map (\<lambda>x. (ds_Digest x, ds_Size x)) (mb_Config mb # mb_Layers mb))"

fun stats_blobs :: "'w zclient \<Rightarrow> (string \<times> string) list \<Rightarrow> (string \<times> int) list \<Rightarrow> ('w zstate, (string \<times> int) list) state" where
  "stats_blobs c [] acc = State_Monad.return acc"
| "stats_blobs c ((full, tag) # ps) acc = do {
     r \<leftarrow> getManifest c full tag;
     stats_blobs c ps (case r of Inl e \<Rightarrow> acc | Inr mb \<Rightarrow> foldl (\<lambda>m (d, n). AList.update d n m) acc (manifest_blobs mb)) }"

definition zot_Stats :: "'w zclient \<Rightarrow> string \<Rightarrow> ('w zstate, gerror + registry_stats) state" where
  "zot_Stats c registryID = when_ready c (
     andThen (namespaceRepos c registryID) (\<lambda>fullNames.
     andThen (stats_pairs c fullNames) (\<lambda>pairs. do {
       blobs \<leftarrow> stats_blobs c pairs [];
       State_Monad.return (Inr \<lparr>s_registry_id = registryID,
         s_repository_count = wrap32 (int (length fullNames)), s_tag_count = wrap32 (int (length pairs)),
         s_total_size_bytes = wrap64 (sum_list (map snd blobs)), s_blob_count = int (length blobs)\<rparr>) })))"

section \<open>The search extension\<close>

text \<open>\<open>gqlQuery\<close>: a 404 is an error like any other here; the envelope must carry no errors.\<close>

definition decodeGraphQL :: "(json \<Rightarrow> 'a option) \<Rightarrow> nat \<Rightarrow> string \<Rightarrow> gerror + 'a" where
  "decodeGraphQL unmarshal limit body = (case decodeEnvelope (take limit body) of
       None \<Rightarrow> Inl zot_failClosed
     | Some (data, errors) \<Rightarrow> if length errors > 0 then Inl zot_failClosed
         else (case Option.bind data unmarshal of None \<Rightarrow> Inl zot_failClosed | Some a \<Rightarrow> Inr a))"

definition gqlQuery :: "'w zclient \<Rightarrow> string \<Rightarrow> (json \<Rightarrow> 'a option) \<Rightarrow> ('w zstate, gerror + 'a) state" where
  "gqlQuery c q unmarshal =
     andThen (exchange c zot_failClosed \<lparr>zr_Method = ''POST'', zr_Path = ''/v2/_zot/ext/search'',
         zr_Accept = acceptJSON, zr_Body = SearchBody (search_body q)\<rparr>)
       (\<lambda>resp. State_Monad.return (decodeGraphQL unmarshal maxGraphQLBytes (zs_Body resp)))"

definition parseZotTS :: "time_parser \<Rightarrow> string \<Rightarrow> time" where
  "parseZotTS d s = (case d s of None \<Rightarrow> 0 | Some (t, year) \<Rightarrow> if year \<le> 1970 then 0 else t)"

definition parseInt64 :: "string \<Rightarrow> int" where
  "parseInt64 s = (case atoi s of None \<Rightarrow> 0 | Some n \<Rightarrow> n)"

definition classifyTag :: "gqlImageSummary \<Rightarrow> int" where
  "classifyTag m = ClassifyArtifact (case gi_Manifests m of [] \<Rightarrow> [] | x # _ \<Rightarrow> gm_ArtifactType x) (gi_MediaType m)"

text \<open>The distinct artifact types in the order of their first tag.\<close>

fun artifact_types :: "gqlImageSummary list \<Rightarrow> int list \<Rightarrow> int list" where
  "artifact_types [] seen = seen"
| "artifact_types (r # rs) seen =
     (let k = classifyTag r in
      artifact_types rs (if k \<noteq> ArtifactTypeUnspecified \<and> k \<notin> set seen then seen @ [k] else seen))"

definition latest :: "time list \<Rightarrow> time" where
  "latest ts = foldl (\<lambda>m t. if t > m then t else m) 0 ts"

definition sum64 :: "int list \<Rightarrow> int" where
  "sum64 ns = foldl (\<lambda>s n. wrap64 (s + n)) 0 ns"

definition repositoryFromSummaries :: "time_parser \<Rightarrow> string \<Rightarrow> string \<Rightarrow> gqlRepoSummary \<Rightarrow> gqlImageSummary list \<Rightarrow> repository" where
  "repositoryFromSummaries d registryID name rs results =
     (let types = artifact_types results [];
          updated = parseZotTS d (gr_LastUpdated rs);
          sz = parseInt64 (gr_Size rs) in
      \<lparr>p_registry_id = registryID, p_name = name, p_description = [], p_labels = [], p_visibility = 0,
       p_created_at = 0, p_tag_count = wrap32 (int (length results)),
       p_size_bytes = (if sz = 0 then sum64 (map (\<lambda>r. parseInt64 (gi_Size r)) results) else sz),
       p_updated_at = (if updated = 0 then latest (map (\<lambda>r. parseZotTS d (gi_PushTimestamp r)) results) else updated),
       p_artifact_type = (case types of [] \<Rightarrow> ArtifactTypeUnspecified | k # _ \<Rightarrow> k), p_artifact_types = types,
       p_last_pulled_at = latest (map (\<lambda>r. parseZotTS d (gi_LastPullTimestamp r)) results),
       p_download_count = (if gr_DownloadCount rs = 0 then sum64 (map gi_DownloadCount results) else gr_DownloadCount rs)\<rparr>)"

definition no_summary :: gqlRepoSummary where
  "no_summary = \<lparr>gr_Name = [], gr_Size = [], gr_LastUpdated = [], gr_DownloadCount = 0\<rparr>"

text \<open>The image list of every repository of the window; a repository without tags is hidden.\<close>

fun window_rows :: "'w zclient \<Rightarrow> string \<Rightarrow> gqlRepoSummary list \<Rightarrow> ('w zstate, gerror + repository list) state" where
  "window_rows c registryID [] = State_Monad.return (Inr [])"
| "window_rows c registryID (rs # rest) = do {
     r \<leftarrow> gqlQuery c (imageListQuery (c_IsPrint c) (gr_Name rs)) decode_images;
     rows \<leftarrow> window_rows c registryID rest;
     State_Monad.return (case (r, rows) of (Inl e, _) \<Rightarrow> Inl e | (_, Inl e) \<Rightarrow> Inl e
       | (Inr results, Inr out) \<Rightarrow> if length results = 0 then Inr out
           else Inr (repositoryFromSummaries (c_RFC3339 c) registryID
             (trim_prefix (gr_Name rs) (registryID @ ''/'')) rs results # out)) }"

definition zot_ListRepositories :: "'w zclient \<Rightarrow> repo_list_query \<Rightarrow> ('w zstate, gerror + repository list \<times> string) state" where
  "zot_ListRepositories c q = when_ready c (
     let prefix = rq_RegistryID q @ ''/'' in
     andThen (gqlQuery c (globalSearchQuery (c_IsPrint c) prefix) decode_repos) (\<lambda>repos.
     andThen (State_Monad.return (WindowByOffset (c_corelib c)
         (sort_key gr_Name (filter (\<lambda>rs. has_prefix (gr_Name rs) prefix) repos)) (rq_PageSize q) (rq_PageToken q))) (\<lambda>page.
     andThen (window_rows c (rq_RegistryID q) (fst page)) (\<lambda>rows.
     State_Monad.return (Inr (rows, snd page))))))"

definition platformString :: "string \<Rightarrow> string \<Rightarrow> string" where
  "platformString os arch = (if os \<noteq> [] \<and> arch \<noteq> [] then os @ ''/'' @ arch
     else if arch \<noteq> [] then arch else if os \<noteq> [] then os else [])"

definition tagFromSummary :: "time_parser \<Rightarrow> string \<Rightarrow> string \<Rightarrow> gqlImageSummary \<Rightarrow> tag" where
  "tagFromSummary d registryID repository s =
     \<lparr>t_registry_id = registryID, t_repository = repository, t_tag = gi_Tag s, t_digest = gi_Digest s,
      t_size_bytes = parseInt64 (gi_Size s), t_media_type = gi_MediaType s,
      t_created_at = parseZotTS d (gi_PushTimestamp s),
      t_architecture = (case gi_Manifests s of [] \<Rightarrow> [] | [x] \<Rightarrow> platformString (gp_Os (gm_Platform x)) (gp_Arch (gm_Platform x))
        | _ \<Rightarrow> ''multi-arch''),
      t_last_pulled_at = parseZotTS d (gi_LastPullTimestamp s), t_pushed_by = gi_PushedBy s,
      t_download_count = gi_DownloadCount s\<rparr>"

definition zot_ListTags :: "'w zclient \<Rightarrow> tag_list_query \<Rightarrow> ('w zstate, gerror + tag list \<times> string) state" where
  "zot_ListTags c q = when_ready c (
     andThen (gqlQuery c (imageListQuery (c_IsPrint c) (tq_RegistryID q @ ''/'' @ tq_Repository q)) decode_images) (\<lambda>results.
     andThen (State_Monad.return (Window (c_corelib c) gi_Tag (sort_key gi_Tag results) (tq_PageSize q) (tq_PageToken q))) (\<lambda>page.
     State_Monad.return (Inr (map (tagFromSummary (c_RFC3339 c) (tq_RegistryID q) (tq_Repository q)) (fst page), snd page)))))"

section \<open>Overlay operations\<close>

definition zot_RepositoryProjection :: "'w zclient \<Rightarrow> string \<Rightarrow> string \<Rightarrow> ('w zstate, gerror + repository option) state" where
  "zot_RepositoryProjection c registryID repository = when_ready c (
     andThen (gqlQuery c (imageListQuery (c_IsPrint c) (registryID @ ''/'' @ repository)) decode_images) (\<lambda>results.
     State_Monad.return (Inr (if length results = 0 then None
       else Some (repositoryFromSummaries (c_RFC3339 c) registryID repository no_summary results)))))"

definition zot_RepositoryEmpty :: "'w zclient \<Rightarrow> string \<Rightarrow> string \<Rightarrow> ('w zstate, gerror + bool) state" where
  "zot_RepositoryEmpty c registryID repository = when_ready c (
     andThen (repoTags c (registryID @ ''/'' @ repository)) (\<lambda>tags. State_Monad.return (Inr (length tags = 0))))"

definition referrerCreatedAt :: "time_parser \<Rightarrow> labels \<Rightarrow> time" where
  "referrerCreatedAt d annotations = parseZotTS d (case map_of annotations ''org.opencontainers.image.created'' of
     None \<Rightarrow> [] | Some v \<Rightarrow> v)"

definition zot_ListReferrers :: "'w zclient \<Rightarrow> string \<Rightarrow> string \<Rightarrow> string \<Rightarrow> string \<Rightarrow> ('w zstate, gerror + referrer list) state" where
  "zot_ListReferrers c registryID repository subjectDigest artifactType = when_ready c (do {
     r \<leftarrow> getJSON c decodeReferrers
       (''/v2/'' @ repoPath (registryID @ ''/'' @ repository) @ ''/referrers/'' @ path_escape subjectDigest @
        (if artifactType \<noteq> [] then ''?artifactType='' @ query_escape artifactType else []));
     State_Monad.return (case r of
         Inl e \<Rightarrow> if e = errNotFound then Inr [] else Inl e
       | Inr manifests \<Rightarrow> Inr (map (\<lambda>m.
           \<lparr>f_registry_id = registryID, f_repository = repository, f_subject_digest = subjectDigest,
            f_digest = od_Digest m, f_artifact_type = od_ArtifactType m, f_size_bytes = od_Size m,
            f_annotations = od_Annotations m, f_created_at = referrerCreatedAt (c_RFC3339 c) (od_Annotations m)\<rparr>)
           (filter (\<lambda>m. \<not> (artifactType \<noteq> [] \<and> od_ArtifactType m \<noteq> artifactType)) manifests))) })"

definition rawManifest :: "'w zclient \<Rightarrow> string \<Rightarrow> string \<Rightarrow> ('w zstate, gerror + string \<times> string) state" where
  "rawManifest c fullRepo ref =
     andThen (exchange c zot_failClosed \<lparr>zr_Method = ''GET'', zr_Path = manifest_path fullRepo ref,
         zr_Accept = acceptManifests, zr_Body = NoBody\<rparr>)
       (\<lambda>resp. State_Monad.return (Inr (take maxManifestBytes (zs_Body resp), zs_ContentType resp)))"

definition putManifest :: "'w zclient \<Rightarrow> string \<Rightarrow> string \<Rightarrow> string \<Rightarrow> string \<Rightarrow> ('w zstate, gerror + unit) state" where
  "putManifest c fullRepo ref raw contentType =
     andThen (exchange c zot_failClosed \<lparr>zr_Method = ''PUT'', zr_Path = manifest_path fullRepo ref,
         zr_Accept = [], zr_Body = ManifestBody (if contentType = [] then ''application/vnd.oci.image.manifest.v1+json'' else contentType) raw\<rparr>)
       (\<lambda>_. State_Monad.return (Inr ()))"

text \<open>\<open>RenameRepository\<close>: first every tag is copied, then every tag of the old name is deleted.\<close>

fun copy_tags :: "'w zclient \<Rightarrow> string \<Rightarrow> string \<Rightarrow> string list \<Rightarrow> ('w zstate, gerror + unit) state" where
  "copy_tags c oldRepo newRepo [] = State_Monad.return (Inr ())"
| "copy_tags c oldRepo newRepo (tag # tags) =
     andThen (rawManifest c oldRepo tag) (\<lambda>m.
     andThen (putManifest c newRepo tag (fst m) (snd m)) (\<lambda>_. copy_tags c oldRepo newRepo tags))"

fun delete_tags :: "'w zclient \<Rightarrow> string \<Rightarrow> string \<Rightarrow> string list \<Rightarrow> ('w zstate, gerror + unit) state" where
  "delete_tags c registryID repo [] = State_Monad.return (Inr ())"
| "delete_tags c registryID repo (tag # tags) =
     andThen (zot_DeleteTag c registryID repo tag) (\<lambda>_. delete_tags c registryID repo tags)"

definition zot_RenameRepository :: "'w zclient \<Rightarrow> string \<Rightarrow> string \<Rightarrow> string \<Rightarrow> ('w zstate, gerror + unit) state" where
  "zot_RenameRepository c registryID oldName newName = when_ready c (
     andThen (repoTags c (registryID @ ''/'' @ oldName)) (\<lambda>tags.
     andThen (copy_tags c (registryID @ ''/'' @ oldName) (registryID @ ''/'' @ newName) tags) (\<lambda>_.
     delete_tags c registryID oldName tags)))"

section \<open>The data plane's backend\<close>

definition zot_RepoExists :: "'w zclient \<Rightarrow> string \<Rightarrow> string \<Rightarrow> ('w zstate, gerror + bool) state" where
  "zot_RepoExists c registryID repo = when_ready c (
     andThen (repoTags c (registryID @ ''/'' @ repo)) (\<lambda>tags. State_Monad.return (Inr (length tags > 0))))"

definition zot_CatalogRepoNames :: "'w zclient \<Rightarrow> ('w zstate, gerror + string list) state" where
  "zot_CatalogRepoNames c = when_ready c (
     andThen (getJSON c decodeCatalog ''/v2/_catalog'') (\<lambda>names. State_Monad.return (Inr (sort names))))"

definition manifestHasDigest :: "manifestBody \<Rightarrow> string \<Rightarrow> bool" where
  "manifestHasDigest mb digest \<longleftrightarrow> ds_Digest (mb_Config mb) = digest \<or> list_ex (\<lambda>l. ds_Digest l = digest) (mb_Layers mb)"

definition blobScopeVerdict :: "bool \<Rightarrow> gerror option \<Rightarrow> bool \<Rightarrow> (gerror + bool) \<times> bool" where
  "blobScopeVerdict found werr scannedAll =
     (if found then (Inr True, True)
      else case werr of Some e \<Rightarrow> (Inl e, False)
      | None \<Rightarrow> if \<not> scannedAll then (Inl (bare ErrUnavailable), False) else (Inr False, True))"

definition blobCacheKey :: "string \<Rightarrow> string \<Rightarrow> string \<Rightarrow> string" where
  "blobCacheKey registryID repo digest = registryID @ ''/'' @ repo @ ''|'' @ digest"

definition cache_get :: "'w zclient \<Rightarrow> string \<Rightarrow> ('w zstate, bool option) state" where
  "cache_get c key = do {
     s \<leftarrow> State_Monad.get;
     (case map_of (zc_entries s) key of
        None \<Rightarrow> State_Monad.return None
      | Some e \<Rightarrow> do {
          now \<leftarrow> c_now c;
          if \<not> now < me_expires e
          then do { State_Monad.update (\<lambda>s. s\<lparr>zc_entries := AList.delete key (zc_entries s)\<rparr>); State_Monad.return None }
          else State_Monad.return (Some (me_inRepo e)) }) }"

text \<open>At the limit the expired entries go first, then others in iteration order.\<close>

definition evict :: "nat \<Rightarrow> time \<Rightarrow> (string \<times> membershipEntry) list \<Rightarrow> (string \<times> membershipEntry) list" where
  "evict maxSize now entries =
     (if length entries \<ge> maxSize then
        (let live = filter (\<lambda>(k, e). now < me_expires e) entries in
         if length live \<ge> maxSize then drop (length live - (maxSize - 1)) live else live)
      else entries)"

definition cache_set :: "'w zclient \<Rightarrow> string \<Rightarrow> bool \<Rightarrow> ('w zstate, unit) state" where
  "cache_set c key inRepo = do {
     now \<leftarrow> c_now c;
     State_Monad.update (\<lambda>s. s\<lparr>zc_entries := AList.update key \<lparr>me_inRepo = inRepo, me_expires = now + c_cacheTTL c\<rparr>
       (evict (c_cacheMax c) now (zc_entries s))\<rparr>) }"

text \<open>The fetches that were started: whether one found the digest, and the first error. A tag that has
  gone meanwhile is passed over.\<close>

fun scan_tags :: "'w zclient \<Rightarrow> string \<Rightarrow> string \<Rightarrow> string list \<Rightarrow> ('w zstate, bool \<times> gerror option) state" where
  "scan_tags c fullRepo digest [] = State_Monad.return (False, None)"
| "scan_tags c fullRepo digest (tag # tags) = do {
     r \<leftarrow> getManifest c fullRepo tag;
     rest \<leftarrow> scan_tags c fullRepo digest tags;
     State_Monad.return (case r of
         Inl e \<Rightarrow> if e = errNotFound then rest else (fst rest, Some e)
       | Inr mb \<Rightarrow> (manifestHasDigest mb digest \<or> fst rest, snd rest)) }"

definition zot_BlobInRepo :: "'w zclient \<Rightarrow> string \<Rightarrow> string \<Rightarrow> string \<Rightarrow> ('w zstate, gerror + bool) state" where
  "zot_BlobInRepo c registryID repo digest = when_ready c (do {
     hit \<leftarrow> cache_get c (blobCacheKey registryID repo digest);
     (case hit of
        Some inRepo \<Rightarrow> State_Monad.return (Inr inRepo)
      | None \<Rightarrow> andThen (repoTags c (registryID @ ''/'' @ repo)) (\<lambda>tags. do {
          started \<leftarrow> c_started c tags;
          outcome \<leftarrow> scan_tags c (registryID @ ''/'' @ repo) digest (take started tags);
          (case blobScopeVerdict (fst outcome) (snd outcome) (length tags \<le> started) of (verdict, cacheable) \<Rightarrow>
             do { (if cacheable then cache_set c (blobCacheKey registryID repo digest) (fst outcome)
                   else State_Monad.return ());
                  State_Monad.return verdict }) })) })"

section \<open>The ports of the use cases\<close>

definition on_ext :: "('x, 'a) state \<Rightarrow> ('x env, 'a) state" where
  "on_ext m = State (\<lambda>e. case run_state m (e_ext e) of (a, x) \<Rightarrow> (a, e\<lparr>e_ext := x\<rparr>))"

definition zot_port :: "'w zclient \<Rightarrow> 'w zstate zot_client" where
  "zot_port c = \<lparr>z_ListRepositories = \<lambda>q. on_ext (zot_ListRepositories c q),
     z_ListTags = \<lambda>q. on_ext (zot_ListTags c q),
     z_DeleteTag = \<lambda>reg repo tag. on_ext (zot_DeleteTag c reg repo tag),
     z_NamespaceEmpty = \<lambda>reg. on_ext (zot_NamespaceEmpty c reg),
     z_RemoveNamespace = \<lambda>reg. on_ext (zot_RemoveNamespace c reg),
     z_TriggerGC = \<lambda>reg. on_ext (zot_TriggerGC c reg),
     z_Stats = \<lambda>reg. on_ext (zot_Stats c reg),
     z_RepositoryProjection = \<lambda>reg repo. on_ext (zot_RepositoryProjection c reg repo),
     z_RepositoryEmpty = \<lambda>reg repo. on_ext (zot_RepositoryEmpty c reg repo),
     z_RenameRepository = \<lambda>reg old new. on_ext (zot_RenameRepository c reg old new),
     z_ListReferrers = \<lambda>reg repo digest t. on_ext (zot_ListReferrers c reg repo digest t)\<rparr>"

end
