(* ===== verification/ZotProps.thy ===== *)
theory ZotProps
  imports ZotClient UseCaseProps JsonCut "HOL-Library.Code_Target_Nat"
begin

text \<open>
  What the adapter to the engine promises: emptiness is confirmed and never guessed, the blob scope
  rests on evidence from the repository itself, and a rename never loses the address of a tag, unless
  somebody pushes meanwhile.
\<close>

section \<open>Symbolic execution\<close>

lemma run_when_ready [run]: "run_state (when_ready c m) s = (if c_baseURL c = [] then (Inl (bare ErrUnavailable), s) else run_state m s)"
  by (simp add: when_ready_def run zot_ready_def)

lemma run_on_ext [run]: "run_state (on_ext m) e = (case run_state m (e_ext e) of (a, x) \<Rightarrow> (a, e\<lparr>e_ext := x\<rparr>))"
  by (simp add: on_ext_def)

text \<open>An answer of the engine to a request, at some moment.\<close>

definition asked :: "'w zclient \<Rightarrow> string \<Rightarrow> string \<Rightarrow> string \<Rightarrow> request_body \<Rightarrow> zot_request" where
  "asked c meth path accept body =
     \<lparr>zr_Method = meth, zr_Path = c_baseURL c @ path, zr_Accept = accept, zr_Body = body\<rparr>"

definition answers :: "'w zclient \<Rightarrow> zot_request \<Rightarrow> zot_response \<Rightarrow> bool" where
  "answers c r resp \<longleftrightarrow> (\<exists>s. fst (run_state (c_Do c r) s) = Inr resp)"

lemma exchange_cases:
  assumes "run_state (exchange c absent \<lparr>zr_Method = meth, zr_Path = path, zr_Accept = accept, zr_Body = body\<rparr>) s = (r, t)"
  shows "t = snd (run_state (c_Do c (asked c meth path accept body)) s) \<and>
    (\<forall>resp. r = Inr resp \<longrightarrow> is_2xx (zs_StatusCode resp) \<and> fst (run_state (c_Do c (asked c meth path accept body)) s) = Inr resp) \<and>
    (\<forall>e. r = Inl e \<longrightarrow> e = zot_failClosed \<or> e = absent \<and>
      (\<exists>resp. zs_StatusCode resp = 404 \<and> fst (run_state (c_Do c (asked c meth path accept body)) s) = Inr resp))"
  using assms
  by (auto simp: exchange_def asked_def run split: prod.splits sum.splits if_splits)

lemma errors_distinct [simp]: "zot_failClosed \<noteq> errNotFound" "errNotFound \<noteq> zot_failClosed"
  by (simp_all add: zot_failClosed_def errNotFound_def bare_def)

text \<open>A JSON document the engine answered with, as a whole: the adapter stops reading at a limit, but
  what it understands of a body cut off is what the body says.\<close>

definition delivered :: "'w zclient \<Rightarrow> string \<Rightarrow> (string \<Rightarrow> 'a option) \<Rightarrow> string \<Rightarrow> 'a \<Rightarrow> bool" where
  "delivered c accept decode path a \<longleftrightarrow> (\<exists>resp. answers c (asked c ''GET'' path accept NoBody) resp \<and>
     is_2xx (zs_StatusCode resp) \<and> decode (zs_Body resp) = Some a)"

lemma uncut_decoders: "uncut decodeCatalog" "uncut decodeTags" "uncut decodeManifest"
  unfolding decodeCatalog_def decodeTags_def decodeManifest_def by (intro uncut_map uncut_Decode)+

definition absent :: "'w zclient \<Rightarrow> string \<Rightarrow> string \<Rightarrow> bool" where
  "absent c accept path \<longleftrightarrow> (\<exists>resp. answers c (asked c ''GET'' path accept NoBody) resp \<and> zs_StatusCode resp = 404)"

lemma fetch_cases:
  assumes "uncut decode" and "run_state (andThen (zot_do c ''GET'' path accept) (\<lambda>resp. State_Monad.return (decodeJSONBody decode limit (zs_Body resp)))) s = (r, t)"
  shows "(\<forall>a. r = Inr a \<longrightarrow> delivered c accept decode path a) \<and>
    (\<forall>e. r = Inl e \<longrightarrow> e = zot_failClosed \<or> e = errNotFound \<and> absent c accept path)"
proof -
  obtain x u where x: "run_state (zot_do c ''GET'' path accept) s = (x, u)" by force
  note e = exchange_cases [OF x [unfolded zot_do_def]]
  show ?thesis
  proof (cases x)
    case (Inl err)
    with assms(2) x have "r = Inl err" by (simp add: run)
    with e Inl show ?thesis by (fastforce simp: absent_def answers_def)
  next
    case (Inr resp)
    with assms(2) x have r: "r = decodeJSONBody decode limit (zs_Body resp)" by (simp add: run)
    from e Inr have "answers c (asked c ''GET'' path accept NoBody) resp" "is_2xx (zs_StatusCode resp)"
      by (auto simp: answers_def)
    then show ?thesis using r assms(1)
      by (auto simp: decodeJSONBody_def delivered_def split: option.splits dest: uncutD)
  qed
qed

lemmas getJSON_cases = fetch_cases [where limit = maxJSONBytes and accept = acceptJSON, folded getJSON_def]
lemmas getManifest_cases = fetch_cases [OF uncut_decoders(3), where limit = maxManifestBytes and accept = acceptManifests and
  path = "manifest_path full ref" and c = c for full ref c, folded getManifest_def]

section \<open>Emptiness is confirmed\<close>

definition tags_path :: "string \<Rightarrow> string" where
  "tags_path fullRepo = ''/v2/'' @ repoPath fullRepo @ ''/tags/list''"

lemma repoTags_cases:
  assumes "run_state (repoTags c fullRepo) s = (r, t)"
  shows "(\<forall>tags. r = Inr tags \<longrightarrow> tags = [] \<and> absent c acceptJSON (tags_path fullRepo) \<or>
      (\<exists>ts. delivered c acceptJSON decodeTags (tags_path fullRepo) ts \<and> tags = sort ts)) \<and>
    (\<forall>e. r = Inl e \<longrightarrow> e = zot_failClosed)"
proof -
  obtain x where "run_state (getJSON c decodeTags (tags_path fullRepo)) s = (x, t)"
    "r = (case x of Inl e \<Rightarrow> if e = errNotFound then Inr [] else Inl e | Inr tags \<Rightarrow> Inr (sort tags))"
    using assms by (auto simp: repoTags_def tags_path_def run split: prod.splits)
  with getJSON_cases [OF uncut_decoders(2) this(1)] show ?thesis by (auto split: sum.splits if_splits)
qed

text \<open>As Go decodes, an object without the list, and \<open>null\<close>, are an empty list.\<close>

lemma missing_lists_are_empty:
  "decodeCatalog ''{}'' = Some []" "decodeCatalog ''null'' = Some []" "decodeTags ''{}'' = Some []"
  by code_simp+

text \<open>
  C28. Empty means confirmed: the adapter calls a namespace empty only on a catalogue the engine
  delivered in which no repository lies under \<open><registry>/\<close>, and a repository empty only on a list of
  tags the engine delivered without a tag, or on its 404; a transport error, any other status, or a
  body that does not decode is an error and never emptiness; and the list is that of the whole
  answer, also where the adapter stops reading at its limit (a document without the list, such as
  \<open>{}\<close>, is one that lists nothing).
\<close>

theorem empty_means_confirmed:
  "(run_state (zot_NamespaceEmpty c reg) s = (Inr True, t) \<longrightarrow>
      (\<exists>names. delivered c acceptJSON decodeCatalog ''/v2/_catalog'' names \<and>
        (\<forall>name \<in> set names. \<not> has_prefix name (reg @ ''/'')))) \<and>
    (run_state (zot_RepositoryEmpty c reg repo) s = (Inr True, t) \<longrightarrow>
      absent c acceptJSON (tags_path (reg @ ''/'' @ repo)) \<or>
      delivered c acceptJSON decodeTags (tags_path (reg @ ''/'' @ repo)) [])"
proof (intro conjI impI)
  assume "run_state (zot_NamespaceEmpty c reg) s = (Inr True, t)"
  then obtain names u where g: "run_state (getJSON c decodeCatalog ''/v2/_catalog'') s = (Inr names, u)"
    and "sort (filter (\<lambda>name. has_prefix name (reg @ ''/'')) names) = []"
    by (auto simp: zot_NamespaceEmpty_def namespaceRepos_def run split: if_splits prod.splits sum.splits)
  then have "filter (\<lambda>name. has_prefix name (reg @ ''/'')) names = []" by (metis length_0_conv length_sort)
  then have "\<forall>name \<in> set names. \<not> has_prefix name (reg @ ''/'')" by (simp add: filter_empty_conv)
  with getJSON_cases [OF uncut_decoders(1) g] show "\<exists>names. delivered c acceptJSON decodeCatalog ''/v2/_catalog'' names \<and>
      (\<forall>name \<in> set names. \<not> has_prefix name (reg @ ''/''))" by blast
next
  assume "run_state (zot_RepositoryEmpty c reg repo) s = (Inr True, t)"
  then have "run_state (repoTags c (reg @ ''/'' @ repo)) s = (Inr [], t)"
    by (auto simp: zot_RepositoryEmpty_def run split: if_splits prod.splits sum.splits)
  from repoTags_cases [OF this] show "absent c acceptJSON (tags_path (reg @ ''/'' @ repo)) \<or>
      delivered c acceptJSON decodeTags (tags_path (reg @ ''/'' @ repo)) []"
    by (metis length_0_conv length_sort)
qed

section \<open>The blob scope rests on evidence\<close>

text \<open>What the engine said about a blob and a repository.\<close>

definition lists_tags :: "'w zclient \<Rightarrow> string \<Rightarrow> string list \<Rightarrow> bool" where
  "lists_tags c full tags \<longleftrightarrow> tags = [] \<and> absent c acceptJSON (tags_path full) \<or>
     (\<exists>ts. delivered c acceptJSON decodeTags (tags_path full) ts \<and> tags = sort ts)"

definition manifest_said :: "'w zclient \<Rightarrow> string \<Rightarrow> string \<Rightarrow> manifestBody \<Rightarrow> bool" where
  "manifest_said c full tag mb \<longleftrightarrow> delivered c acceptManifests decodeManifest (manifest_path full tag) mb"

definition evidence :: "'w zclient \<Rightarrow> string \<Rightarrow> string \<Rightarrow> bool \<Rightarrow> bool" where
  "evidence c full digest b \<longleftrightarrow> (\<exists>tags. lists_tags c full tags \<and>
     (if b then \<exists>tag \<in> set tags. \<exists>mb. manifest_said c full tag mb \<and> manifestHasDigest mb digest
      else \<forall>tag \<in> set tags. absent c acceptManifests (manifest_path full tag) \<or>
        (\<exists>mb. manifest_said c full tag mb \<and> \<not> manifestHasDigest mb digest)))"

text \<open>Scopes as validated names give them: the key of the cache determines them.\<close>

definition plain_scope :: "string \<Rightarrow> string \<Rightarrow> bool" where
  "plain_scope reg repo \<longleftrightarrow> CHR ''/'' \<notin> set reg \<and> CHR ''|'' \<notin> set reg \<and> CHR ''|'' \<notin> set repo"

lemma blobCacheKey_inj:
  assumes "plain_scope reg repo" and "plain_scope reg' repo'"
    and "blobCacheKey reg repo digest = blobCacheKey reg' repo' digest'"
  shows "reg = reg' \<and> repo = repo' \<and> digest = digest'"
proof -
  have "cut_at CHR ''|'' (blobCacheKey r n d) = Some (r @ ''/'' @ n, d)" if "plain_scope r n" for r n d
    using cut_at_append [of "CHR ''|''" "r @ ''/'' @ n" d] that by (simp add: blobCacheKey_def plain_scope_def)
  with assms have "reg @ ''/'' @ repo = reg' @ ''/'' @ repo'" and "digest = digest'" by (metis option.inject prod.inject)+
  moreover have "cut_at CHR ''/'' (r @ ''/'' @ n) = Some (r, n)" if "plain_scope r n" for r n
    using cut_at_append [of "CHR ''/''" r n] that by (simp add: plain_scope_def)
  ultimately show ?thesis using assms(1,2) by (metis option.inject prod.inject)
qed

definition truthful :: "'w zclient \<Rightarrow> (string \<times> membershipEntry) list \<Rightarrow> bool" where
  "truthful c es \<longleftrightarrow> (\<forall>k e reg repo digest. (k, e) \<in> set es \<and> plain_scope reg repo \<and>
     k = blobCacheKey reg repo digest \<longrightarrow> evidence c (reg @ ''/'' @ repo) digest (me_inRepo e))"

definition scope_ok :: "'w zclient \<Rightarrow> 'w zstate \<Rightarrow> bool" where
  "scope_ok c s \<longleftrightarrow> truthful c (zc_entries s) \<and> length (zc_entries s) \<le> c_cacheMax c"

definition keeps_scope :: "'w zclient \<Rightarrow> ('w zstate, 'a) state \<Rightarrow> bool" where
  "keeps_scope c m \<longleftrightarrow> guar (\<lambda>s t. scope_ok c s \<longrightarrow> scope_ok c t) m"

interpretation scope: guaranteed "\<lambda>s t. scope_ok c s \<longrightarrow> scope_ok c t"
  by unfold_locales auto

lemmas scope_rules = scope.g_return scope.g_bind scope.g_andThen scope.g_get

text \<open>The parameters respect the cache: other requests may use it meanwhile, by the same operations.\<close>

definition scope_peers :: "'w zclient \<Rightarrow> bool" where
  "scope_peers c \<longleftrightarrow> (\<forall>r. keeps_scope c (c_Do c r)) \<and> keeps_scope c (c_now c) \<and> (\<forall>ts. keeps_scope c (c_started c ts)) \<and>
     0 < c_cacheMax c"

lemma truthful_subset: "truthful c es \<Longrightarrow> set es' \<subseteq> set es \<Longrightarrow> truthful c es'"
  unfolding truthful_def by blast

lemma keeps_exchange: "scope_peers c \<Longrightarrow> keeps_scope c (exchange c a r)"
  unfolding scope_peers_def keeps_scope_def exchange_def by (intro scope_rules) auto

lemma keeps_getJSON: "scope_peers c \<Longrightarrow> keeps_scope c (getJSON c decode path)"
  using keeps_exchange unfolding keeps_scope_def getJSON_def zot_do_def by (intro scope_rules) auto

lemma keeps_getManifest: "scope_peers c \<Longrightarrow> keeps_scope c (getManifest c full tag)"
  using keeps_exchange unfolding keeps_scope_def getManifest_def zot_do_def by (intro scope_rules) auto

lemma keeps_repoTags: "scope_peers c \<Longrightarrow> keeps_scope c (repoTags c full)"
  using keeps_getJSON unfolding keeps_scope_def repoTags_def by (intro scope_rules) auto

lemma keeps_scan: "scope_peers c \<Longrightarrow> keeps_scope c (scan_tags c full digest tags)"
proof (induction tags)
  case (Cons tag tags)
  with keeps_getManifest [OF Cons.prems, of full tag] show ?case
    unfolding keeps_scope_def by (auto intro!: scope_rules)
qed (simp add: keeps_scope_def scope.g_return)

lemma scan_tags_said:
  assumes "run_state (scan_tags c full digest tags) s = ((found, err), t)"
  shows "(found \<longrightarrow> (\<exists>tag \<in> set tags. \<exists>mb. manifest_said c full tag mb \<and> manifestHasDigest mb digest)) \<and>
    (\<not> found \<and> err = None \<longrightarrow> (\<forall>tag \<in> set tags. absent c acceptManifests (manifest_path full tag) \<or>
      (\<exists>mb. manifest_said c full tag mb \<and> \<not> manifestHasDigest mb digest)))"
  using assms
proof (induction tags arbitrary: s found err t)
  case (Cons tag tags)
  obtain x u where x: "run_state (getManifest c full tag) s = (x, u)" by force
  obtain f e v where rest: "run_state (scan_tags c full digest tags) u = ((f, e), v)" by (metis prod.collapse)
  note said = Cons.IH [OF rest] and head = getManifest_cases [OF x]
  from Cons.prems x rest have out: "(found, err) = (case x of Inl er \<Rightarrow> if er = errNotFound then (f, e) else (f, Some er)
      | Inr mb \<Rightarrow> (manifestHasDigest mb digest \<or> f, e))"
    by (simp add: run split: sum.splits if_splits)
  show ?case
  proof (cases x)
    case (Inl er)
    with out said head show ?thesis by (auto split: if_splits)
  next
    case (Inr mb)
    with head have "manifest_said c full tag mb" by (simp add: manifest_said_def)
    with out said Inr show ?thesis by auto
  qed
qed (simp add: run)

lemma evict_subset: "set (evict n now es) \<subseteq> set es"
  by (auto simp: evict_def Let_def dest: in_set_dropD)

lemma evict_length: "0 < n \<Longrightarrow> length (evict n now es) < n"
proof -
  assume "0 < n"
  have "length (filter (\<lambda>(k, e). now < me_expires e) es) \<le> length es" by simp
  with \<open>0 < n\<close> show ?thesis by (auto simp: evict_def Let_def)
qed

lemma length_AList_update: "length (AList.update k v xs) \<le> Suc (length xs)"
  by (induction xs) auto

lemma set_AList_update: "(k', e') \<in> set (AList.update k v xs) \<Longrightarrow> (k', e') = (k, v) \<or> (k', e') \<in> set xs"
  by (induction xs) (auto split: if_splits)

lemma truthful_update:
  assumes "truthful c es" and "plain_scope reg repo" and "evidence c (reg @ ''/'' @ repo) digest b"
  shows "truthful c (AList.update (blobCacheKey reg repo digest) \<lparr>me_inRepo = b, me_expires = ex\<rparr> es)"
  unfolding truthful_def
proof (intro allI impI, elim conjE)
  fix k e rg rp d
  assume a: "(k, e) \<in> set (AList.update (blobCacheKey reg repo digest) \<lparr>me_inRepo = b, me_expires = ex\<rparr> es)"
    and p: "plain_scope rg rp" and k: "k = blobCacheKey rg rp d"
  from set_AList_update [OF a] show "evidence c (rg @ ''/'' @ rp) d (me_inRepo e)"
  proof
    assume e: "(k, e) = (blobCacheKey reg repo digest, \<lparr>me_inRepo = b, me_expires = ex\<rparr>)"
    with k blobCacheKey_inj [OF p assms(2), of d digest] have "rg = reg" "rp = repo" "d = digest" by auto
    with e assms(3) show ?thesis by simp
  next
    assume "(k, e) \<in> set es"
    with assms(1) p k show ?thesis unfolding truthful_def by blast
  qed
qed

lemma cache_set_keeps:
  assumes "scope_peers c" and "plain_scope reg repo" and "evidence c (reg @ ''/'' @ repo) digest b"
  shows "keeps_scope c (cache_set c (blobCacheKey reg repo digest) b)"
proof -
  have "scope_ok c (s\<lparr>zc_entries := AList.update (blobCacheKey reg repo digest) \<lparr>me_inRepo = b, me_expires = ex\<rparr>
      (evict (c_cacheMax c) now (zc_entries s))\<rparr>)" if "scope_ok c s" for s now ex
  proof -
    have "truthful c (evict (c_cacheMax c) now (zc_entries s))"
      by (rule truthful_subset [OF _ evict_subset]) (use that in \<open>simp add: scope_ok_def\<close>)
    then have "truthful c (AList.update (blobCacheKey reg repo digest) \<lparr>me_inRepo = b, me_expires = ex\<rparr>
        (evict (c_cacheMax c) now (zc_entries s)))"
      by (rule truthful_update [OF _ assms(2,3)])
    moreover have "length (evict (c_cacheMax c) now (zc_entries s)) < c_cacheMax c"
      using evict_length assms(1) by (simp add: scope_peers_def)
    ultimately show ?thesis
      using length_AList_update [of "blobCacheKey reg repo digest" "\<lparr>me_inRepo = b, me_expires = ex\<rparr>"
        "evict (c_cacheMax c) now (zc_entries s)"] by (simp add: scope_ok_def)
  qed
  then show ?thesis
    using assms(1) unfolding keeps_scope_def cache_set_def scope_peers_def
    by (intro scope_rules) (auto simp: guar_def)
qed

lemma keeps_cache_get: "scope_peers c \<Longrightarrow> keeps_scope c (cache_get c key)"
proof -
  assume p: "scope_peers c"
  have "truthful c (AList.delete key es)" if "truthful c es" for es
    using that by (rule truthful_subset) (auto simp: AList.delete_eq)
  moreover have "length (AList.delete key es) \<le> length es" for es :: "(string \<times> membershipEntry) list"
    by (simp add: AList.delete_eq)
  ultimately have "scope_ok c (s\<lparr>zc_entries := AList.delete key (zc_entries s)\<rparr>)" if "scope_ok c s" for s
    using that by (auto simp: scope_ok_def intro: le_trans)
  then have "keeps_scope c (State_Monad.update (\<lambda>s. s\<lparr>zc_entries := AList.delete key (zc_entries s)\<rparr>))"
    by (simp add: keeps_scope_def guar_def)
  with p show ?thesis unfolding keeps_scope_def cache_get_def scope_peers_def
    by (auto split: option.splits intro!: scope_rules)
qed

lemma cache_get_entry:
  assumes "run_state (cache_get c key) s = (Some b, t)"
  shows "\<exists>e. (key, e) \<in> set (zc_entries s) \<and> me_inRepo e = b"
  using assms by (auto simp: cache_get_def run split: option.splits prod.splits if_splits dest: map_of_SomeD)

text \<open>A verdict over the manifests that were read.\<close>

lemma scan_evidence:
  assumes x: "run_state (repoTags c full) s1 = (Inr tags, s2)"
    and scan: "run_state (scan_tags c full digest (take n tags)) s3 = ((found, err), s4)"
    and v: "blobScopeVerdict found err (length tags \<le> n) = (verdict, ok)"
  shows "(ok \<longrightarrow> evidence c full digest found) \<and> (\<forall>b. verdict = Inr b \<longrightarrow> ok \<and> b = found)"
proof -
  have "lists_tags c full tags" using repoTags_cases [OF x] by (simp add: lists_tags_def)
  moreover have "(found \<longrightarrow> (\<exists>tag \<in> set tags. \<exists>mb. manifest_said c full tag mb \<and> manifestHasDigest mb digest)) \<and>
      (\<not> found \<and> err = None \<and> length tags \<le> n \<longrightarrow> (\<forall>tag \<in> set tags. absent c acceptManifests (manifest_path full tag) \<or>
        (\<exists>mb. manifest_said c full tag mb \<and> \<not> manifestHasDigest mb digest)))"
    using scan_tags_said [OF scan] by (auto dest: in_set_takeD)
  ultimately show ?thesis
    using v by (auto simp: blobScopeVerdict_def evidence_def split: if_splits option.splits)
qed


section \<open>Renaming a repository\<close>

text \<open>The engine as a store of manifests by repository and tag: what the requests of a rename do to it.
  A push stores the manifest if it is answered 2xx, and may or may not have stored it otherwise; a
  deletion touches one repository; a list of tags is complete.\<close>

definition delete_path :: "string \<Rightarrow> string \<Rightarrow> string" where
  "delete_path full digest = ''/v2/'' @ repoPath full @ ''/manifests/'' @ digest"

definition ok_2xx :: "gerror + zot_response \<Rightarrow> (zot_response \<Rightarrow> bool) \<Rightarrow> bool" where
  "ok_2xx r P \<longleftrightarrow> (\<forall>resp. r = Inr resp \<and> is_2xx (zs_StatusCode resp) \<longrightarrow> P resp)"

type_synonym 'w store_view = "'w zstate \<Rightarrow> string \<Rightarrow> string \<Rightarrow> string option"

definition store_list :: "'w zclient \<Rightarrow> 'w store_view \<Rightarrow> bool" where
  "store_list c content \<longleftrightarrow> (\<forall>full s r t. run_state (c_Do c (asked c ''GET'' (tags_path full) acceptJSON NoBody)) s = (r, t) \<longrightarrow>
     content t = content s \<and>
     (\<forall>resp. r = Inr resp \<and> zs_StatusCode resp = 404 \<longrightarrow> dom (content s full) = {}) \<and>
     ok_2xx r (\<lambda>resp. \<forall>ts. decodeTags (take maxJSONBytes (zs_Body resp)) = Some ts \<longrightarrow> dom (content s full) \<subseteq> set ts))"

definition store_get :: "'w zclient \<Rightarrow> 'w store_view \<Rightarrow> bool" where
  "store_get c content \<longleftrightarrow> (\<forall>full tag s r t. run_state (c_Do c (asked c ''GET'' (manifest_path full tag) acceptManifests NoBody)) s = (r, t) \<longrightarrow>
     content t = content s \<and> ok_2xx r (\<lambda>resp. content s full tag = Some (zs_Body resp)))"

definition store_head :: "'w zclient \<Rightarrow> 'w store_view \<Rightarrow> bool" where
  "store_head c content \<longleftrightarrow> (\<forall>full tag s r t. run_state (c_Do c (asked c ''HEAD'' (manifest_path full tag) acceptManifests NoBody)) s = (r, t) \<longrightarrow>
     content t = content s)"

definition store_put :: "'w zclient \<Rightarrow> 'w store_view \<Rightarrow> bool" where
  "store_put c content \<longleftrightarrow> (\<forall>full tag ct raw s r t.
     run_state (c_Do c (asked c ''PUT'' (manifest_path full tag) [] (ManifestBody ct raw))) s = (r, t) \<longrightarrow>
     (content t = content s \<or> content t = (content s)(full := (content s full)(tag \<mapsto> raw))) \<and>
     ok_2xx r (\<lambda>resp. content t = (content s)(full := (content s full)(tag \<mapsto> raw))))"

definition store_delete :: "'w zclient \<Rightarrow> 'w store_view \<Rightarrow> bool" where
  "store_delete c content \<longleftrightarrow> (\<forall>full digest s r t. run_state (c_Do c (asked c ''DELETE'' (delete_path full digest) [] NoBody)) s = (r, t) \<longrightarrow>
     (\<forall>other. other \<noteq> full \<longrightarrow> content t other = content s other))"

definition engine_store :: "'w zclient \<Rightarrow> 'w store_view \<Rightarrow> bool" where
  "engine_store c content \<longleftrightarrow> store_list c content \<and> store_get c content \<and> store_head c content \<and>
     store_put c content \<and> store_delete c content"

text \<open>What an exchange was at the level of the port.\<close>

lemma exchange_run:
  assumes "run_state (exchange c gone \<lparr>zr_Method = meth, zr_Path = path, zr_Accept = accept, zr_Body = body\<rparr>) s = (r, t)"
  obtains y where "run_state (c_Do c (asked c meth path accept body)) s = (y, t)"
    and "\<And>resp. r = Inr resp \<Longrightarrow> y = Inr resp \<and> is_2xx (zs_StatusCode resp)"
    and "\<And>e. r = Inl e \<Longrightarrow> e = zot_failClosed \<or> e = gone \<and> (\<exists>resp. zs_StatusCode resp = 404 \<and> y = Inr resp)"
proof -
  note e = exchange_cases [OF assms]
  show thesis
  proof (rule that)
    show "run_state (c_Do c (asked c meth path accept body)) s = (fst (run_state (c_Do c (asked c meth path accept body)) s), t)"
      using e by simp
  qed (use e in blast)+
qed

lemma rawManifest_store:
  assumes "engine_store c content" and "run_state (rawManifest c full tag) s = (r, t)"
  shows "content t = content s \<and> (\<forall>m. r = Inr m \<longrightarrow>
    (\<exists>b. content s full tag = Some b \<and> fst m = take maxManifestBytes b))"
proof -
  obtain x where x: "run_state (exchange c zot_failClosed \<lparr>zr_Method = ''GET'', zr_Path = manifest_path full tag, zr_Accept = acceptManifests, zr_Body = NoBody\<rparr>) s = (x, t)"
    and r: "r = (case x of Inl e \<Rightarrow> Inl e | Inr resp \<Rightarrow> Inr (take maxManifestBytes (zs_Body resp), zs_ContentType resp))"
    using assms(2) by (auto simp: rawManifest_def run split: prod.splits sum.splits)
  from exchange_run [OF x] obtain y where y: "run_state (c_Do c (asked c ''GET'' (manifest_path full tag) acceptManifests NoBody)) s = (y, t)"
    and yx: "\<And>resp. x = Inr resp \<Longrightarrow> y = Inr resp \<and> is_2xx (zs_StatusCode resp)" by metis
  have "content t = content s \<and> ok_2xx y (\<lambda>resp. content s full tag = Some (zs_Body resp))"
    using assms(1) y unfolding engine_store_def store_get_def by blast
  with yx r show ?thesis by (cases x) (auto simp: ok_2xx_def)
qed

lemma putManifest_store:
  assumes "engine_store c content" and "run_state (putManifest c full tag raw ct) s = (r, t)"
  shows "(content t = content s \<or> content t = (content s)(full := (content s full)(tag \<mapsto> raw))) \<and>
    (r = Inr () \<longrightarrow> content t = (content s)(full := (content s full)(tag \<mapsto> raw)))"
proof -
  define ty where "ty = (if ct = [] then ''application/vnd.oci.image.manifest.v1+json'' else ct)"
  obtain x where x: "run_state (exchange c zot_failClosed \<lparr>zr_Method = ''PUT'', zr_Path = manifest_path full tag, zr_Accept = [], zr_Body = ManifestBody ty raw\<rparr>) s = (x, t)"
    and r: "r = (case x of Inl e \<Rightarrow> Inl e | Inr resp \<Rightarrow> Inr ())"
    using assms(2) by (auto simp: putManifest_def ty_def run split: prod.splits sum.splits)
  from exchange_run [OF x] obtain y where y: "run_state (c_Do c (asked c ''PUT'' (manifest_path full tag) [] (ManifestBody ty raw))) s = (y, t)"
    and yx: "\<And>resp. x = Inr resp \<Longrightarrow> y = Inr resp \<and> is_2xx (zs_StatusCode resp)" by metis
  have "(content t = content s \<or> content t = (content s)(full := (content s full)(tag \<mapsto> raw))) \<and>
      ok_2xx y (\<lambda>resp. content t = (content s)(full := (content s full)(tag \<mapsto> raw)))"
    using assms(1) y unfolding engine_store_def store_put_def by blast
  with yx r show ?thesis by (cases x) (auto simp: ok_2xx_def)
qed

lemma copy_tags_store:
  assumes "engine_store c content" and "oldRepo \<noteq> newRepo"
    and "\<And>tag m. content s oldRepo tag = Some m \<Longrightarrow> length m \<le> maxManifestBytes"
    and "run_state (copy_tags c oldRepo newRepo tags) s = (r, t)"
  shows "content t oldRepo = content s oldRepo \<and>
    (\<forall>tag m. content s oldRepo tag = Some m \<and> (content s newRepo tag = Some m \<or> r = Inr () \<and> tag \<in> set tags) \<longrightarrow>
      content t newRepo tag = Some m)"
  using assms(3,4)
proof (induction tags arbitrary: s)
  case (Cons tag tags)
  obtain x s1 where x: "run_state (rawManifest c oldRepo tag) s = (x, s1)" by force
  note raw = rawManifest_store [OF assms(1) x]
  show ?case
  proof (cases x)
    case (Inl e)
    with Cons.prems(2) x raw show ?thesis by (auto simp: run)
  next
    case (Inr m)
    obtain y s2 where y: "run_state (putManifest c newRepo tag (fst m) (snd m)) s1 = (y, s2)" by force
    from raw Inr Cons.prems(1) have m: "content s oldRepo tag = Some (fst m)" by (cases m) fastforce
    note put = putManifest_store [OF assms(1) y]
    have s2: "content s2 oldRepo = content s oldRepo"
      "\<And>k v. content s oldRepo k = Some v \<Longrightarrow> content s newRepo k = Some v \<Longrightarrow> content s2 newRepo k = Some v"
      using put raw m assms(2) by (auto split: if_splits)
    show ?thesis
    proof (cases y)
      case (Inl e)
      with Cons.prems(2) x Inr y s2 show ?thesis by (auto simp: run)
    next
      case (Inr u)
      then have "content s2 newRepo tag = Some (fst m)" using put by simp
      moreover from Cons.prems(2) x \<open>x = Inr m\<close> y Inr have "run_state (copy_tags c oldRepo newRepo tags) s2 = (r, t)"
        by (simp add: run)
      from Cons.IH [OF _ this] Cons.prems(1) s2(1) have
        "content t oldRepo = content s2 oldRepo \<and> (\<forall>tag m. content s2 oldRepo tag = Some m \<and>
          (content s2 newRepo tag = Some m \<or> r = Inr () \<and> tag \<in> set tags) \<longrightarrow> content t newRepo tag = Some m)" by simp
      ultimately show ?thesis using s2 m by auto
    qed
  qed
qed (simp add: run)

lemma DeleteTag_store:
  assumes "engine_store c content" and "reg @ ''/'' @ repo \<noteq> other"
    and "run_state (zot_DeleteTag c reg repo tag) s = (r, t)"
  shows "content t other = content s other"
proof (cases "c_baseURL c = []")
  case False
  let ?full = "reg @ ''/'' @ repo"
  obtain x u where x: "run_state (zot_do c ''HEAD'' (manifest_path ?full tag) acceptManifests) s = (x, u)" by force
  obtain y where "run_state (c_Do c (asked c ''HEAD'' (manifest_path ?full tag) acceptManifests NoBody)) s = (y, u)"
    using exchange_run [OF x [unfolded zot_do_def]] by metis
  with assms(1) have u: "content u = content s" unfolding engine_store_def store_head_def by blast
  show ?thesis
  proof (cases x)
    case (Inl e)
    with False assms(3) x u show ?thesis by (auto simp: zot_DeleteTag_def headManifest_def run)
  next
    case (Inr resp)
    obtain z v where z: "run_state (zot_do c ''DELETE'' (delete_path ?full (zs_Digest resp)) []) u = (z, v)" by force
    obtain y where "run_state (c_Do c (asked c ''DELETE'' (delete_path ?full (zs_Digest resp)) [] NoBody)) u = (y, v)"
      using exchange_run [OF z [unfolded zot_do_def]] by metis
    with assms(1,2) have "content v other = content u other" unfolding engine_store_def store_delete_def by metis
    moreover have "t = v" using False assms(3) x Inr z by (auto simp: zot_DeleteTag_def headManifest_def delete_path_def run)
    ultimately show ?thesis using u by simp
  qed
qed (use assms(3) in \<open>auto simp: zot_DeleteTag_def run\<close>)

lemma delete_tags_store:
  assumes "engine_store c content" and "reg @ ''/'' @ repo \<noteq> other"
    and "run_state (delete_tags c reg repo tags) s = (r, t)"
  shows "content t other = content s other"
  using assms(3)
proof (induction tags arbitrary: s)
  case (Cons tag tags)
  obtain x u where x: "run_state (zot_DeleteTag c reg repo tag) s = (x, u)" by force
  from DeleteTag_store [OF assms(1,2) x] Cons.prems Cons.IH x show ?case
    by (cases x) (auto simp: run)
qed (simp add: run)

lemma repoTags_store:
  assumes "engine_store c content" and "run_state (repoTags c full) s = (r, t)"
  shows "content t = content s \<and> (\<forall>tags. r = Inr tags \<longrightarrow> dom (content s full) \<subseteq> set tags)"
proof -
  obtain x where x: "run_state (zot_do c ''GET'' (tags_path full) acceptJSON) s = (x, t)"
    and r: "r = (case x of Inl e \<Rightarrow> if e = errNotFound then Inr [] else Inl e
      | Inr resp \<Rightarrow> (case decodeTags (take maxJSONBytes (zs_Body resp)) of None \<Rightarrow> Inl zot_failClosed
          | Some ts \<Rightarrow> Inr (sort ts)))"
    using assms(2)
    by (auto simp: repoTags_def getJSON_def tags_path_def decodeJSONBody_def run split: prod.splits sum.splits option.splits if_splits)
  from exchange_run [OF x [unfolded zot_do_def]] obtain y where
    y: "run_state (c_Do c (asked c ''GET'' (tags_path full) acceptJSON NoBody)) s = (y, t)" and
    yx: "\<And>resp. x = Inr resp \<Longrightarrow> y = Inr resp \<and> is_2xx (zs_StatusCode resp)"
      "\<And>e. x = Inl e \<Longrightarrow> e = zot_failClosed \<or> e = errNotFound \<and> (\<exists>resp. zs_StatusCode resp = 404 \<and> y = Inr resp)" by metis
  have "content t = content s \<and> (\<forall>resp. y = Inr resp \<and> zs_StatusCode resp = 404 \<longrightarrow> dom (content s full) = {}) \<and>
     ok_2xx y (\<lambda>resp. \<forall>ts. decodeTags (take maxJSONBytes (zs_Body resp)) = Some ts \<longrightarrow> dom (content s full) \<subseteq> set ts)"
    using assms(1) y unfolding engine_store_def store_list_def by blast
  with yx r show ?thesis
    by (cases x) (fastforce simp: ok_2xx_def split: if_splits option.splits)+
qed

text \<open>
  C29. A rename never loses the address of a tag: wherever the exchanges with the engine fail, every tag
  of the old repository still resolves to its manifest under the old name or under the new one, and
  after a successful rename under the new one - if nobody else writes to the engine meanwhile, and no
  manifest is longer than the limit at which the copy is cut.
\<close>

theorem rename_never_loses_a_tag:
  assumes "engine_store c content" and "oldName \<noteq> newName"
    and "\<And>tag m. content s (reg @ ''/'' @ oldName) tag = Some m \<Longrightarrow> length m \<le> maxManifestBytes"
    and "run_state (zot_RenameRepository c reg oldName newName) s = (r, t)"
    and "content s (reg @ ''/'' @ oldName) tag = Some m"
  shows "(content t (reg @ ''/'' @ oldName) tag = Some m \<or> content t (reg @ ''/'' @ newName) tag = Some m) \<and>
    (r = Inr () \<longrightarrow> content t (reg @ ''/'' @ newName) tag = Some m)"
proof (cases "c_baseURL c = []")
  case False
  let ?old = "reg @ ''/'' @ oldName" and ?new = "reg @ ''/'' @ newName"
  obtain x s1 where x: "run_state (repoTags c ?old) s = (x, s1)" by force
  note st = repoTags_store [OF assms(1) x]
  show ?thesis
  proof (cases x)
    case (Inl err)
    with False assms(4,5) x st show ?thesis by (auto simp: zot_RenameRepository_def run)
  next
    case (Inr tags)
    obtain z s2 where z: "run_state (copy_tags c ?old ?new tags) s1 = (z, s2)" by force
    have copied: "content s2 ?old = content s1 ?old \<and>
        (\<forall>tag m. content s1 ?old tag = Some m \<and> (content s1 ?new tag = Some m \<or> z = Inr () \<and> tag \<in> set tags) \<longrightarrow>
          content s2 ?new tag = Some m)"
      by (rule copy_tags_store [OF assms(1) _ _ z]) (use assms(2,3) st in auto)
    show ?thesis
    proof (cases z)
      case (Inl err)
      with False assms(4,5) x Inr z copied st show ?thesis by (auto simp: zot_RenameRepository_def run)
    next
      case (Inr u)
      with False assms(4) x \<open>x = Inr tags\<close> z have d: "run_state (delete_tags c reg oldName tags) s2 = (r, t)"
        by (simp add: zot_RenameRepository_def run)
      have "content t ?new = content s2 ?new" using delete_tags_store [OF assms(1) _ d] assms(2) by simp
      then show ?thesis using copied st assms(5) Inr \<open>x = Inr tags\<close> by auto
    qed
  qed
qed (use assms in \<open>auto simp: zot_RenameRepository_def run\<close>)

section \<open>Paths\<close>

lemma split_repoPath: "split_on CHR ''/'' (repoPath full) = map path_escape (split_on CHR ''/'' full)"
  unfolding repoPath_def by (rule split_join) (auto simp: path_escape_no_slash)

lemma inj_path_escape: "inj path_escape"
  by (rule injI) (rule path_escape_inj)

lemma repoPath_inj: "repoPath x = repoPath y \<Longrightarrow> x = y"
  using split_repoPath [of x] split_repoPath [of y] join_split [of "CHR ''/''"]
  by (metis inj_map_eq_map [OF inj_path_escape])

lemma segments:
  "split_on CHR ''/'' (manifest_path full tag) = [[], ''v2''] @ map path_escape (split_on CHR ''/'' full) @ [''manifests'', path_escape tag]"
  "split_on CHR ''/'' (tags_path full) = [[], ''v2''] @ map path_escape (split_on CHR ''/'' full) @ [''tags'', ''list'']"
proof -
  have v2: "split_on CHR ''/'' (''/v2/'' @ x) = [[], ''v2''] @ split_on CHR ''/'' x" for x by simp
  have m: "split_on CHR ''/'' (''manifests/'' @ path_escape tag) = [''manifests'', path_escape tag]"
    using split_on_single [OF path_escape_no_slash, of tag] by simp
  have "manifest_path full tag = ''/v2/'' @ (repoPath full @ CHR ''/'' # (''manifests/'' @ path_escape tag))"
    by (simp add: manifest_path_def)
  then show "split_on CHR ''/'' (manifest_path full tag) = [[], ''v2''] @ map path_escape (split_on CHR ''/'' full) @ [''manifests'', path_escape tag]"
    by (simp only: v2 split_on_append split_repoPath m)
  have "tags_path full = ''/v2/'' @ (repoPath full @ CHR ''/'' # ''tags/list'')" by (simp add: tags_path_def)
  then show "split_on CHR ''/'' (tags_path full) = [[], ''v2''] @ map path_escape (split_on CHR ''/'' full) @ [''tags'', ''list'']"
    by (simp only: v2 split_on_append split_repoPath) simp
qed

text \<open>Paths of different repositories and tags differ.\<close>

lemma paths_distinct:
  "manifest_path full tag = manifest_path full' tag' \<longleftrightarrow> full = full' \<and> tag = tag'"
  "tags_path full = tags_path full' \<longleftrightarrow> full = full'"
  "tags_path full \<noteq> manifest_path full' tag'" "manifest_path full' tag' \<noteq> tags_path full"
proof -
  have inj: "map path_escape (split_on CHR ''/'' x) = map path_escape (split_on CHR ''/'' y) \<longleftrightarrow> x = y" for x y
    using repoPath_inj [of x y] by (auto simp: repoPath_def)
  have "full = full' \<and> tag = tag'" if "manifest_path full tag = manifest_path full' tag'"
    using arg_cong [OF that, of "split_on CHR ''/''"] unfolding segments by (auto simp: inj dest: path_escape_inj)
  then show "manifest_path full tag = manifest_path full' tag' \<longleftrightarrow> full = full' \<and> tag = tag'" by blast
  have "full = full'" if "tags_path full = tags_path full'"
    using arg_cong [OF that, of "split_on CHR ''/''"] unfolding segments by (auto simp: inj)
  then show "tags_path full = tags_path full' \<longleftrightarrow> full = full'" by blast
  have "False" if "tags_path full = manifest_path full' tag'"
    using arg_cong [OF that, of "split_on CHR ''/''"] unfolding segments by simp
  then show "tags_path full \<noteq> manifest_path full' tag'" "manifest_path full' tag' \<noteq> tags_path full" by metis+
qed

section \<open>A concrete engine\<close>

text \<open>Two repositories with at most the tag \<open>v1\<close>; the digest of a manifest is the manifest, which
  is sent to those who accept it. While the racing engine stores the copy, somebody pushes a new
  manifest to the old repository.\<close>

type_synonym two_repos = "string option \<times> string option"

definition zot_reply :: "int \<Rightarrow> string \<Rightarrow> zot_response" where
  "zot_reply code body = \<lparr>zs_StatusCode = code, zs_Digest = body, zs_ContentType = [], zs_Body = body\<rparr>"

text \<open>The bodies the engine sends, with double quotes for the single ones: a list of tags, and a manifest
  whose configuration has the digest \<open>d1\<close>.\<close>

definition json_text :: "string list \<Rightarrow> string" where
  "json_text ts = map (\<lambda>c. if c = CHR 0x27 then CHR 0x22 else c) (concat ts)"

definition tags_body :: string where
  "tags_body = json_text [''{'', squote ''name'', '': '', squote ''reg/a'', '', '', squote ''tags'', '': ['', squote ''v1'', '']}'']"

definition manifest_body :: string where
  "manifest_body = json_text [''{'', squote ''schemaVersion'', '': 2, '', squote ''config'', '': {'', squote ''digest'', '': '',
     squote ''d1'', '', '', squote ''size'', '': 7}, '', squote ''layers'', '': []}'']"

lemma bodies: "decodeTags tags_body = Some [''v1'']"
    "decodeManifest manifest_body = Some \<lparr>mb_Config = \<lparr>ds_MediaType = [], ds_Digest = ''d1'', ds_Size = 7\<rparr>, mb_Layers = []\<rparr>"
    "length tags_body \<le> maxJSONBytes" "length manifest_body \<le> maxManifestBytes" "CHR ''/'' \<notin> set manifest_body"
  by code_simp+

definition two_repos_Do :: "bool \<Rightarrow> zot_request \<Rightarrow> (two_repos zstate, gerror + zot_response) state" where
  "two_repos_Do racing r = State (\<lambda>s. case zc_world s of (a, b) \<Rightarrow>
     if zr_Method r = ''GET'' \<and> zr_Path r = ''zot'' @ tags_path ''reg/a''
     then (Inr (case a of None \<Rightarrow> zot_reply 404 [] | Some m \<Rightarrow> zot_reply 200 tags_body), s)
     else if zr_Method r \<in> {''GET'', ''HEAD''} \<and> zr_Path r = ''zot'' @ manifest_path ''reg/a'' ''v1'' \<and> zr_Accept r = acceptManifests
     then (Inr (case a of None \<Rightarrow> zot_reply 404 [] | Some m \<Rightarrow> zot_reply 200 m), s)
     else if zr_Method r = ''PUT'' \<and> zr_Path r = ''zot'' @ manifest_path ''reg/b'' ''v1''
     then (case zr_Body r of
         ManifestBody ct raw \<Rightarrow> (Inr (zot_reply 201 raw), s\<lparr>zc_world := (if racing then Some ''m2'' else a, Some raw)\<rparr>)
       | _ \<Rightarrow> (Inl (Raw ''no manifest''), s))
     else if zr_Method r = ''DELETE''
     then (case a of
         Some m \<Rightarrow> if zr_Path r = ''zot'' @ delete_path ''reg/a'' m \<and> CHR ''/'' \<notin> set m then (Inr (zot_reply 202 []), s\<lparr>zc_world := (None, b)\<rparr>)
           else (Inl (Raw ''unsupported''), s)
       | None \<Rightarrow> (Inl (Raw ''unsupported''), s))
     else (Inl (Raw ''unsupported''), s))"

definition two_repos_client :: "bool \<Rightarrow> two_repos zclient" where
  "two_repos_client racing = New_zclient ''zot/'' demo_corelib (\<lambda>_. None) (\<lambda>r. 32 \<le> r \<and> r < 127) (two_repos_Do racing)
     (State_Monad.return 1000) (\<lambda>ts. State_Monad.return (length ts))"

definition two_repos_content :: "two_repos store_view" where
  "two_repos_content s full tag = (if full = ''reg/a'' \<and> tag = ''v1'' then fst (zc_world s)
     else if full = ''reg/b'' \<and> tag = ''v1'' then snd (zc_world s) else None)"

definition one_tag :: "two_repos zstate" where
  "one_tag = \<lparr>zc_entries = [], zc_world = (Some manifest_body, None)\<rparr>"

lemma two_repos_client_simps [simp]: "c_baseURL (two_repos_client racing) = ''zot''"
    "c_Do (two_repos_client racing) = two_repos_Do racing"
    "c_cacheMax (two_repos_client racing) = blobCacheMaxEntries" "c_now (two_repos_client racing) = State_Monad.return 1000"
    "c_started (two_repos_client racing) = (\<lambda>ts. State_Monad.return (length ts))"
  by (simp_all add: two_repos_client_def New_zclient_def)

text \<open>The engine deletes from one repository only.\<close>

lemma delete_path_repo:
  assumes "delete_path full digest = delete_path ''reg/a'' m" and "CHR ''/'' \<notin> set m"
  shows "full = ''reg/a''"
proof -
  have split: "split_on CHR ''/'' (delete_path f d) =
      [[], ''v2''] @ map path_escape (split_on CHR ''/'' f) @ ''manifests'' # split_on CHR ''/'' d" for f d
  proof -
    have "delete_path f d = ''/v2/'' @ (repoPath f @ CHR ''/'' # (''manifests'' @ CHR ''/'' # d))" by (simp add: delete_path_def)
    moreover have "split_on CHR ''/'' (''/v2/'' @ x) = [[], ''v2''] @ split_on CHR ''/'' x" for x by simp
    moreover have "split_on CHR ''/'' ''manifests'' = [''manifests'']" by simp
    ultimately show ?thesis by (simp only: split_on_append split_repoPath) simp
  qed
  have esc: "path_escape ''reg'' = ''reg''" "path_escape ''a'' = ''a''" by (simp_all add: path_escape_def escape_with_def unreserved_def)
  have ra: "map path_escape (split_on CHR ''/'' ''reg/a'') = [''reg'', ''a'']" by (simp add: esc)
  have "map path_escape (split_on CHR ''/'' full) @ ''manifests'' # split_on CHR ''/'' digest = [''reg'', ''a'', ''manifests'', m]"
    using arg_cong [OF assms(1), of "split_on CHR ''/''"] unfolding split ra split_on_single [OF assms(2)] by simp
  then have "map path_escape (split_on CHR ''/'' full) = [''reg'', ''a'']"
    by (auto simp: append_eq_Cons_conv)
  then have "repoPath full = repoPath ''reg/a''" by (simp only: repoPath_def ra)
  then show ?thesis by (rule repoPath_inj)
qed

lemma two_repos_store: "engine_store (two_repos_client False) two_repos_content"
proof -
  note defs = asked_def two_repos_Do_def two_repos_content_def zot_reply_def ok_2xx_def is_2xx_def paths_distinct
  have "store_list (two_repos_client False) two_repos_content"
    by (auto simp: store_list_def defs bodies split: prod.splits option.splits if_splits)
  moreover have "store_get (two_repos_client False) two_repos_content"
    by (auto simp: store_get_def defs split: prod.splits option.splits if_splits)
  moreover have "store_head (two_repos_client False) two_repos_content"
    by (auto simp: store_head_def defs split: prod.splits option.splits if_splits)
  moreover have "store_put (two_repos_client False) two_repos_content"
    by (auto simp: store_put_def defs fun_eq_iff split: prod.splits option.splits if_splits)
  moreover have "store_delete (two_repos_client False) two_repos_content"
    by (auto simp: store_delete_def defs fun_eq_iff dest: delete_path_repo split: prod.splits option.splits if_splits)
  ultimately show ?thesis by (simp add: engine_store_def)
qed

lemma two_repos_peers: "scope_peers (two_repos_client racing)"
  by (auto simp: scope_peers_def keeps_scope_def guar_def scope_ok_def two_repos_Do_def blobCacheMaxEntries_def run
      split: prod.splits option.splits if_splits request_body.splits)


lemma empty_means_confirmed_witness:
  "absent (two_repos_client False) acceptJSON (tags_path (''reg'' @ ''/'' @ ''a'')) \<or>
   delivered (two_repos_client False) acceptJSON decodeTags (tags_path (''reg'' @ ''/'' @ ''a'')) []"
proof -
  let ?s = "one_tag\<lparr>zc_world := (None, None)\<rparr>"
  have "fst (run_state (zot_RepositoryEmpty (two_repos_client False) ''reg'' ''a'') ?s) = Inr True" by code_simp
  then show ?thesis
    using empty_means_confirmed [of "two_repos_client False" "''reg''" ?s
        "snd (run_state (zot_RepositoryEmpty (two_repos_client False) ''reg'' ''a'') ?s)" "''a''"]
    by (metis prod.collapse)
qed

lemma rename_never_loses_a_tag_witness:
  "two_repos_content (snd (run_state (zot_RenameRepository (two_repos_client False) ''reg'' ''a'' ''b'') one_tag)) (''reg'' @ ''/'' @ ''b'') ''v1'' = Some manifest_body"
proof -
  have "fst (run_state (zot_RenameRepository (two_repos_client False) ''reg'' ''a'' ''b'') one_tag) = Inr ()" by code_simp
  moreover have "length m \<le> maxManifestBytes" if "two_repos_content one_tag (''reg'' @ ''/'' @ ''a'') tag = Some m" for tag m
    using that bodies(4) by (auto simp: two_repos_content_def one_tag_def split: if_splits)
  moreover have "two_repos_content one_tag (''reg'' @ ''/'' @ ''a'') ''v1'' = Some manifest_body"
    by (simp add: two_repos_content_def one_tag_def)
  ultimately show ?thesis
    using rename_never_loses_a_tag [OF two_repos_store, of "''a''" "''b''" one_tag "''reg''" "Inr ()"
        "snd (run_state (zot_RenameRepository (two_repos_client False) ''reg'' ''a'' ''b'') one_tag)" "''v1''" "manifest_body"]
    by (simp add: prod_eq_iff)
qed

text \<open>
  Without the last hypothesis of the previous property the guarantee fails: a manifest pushed to
  the old name while its copy is being stored is deleted with the tag, because the deletion asks the
  engine anew for the digest of the tag. The rename reports success, the new name has the old
  manifest and the pushed one is reachable under neither name.
\<close>

theorem rename_loses_a_concurrent_push:
  "let (r, t) = run_state (zot_RenameRepository (two_repos_client True) ''reg'' ''a'' ''b'') one_tag in
     r = Inr () \<and> zc_world t = (None, Some manifest_body)"
  by code_simp

text \<open>
  A manifest beyond the limit is read for the copy without its end: the rename reports success, and
  the new name has a manifest that is not the one of the tag.
\<close>

theorem rename_truncates_a_long_manifest:
  assumes "maxManifestBytes < length m" and "CHR ''/'' \<notin> set m"
  shows "run_state (zot_RenameRepository (two_repos_client False) ''reg'' ''a'' ''b'')
       \<lparr>zc_entries = [], zc_world = (Some m, None)\<rparr> =
     (Inr (), \<lparr>zc_entries = [], zc_world = (None, Some (take maxManifestBytes m))\<rparr>) \<and>
     take maxManifestBytes m \<noteq> m"
proof -
  have tags: "decodeJSONBody decodeTags maxJSONBytes tags_body = Inr [''v1'']" using bodies by (simp add: decodeJSONBody_def)
  have "take maxManifestBytes m \<noteq> m" using assms(1) by (metis length_take min.strict_order_iff order.asym)
  then show ?thesis
    using assms(2) paths_distinct(4) [of "''reg/a''" "''v1''" "''reg/a''", unfolded tags_path_def]
    by (simp add: zot_RenameRepository_def repoTags_def getJSON_def zot_do_def zot_DeleteTag_def headManifest_def
      exchange_def two_repos_Do_def zot_reply_def is_2xx_def tags rawManifest_def putManifest_def paths_distinct tags_path_def delete_path_def run)
qed
end
