(* ===== verification/IamClients.thy ===== *)
theory IamClients
  imports Fga UseCases
begin

text \<open>
  The clients of kacho-iam: \<open>clients/iam/register_applier.go\<close> delivers the rows of the outbox,
  \<open>clients/iam/iam_client.go\<close> looks a project up, \<open>check/check_client.go\<close> asks for a permission and
  \<open>check/factory.go\<close> configures the interceptor. The generated stubs, the retry helper, the drainer
  and the interceptor of the library are parameters; a call that runs out of time is an error of
  the stub.
\<close>

section \<open>Delivery of outbox rows\<close>

text \<open>What the applier tells the drainer. The sentinels of the drainer are constructors; a formatted
  text is represented by what it is formatted from.\<close>

datatype poison = InvalidJSON string | EmptyTupleSet | IncompleteTuple nat fga_tuple
  | UnknownEventType string | Rejected string

datatype duplicate = DuplicateTuple string | AllTuplesApplied

datatype drain_error = AlreadyApplied duplicate | Permanent poison | Transient gerror

record register_request =
  rr_SubjectId :: string
  rr_Relation :: string
  rr_Object :: string
  rr_TraceId :: string
  rr_Labels :: labels
  rr_ParentProjectId :: string

record 'w register_client =
  rc_RegisterResource :: "register_request \<Rightarrow> ('w, gerror option) state"
  rc_UnregisterResource :: "register_request \<Rightarrow> ('w, gerror option) state"

definition errRegisterClientNotConfigured :: gerror where
  "errRegisterClientNotConfigured = Raw ''iam register client not configured''"

text \<open>\<open>NewRegisterResourceClient\<close>: no connection, no client.\<close>

definition NewRegisterResourceClient :: "('c \<Rightarrow> 'w register_client) \<Rightarrow> 'c option \<Rightarrow> 'w register_client option" where
  "NewRegisterResourceClient stub conn = (case conn of None \<Rightarrow> None | Some c \<Rightarrow> Some (stub c))"

fun first_incomplete :: "nat \<Rightarrow> fga_tuple list \<Rightarrow> poison option" where
  "first_incomplete idx [] = None"
| "first_incomplete idx (t # ts) = (if \<not> tuple_valid t then Some (IncompleteTuple idx t) else first_incomplete (Suc idx) ts)"

definition DecodeRegisterIntent :: "('p \<Rightarrow> string + register_intent) \<Rightarrow> 'p \<Rightarrow> drain_error + register_intent" where
  "DecodeRegisterIntent unmarshal payload = (case unmarshal payload of
       Inl e \<Rightarrow> Inl (Permanent (InvalidJSON e))
     | Inr i \<Rightarrow>
         if length (i_tuples i) = 0 then Inl (Permanent EmptyTupleSet)
         else (case first_incomplete 0 (i_tuples i) of Some p \<Rightarrow> Inl (Permanent p) | None \<Rightarrow> Inr i))"

definition classifyRegisterErr :: "gerror option \<Rightarrow> drain_error option" where
  "classifyRegisterErr err = (case err of
       None \<Rightarrow> None
     | Some (GStatus AlreadyExists m) \<Rightarrow> Some (AlreadyApplied (DuplicateTuple m))
     | Some (GStatus InvalidArgument m) \<Rightarrow> Some (Permanent (Rejected m))
     | Some e \<Rightarrow> Some (Transient e))"

definition register_request_of :: "register_intent \<Rightarrow> fga_tuple \<Rightarrow> register_request" where
  "register_request_of intent t = \<lparr>rr_SubjectId = tp_subject_id t, rr_Relation = tp_relation t, rr_Object = tp_object t,
     rr_TraceId = i_resource_id intent, rr_Labels = i_labels intent, rr_ParentProjectId = i_parent_project_id intent\<rparr>"

text \<open>The loop over the tuples, with \<open>allAlreadyApplied\<close>.\<close>

fun apply_tuples :: "(fga_tuple \<Rightarrow> ('w, gerror option) state) \<Rightarrow> bool \<Rightarrow> fga_tuple list \<Rightarrow> ('w, drain_error + bool) state" where
  "apply_tuples apply allAlreadyApplied [] = State_Monad.return (Inr allAlreadyApplied)"
| "apply_tuples apply allAlreadyApplied (t # ts) = do {
     err \<leftarrow> apply t;
     (case classifyRegisterErr err of
        None \<Rightarrow> apply_tuples apply False ts
      | Some (AlreadyApplied d) \<Rightarrow> apply_tuples apply allAlreadyApplied ts
      | Some cerr \<Rightarrow> State_Monad.return (Inl cerr)) }"

definition NewRegisterApplier :: "'w register_client option \<Rightarrow> string \<Rightarrow> register_intent \<Rightarrow> ('w, drain_error option) state" where
  "NewRegisterApplier cli eventType intent = (case cli of
       None \<Rightarrow> State_Monad.return (Some (Transient errRegisterClientNotConfigured))
     | Some c \<Rightarrow>
         if eventType \<noteq> FGAEventRegister \<and> eventType \<noteq> FGAEventUnregister
         then State_Monad.return (Some (Permanent (UnknownEventType eventType)))
         else do {
           r \<leftarrow> apply_tuples (\<lambda>t. (if eventType = FGAEventRegister then rc_RegisterResource c else rc_UnregisterResource c)
                  (register_request_of intent t)) True (i_tuples intent);
           State_Monad.return (case r of
               Inl cerr \<Rightarrow> Some cerr
             | Inr allAlreadyApplied \<Rightarrow>
                 if allAlreadyApplied \<and> length (i_tuples intent) > 0 then Some (AlreadyApplied AllTuplesApplied) else None) })"

section \<open>Existence of a project\<close>

record ('w, 'c) iam_client =
  ic_conn :: "'c option"
  ic_Get :: "'c \<Rightarrow> string \<Rightarrow> ('w, gerror option) state"
  ic_OnUnavailable :: "('w, gerror option) state \<Rightarrow> ('w, gerror option) state"

definition iam_ready :: "('w, 'c) iam_client \<Rightarrow> gerror option" where
  "iam_ready c = (if ic_conn c = None then Some (bare ErrUnavailable) else None)"

definition project_error :: "gerror option \<Rightarrow> gerror option" where
  "project_error err = (case err of
       None \<Rightarrow> None
     | Some (GStatus code m) \<Rightarrow>
         if code \<in> {NotFound, PermissionDenied, InvalidArgument} then Some (bare ErrInvalidArg)
         else if code \<in> {Unavailable, DeadlineExceeded} then Some (bare ErrUnavailable)
         else Some (bare ErrInternal)
     | Some e \<Rightarrow> Some (bare ErrInternal))"

definition ProjectExists :: "('w, 'c) iam_client \<Rightarrow> string \<Rightarrow> ('w, gerror + unit) state" where
  "ProjectExists c projectID = andThen (guard_ok (iam_ready c)) (\<lambda>_.
     if projectID = [] then State_Monad.return (Inl (bare ErrInvalidArg))
     else do {
       err \<leftarrow> ic_OnUnavailable c (ic_Get c (the (ic_conn c)) projectID);
       State_Monad.return (opt_err (project_error err)) })"

section \<open>Permission checks\<close>

record check_request =
  cr_SubjectId :: string
  cr_Relation :: string
  cr_Object :: string

type_synonym 'w check_stub = "check_request \<Rightarrow> ('w, gerror + bool) state"

definition IAMCheck :: "'w check_stub \<Rightarrow> string \<Rightarrow> string \<Rightarrow> string \<Rightarrow> ('w, gerror + bool) state" where
  "IAMCheck cli subjectID relation object =
     andThen (cli \<lparr>cr_SubjectId = subjectID, cr_Relation = relation, cr_Object = object\<rparr>)
       (\<lambda>allowed. State_Monad.return (Inr allowed))"

text \<open>The interceptor of the library is what its options say; its cache is represented by its TTL.\<close>

record ('c, 'm) interceptor_options =
  io_ServiceName :: string
  io_Map :: 'm
  io_Client :: "'c option"
  io_CacheTTL :: int
  io_Breakglass :: bool

record 'c check_options =
  co_ServiceName :: string
  co_IAMConn :: "'c option"
  co_Breakglass :: bool
  co_CacheTTL :: int

definition disabledCacheTTL :: int where "disabledCacheTTL = 1"

definition authzCache :: "int \<Rightarrow> int" where
  "authzCache ttl = (if ttl > 0 then ttl else disabledCacheTTL)"

definition ErrIAMConnNotConfigured :: gerror where
  "ErrIAMConnNotConfigured = Raw ''check: IAM connection not configured and Breakglass=false''"

definition NewInterceptor :: "'m \<Rightarrow> 'c check_options \<Rightarrow> gerror + ('c, 'm) interceptor_options" where
  "NewInterceptor permissionMap opts =
     (if \<not> co_Breakglass opts \<and> co_IAMConn opts = None then Inl ErrIAMConnNotConfigured
      else Inr \<lparr>io_ServiceName = co_ServiceName opts, io_Map = permissionMap,
        io_Client = (if co_Breakglass opts then None else co_IAMConn opts),
        io_CacheTTL = authzCache (co_CacheTTL opts), io_Breakglass = co_Breakglass opts\<rparr>)"

end
