(* ===== verification/IamProps.thy ===== *)
theory IamProps
  imports IamClients UseCaseProps
begin

text \<open>
  What the clients of kacho-iam promise: a delivered row of the outbox has every tuple applied, also
  when earlier attempts got through only in part; the rows the program writes are never poisoned by
  the decoder; and the lookup of a project does not tell an absent project from a hidden one.
\<close>

section \<open>Delivery\<close>

text \<open>iam as a store of tuples, for the time of one attempt: the tuples it was asked to register, without
  the access it derives from them. A registration that is answered or reported as a duplicate is
  stored; whatever the answer, it removes nothing and adds no other tuple. An unregistration that is
  answered or reported as done is gone; whatever the answer, it adds nothing, and takes no tuple of another
  object - of the same object it may take more, since iam collects the owner tuple with the
  link to the parent.\<close>

definition tuple_of :: "register_request \<Rightarrow> fga_tuple" where
  "tuple_of r = \<lparr>tp_subject_id = rr_SubjectId r, tp_relation = rr_Relation r, tp_object = rr_Object r\<rparr>"

lemma tuple_of_request [simp]: "tuple_of (register_request_of intent t) = t"
  by (simp add: tuple_of_def register_request_of_def)

definition acknowledged :: "gerror option \<Rightarrow> bool" where
  "acknowledged e \<longleftrightarrow> (case classifyRegisterErr e of None \<Rightarrow> True | Some (AlreadyApplied d) \<Rightarrow> True | _ \<Rightarrow> False)"

text \<open>One direction of the store: \<open>held\<close> is what the requests aim at, the tuples that are present
  for a registration and those that are absent for an unregistration; \<open>near\<close> are the tuples a request
  for a tuple may touch.\<close>

definition aims :: "(register_request \<Rightarrow> ('w, gerror option) state) \<Rightarrow> ('w \<Rightarrow> fga_tuple set) \<Rightarrow> (fga_tuple \<Rightarrow> fga_tuple set) \<Rightarrow> bool" where
  "aims call held near \<longleftrightarrow> (\<forall>r s e t. run_state (call r) s = (e, t) \<longrightarrow>
     held s \<subseteq> held t \<and> held t \<subseteq> held s \<union> near (tuple_of r) \<and> (acknowledged e \<longrightarrow> tuple_of r \<in> held t))"

definition same_object :: "fga_tuple \<Rightarrow> fga_tuple set" where
  "same_object t = {x. tp_object x = tp_object t}"

definition tuple_store :: "'w register_client \<Rightarrow> ('w \<Rightarrow> fga_tuple set) \<Rightarrow> bool" where
  "tuple_store c tuples \<longleftrightarrow> aims (rc_RegisterResource c) tuples (\<lambda>t. {t}) \<and>
     aims (rc_UnregisterResource c) (\<lambda>w. - tuples w) same_object"

definition serving :: "'w register_client \<Rightarrow> bool" where
  "serving c \<longleftrightarrow> (\<forall>r s. acknowledged (fst (run_state (rc_RegisterResource c r) s)) \<and>
     acknowledged (fst (run_state (rc_UnregisterResource c r) s)))"

definition confirmed :: "drain_error option \<Rightarrow> bool" where
  "confirmed r \<longleftrightarrow> r = None \<or> (\<exists>d. r = Some (AlreadyApplied d))"

lemma apply_tuples_held:
  assumes "aims call held near"
    and "run_state (apply_tuples (\<lambda>t. call (register_request_of intent t)) b ts) s = (r, w)"
  shows "held s \<subseteq> held w \<and> held w \<subseteq> held s \<union> (\<Union>t \<in> set ts. near t) \<and> (\<forall>a. r = Inr a \<longrightarrow> set ts \<subseteq> held w) \<and>
    (\<forall>d. r \<noteq> Inl (AlreadyApplied d))"
  using assms(2)
proof (induction ts arbitrary: b s)
  case (Cons t ts)
  obtain e u where e: "run_state (call (register_request_of intent t)) s = (e, u)" by force
  note one = assms(1) [unfolded aims_def, rule_format, OF e, simplified]
  show ?case
  proof (cases "acknowledged e")
    case True
    then obtain b' where "run_state (apply_tuples (\<lambda>t. call (register_request_of intent t)) b' ts) u = (r, w)"
      using Cons.prems e by (auto simp: run acknowledged_def split: option.splits drain_error.splits)
    from Cons.IH [OF this] one True show ?thesis by auto
  next
    case False
    then have "w = u" "\<exists>cerr. r = Inl cerr \<and> (\<forall>d. cerr \<noteq> AlreadyApplied d)"
      using Cons.prems e by (auto simp: run acknowledged_def split: option.splits drain_error.splits)
    with one show ?thesis by auto
  qed
qed (auto simp: run)

lemma apply_tuples_serving:
  assumes "\<And>r s. acknowledged (fst (run_state (call r) s))"
  shows "\<exists>b' w. run_state (apply_tuples (\<lambda>t. call (register_request_of intent t)) b ts) s = (Inr b', w)"
proof (induction ts arbitrary: b s)
  case (Cons t ts)
  obtain e u where e: "run_state (call (register_request_of intent t)) s = (e, u)" by force
  with assms [of "register_request_of intent t" s] have "acknowledged e" by simp
  with Cons.IH e show ?case by (auto simp: run acknowledged_def split: option.splits drain_error.splits)
qed (simp add: run)


text \<open>A concrete iam that stores a list of tuples, rejects nothing and collects the owner.\<close>

definition demo_iam :: "fga_tuple list register_client" where
  "demo_iam = \<lparr>rc_RegisterResource = (\<lambda>r. State (\<lambda>w. if tuple_of r \<in> set w then (Some (GStatus AlreadyExists ''exists''), w)
       else (None, tuple_of r # w))),
     rc_UnregisterResource = (\<lambda>r. State (\<lambda>w. (None, filter (\<lambda>t. t \<noteq> tuple_of r \<and>
       \<not> (tp_relation t = FGARelationOwner \<and> tp_object t = rr_Object r)) w)))\<rparr>"

lemma demo_iam_store: "tuple_store demo_iam set" "serving demo_iam"
  by (auto simp: tuple_store_def serving_def aims_def same_object_def demo_iam_def tuple_of_def acknowledged_def classifyRegisterErr_def)


section \<open>Decoding\<close>

text \<open>The intents the program builds.\<close>

inductive_set program_intents :: "register_intent set" where
  "RegisterIntentForCreate r ptype pid \<in> program_intents"
| "RegisterIntentForUpdate r \<in> program_intents"
| "UnregisterIntentForDelete reg prj \<in> program_intents"
| "RegisterIntentForRepoPush reg repo prj subject \<in> program_intents"
| "UnregisterIntentForRepo reg repo \<in> program_intents"
| "RegisterIntentForRepoPublicGrant reg repo \<in> program_intents"
| "UnregisterIntentForRepoPublicGrant reg repo \<in> program_intents"

lemma first_incomplete_None: "list_all tuple_valid ts \<Longrightarrow> first_incomplete n ts = None"
  by (induction ts arbitrary: n) auto

lemma program_intents_valid: "i \<in> program_intents \<Longrightarrow> i_tuples i \<noteq> [] \<and> list_all tuple_valid (i_tuples i)"
  by (erule program_intents.cases) (simp_all add: intent_tuples_valid)

lemma program_intents_decode:
  "i \<in> program_intents \<Longrightarrow> unmarshal payload = Inr i \<Longrightarrow> DecodeRegisterIntent unmarshal payload = Inr i"
  by (simp add: DecodeRegisterIntent_def program_intents_valid first_incomplete_None)

section \<open>Existence of a project\<close>

definition project_answer :: "string \<Rightarrow> gerror \<Rightarrow> gerror" where
  "project_answer projectID e = (case e of
       GStatus code m \<Rightarrow>
         if code \<in> {NotFound, PermissionDenied, InvalidArgument}
         then GStatus InvalidArgument (''project '' @ projectID @ '' not found'')
         else if code \<in> {Unavailable, DeadlineExceeded}
         then GStatus Unavailable ''project existence check unavailable''
         else internal_status
     | _ \<Rightarrow> internal_status)"

lemma project_error_answer:
  "map_option (projectExistsErr projectID) (project_error reply) = map_option (project_answer projectID) reply"
proof (cases reply)
  case (Some e)
  have "projectExistsErr projectID (bare ErrInternal) = internal_status"
    by (simp add: projectExistsErr_def mapRepoErr_def bare_def)
  moreover have "projectExistsErr projectID (bare ErrInvalidArg) = GStatus InvalidArgument (''project '' @ projectID @ '' not found'')"
    "projectExistsErr projectID (bare ErrUnavailable) = GStatus Unavailable ''project existence check unavailable''"
    by (simp_all add: projectExistsErr_def)
  ultimately show ?thesis
    unfolding Some by (cases e) (simp_all only: project_error_def project_answer_def option.simps gerror.simps if_distrib, simp_all)
qed (simp add: project_error_def)

text \<open>
  C36. The lookup of a project hides its existence: a caller who may not see a project, one who names
  an absent project and one who names a malformed one get the same status with the same text;
  a failure of iam is UNAVAILABLE, any other answer the fixed INTERNAL status, and no text of iam
  reaches the caller in any case.
\<close>

theorem project_lookup_hides_existence:
  assumes "run_state (ProjectExists c projectID) s = (r, t)" and "ic_conn c = Some conn" and "projectID \<noteq> []"
    and "run_state (ic_OnUnavailable c (ic_Get c conn projectID)) s = (reply, t)"
  shows "(case reply of None \<Rightarrow> r = Inr ()
    | Some e \<Rightarrow> \<exists>err. r = Inl err \<and> projectExistsErr projectID err = project_answer projectID e)"
proof -
  have "r = opt_err (project_error reply)"
    using assms by (simp add: ProjectExists_def run guard_ok_def iam_ready_def)
  with project_error_answer [of projectID reply] show ?thesis
    by (cases reply; cases "project_error reply") simp_all
qed

definition demo_projects :: "(unit, unit) iam_client" where
  "demo_projects = \<lparr>ic_conn = Some (), ic_Get = (\<lambda>_ p. State_Monad.return (Some (GStatus PermissionDenied ''secret''))),
     ic_OnUnavailable = (\<lambda>m. m)\<rparr>"

lemma project_lookup_hides_existence_witness:
  "\<exists>err. fst (run_state (ProjectExists demo_projects ''prj1'') ()) = Inl err \<and>
     projectExistsErr ''prj1'' err = GStatus InvalidArgument ''project prj1 not found''"
proof -
  have "run_state (ic_OnUnavailable demo_projects (ic_Get demo_projects () ''prj1'')) () = (Some (GStatus PermissionDenied ''secret''), ())"
    by (simp add: demo_projects_def run)
  moreover have "run_state (ProjectExists demo_projects ''prj1'') () = (fst (run_state (ProjectExists demo_projects ''prj1'') ()), ())"
    by (simp add: prod_eq_iff)
  ultimately show ?thesis
    using project_lookup_hides_existence [of demo_projects "''prj1''" "()" _ "()" "()" "Some (GStatus PermissionDenied ''secret'')"]
    by (simp add: demo_projects_def project_answer_def)
qed

end
