(* ===== verification/Proxy.thy ===== *)
theory Proxy
  imports DataPlane
begin

text \<open>
  \<open>dataplane/proxy.go\<close>: the forwarder to the engine. \<open>httputil.ReverseProxy\<close> with the engine behind it
  is a parameter that turns the rewritten request into the calls it makes on the response writer,
  or fails; the two recorders and the client's end of the connection are folds over these calls.
  Header keys are in canonical form, as \<open>net/http\<close> delivers them.
\<close>

section \<open>The outbound request\<close>

record url =
  url_Scheme :: string
  url_Host :: string
  url_Path :: string

record outbound =
  ob_Method :: string
  ob_URL :: url
  ob_RawQuery :: string
  ob_Host :: string
  ob_Header :: "(string \<times> string) list"

definition singleJoiningSlash :: "string \<Rightarrow> string \<Rightarrow> string" where
  "singleJoiningSlash a b =
     (let aslash = (a \<noteq> [] \<and> last a = CHR ''/''); bslash = has_prefix b ''/'' in
      if aslash \<and> bslash then a @ drop 1 b
      else if \<not> aslash \<and> \<not> bslash then a @ ''/'' @ b
      else a @ b)"

text \<open>\<open>ProxyRequest.SetURL\<close> for a target without query, and \<open>Header.Del\<close>.\<close>

definition SetURL :: "url \<Rightarrow> outbound \<Rightarrow> outbound" where
  "SetURL target out = out\<lparr>ob_URL := target\<lparr>url_Path := singleJoiningSlash (url_Path target) (url_Path (ob_URL out))\<rparr>, ob_Host := []\<rparr>"

definition header_Del :: "string \<Rightarrow> (string \<times> string) list \<Rightarrow> (string \<times> string) list" where
  "header_Del key hs = filter (\<lambda>(k, v). k \<noteq> key) hs"

definition Rewrite :: "url \<Rightarrow> outbound \<Rightarrow> outbound" where
  "Rewrite target inbound =
     (let out = (SetURL target inbound)\<lparr>ob_Host := ob_Host inbound\<rparr> in
      out\<lparr>ob_Header := header_Del ''Cookie'' (header_Del ''Authorization'' (ob_Header out))\<rparr>)"

section \<open>Response writers\<close>

datatype writer_call = AddHeader string string | ClearHeaders | WriteHeader int | Write string | Flush

text \<open>The server's writer: an informational status is sent on and does not end the header, the first
  other status does; a body without a status is a 200.\<close>

record client_view =
  cv_header :: "(string \<times> string) list"
  cv_status :: "(int \<times> (string \<times> string) list) option"
  cv_body :: string

definition informational :: "int \<Rightarrow> bool" where
  "informational code \<longleftrightarrow> 100 \<le> code \<and> code \<le> 199 \<and> code \<noteq> 101"

fun client_step :: "client_view \<Rightarrow> writer_call \<Rightarrow> client_view" where
  "client_step c (AddHeader k v) = c\<lparr>cv_header := cv_header c @ [(k, v)]\<rparr>"
| "client_step c ClearHeaders = c\<lparr>cv_header := []\<rparr>"
| "client_step c (WriteHeader code) =
     (if cv_status c \<noteq> None \<or> informational code then c else c\<lparr>cv_status := Some (code, cv_header c)\<rparr>)"
| "client_step c (Write s) =
     (let c' = (if cv_status c = None then c\<lparr>cv_status := Some (200, cv_header c)\<rparr> else c) in c'\<lparr>cv_body := cv_body c' @ s\<rparr>)"
| "client_step c Flush = (if cv_status c = None then c\<lparr>cv_status := Some (200, cv_header c)\<rparr> else c)"

definition client_start :: client_view where
  "client_start = \<lparr>cv_header = [], cv_status = None, cv_body = []\<rparr>"

definition client_sees :: "writer_call list \<Rightarrow> response" where
  "client_sees calls =
     (let c = foldl client_step client_start calls;
          (code, hs) = (case cv_status c of Some st \<Rightarrow> st | None \<Rightarrow> (200, cv_header c)) in
      \<lparr>rs_Status = code, rs_Header = hs, rs_Body = Bytes (cv_body c)\<rparr>)"

section \<open>The recorders\<close>

record statusRecorder =
  sr_status :: int
  sr_written :: bool

fun statusRecorder_step :: "statusRecorder \<Rightarrow> writer_call \<Rightarrow> statusRecorder" where
  "statusRecorder_step s (WriteHeader code) = (if \<not> sr_written s then s\<lparr>sr_status := code, sr_written := True\<rparr> else s)"
| "statusRecorder_step s (Write b) = (if \<not> sr_written s then s\<lparr>sr_status := 200, sr_written := True\<rparr> else s)"
| "statusRecorder_step s _ = s"

record bufferingRecorder =
  br_header :: "(string \<times> string) list"
  br_status :: int
  br_body :: string
  br_written :: bool

fun bufferingRecorder_step :: "bufferingRecorder \<Rightarrow> writer_call \<Rightarrow> bufferingRecorder" where
  "bufferingRecorder_step b (AddHeader k v) = b\<lparr>br_header := br_header b @ [(k, v)]\<rparr>"
| "bufferingRecorder_step b ClearHeaders = b\<lparr>br_header := []\<rparr>"
| "bufferingRecorder_step b (WriteHeader code) = (if \<not> br_written b then b\<lparr>br_status := code, br_written := True\<rparr> else b)"
| "bufferingRecorder_step b (Write s) =
     (let b' = (if \<not> br_written b then b\<lparr>br_status := 200, br_written := True\<rparr> else b) in b'\<lparr>br_body := br_body b' @ s\<rparr>)"
| "bufferingRecorder_step b Flush = b"

section \<open>The forwarder\<close>

text \<open>The calls of the error handler; \<open>Failed\<close> is any failure of the exchange with the engine.\<close>

datatype proxied = Responded "writer_call list" | Failed

definition quoted :: "string \<Rightarrow> string" where
  "quoted s = CHR 0x22 # s @ [CHR 0x22]"

definition error_calls :: "writer_call list" where
  "error_calls = [AddHeader ''Content-Type'' ''application/json'', WriteHeader 502,
     Write (''{'' @ quoted ''errors'' @ '':[{'' @ quoted ''code'' @ '':'' @ quoted ''UNAVAILABLE'' @ '','' @
       quoted ''message'' @ '':'' @ quoted ''backend unavailable'' @ ''}]}'' @ [CHR 0x0A])]"

definition calls_of :: "proxied \<Rightarrow> writer_call list" where
  "calls_of p = (case p of Responded calls \<Rightarrow> calls | Failed \<Rightarrow> error_calls)"

definition recorded_status :: "writer_call list \<Rightarrow> int" where
  "recorded_status calls = sr_status (foldl statusRecorder_step \<lparr>sr_status = 200, sr_written = False\<rparr> calls)"

definition recorded_response :: "writer_call list \<Rightarrow> response" where
  "recorded_response calls =
     (let b = foldl bufferingRecorder_step \<lparr>br_header = [], br_status = 200, br_body = [], br_written = False\<rparr> calls in
      \<lparr>rs_Status = br_status b, rs_Header = br_header b, rs_Body = Bytes (br_body b)\<rparr>)"

text \<open>The two operations as ports of the data plane. What the client receives of a forwarded request
  is the second component; its status is replaced by the one the caller gets.\<close>

definition ZotForwarder :: "url \<Rightarrow> (request \<Rightarrow> outbound) \<Rightarrow> (outbound \<Rightarrow> ('w, proxied) state) \<Rightarrow> 'w forwarder" where
  "ZotForwarder target inbound engine = \<lparr>
     fw_Forward = (\<lambda>r. do { p \<leftarrow> engine (Rewrite target (inbound r));
       State_Monad.return ((client_sees (calls_of p))\<lparr>rs_Status := recorded_status (calls_of p)\<rparr>) }),
     fw_ForwardCapture = (\<lambda>r. do { p \<leftarrow> engine (Rewrite target (inbound r));
       State_Monad.return (recorded_response (calls_of p)) })\<rparr>"

end
