(* ===== verification/Startup.thy ===== *)
theory Startup
  imports IamClients Jwks Proxy Handlers
begin

text \<open>
  The composition root: the configuration of \<open>config/config.go\<close> with its connection strings, and the
  guards and the wiring of \<open>cmd/kacho-registry/serve.go\<close>. Opening sockets and pools, dialling and
  TLS credentials are parameters that may fail; a client is represented by the connection it uses,
  an interceptor by its kind. \<open>url.Parse\<close> is modelled up to the scheme; what follows the scheme is
  read by a parameter.
\<close>

section \<open>Configuration\<close>

record 'tls tls_edge =
  te_Enable :: bool
  te_Creds :: 'tls

record 'tls config =
  cf_DBHost :: string
  cf_DBPort :: string
  cf_DBUser :: string
  cf_DBPassword :: string
  cf_DBName :: string
  cf_DBSSLMode :: string
  cf_DBMaxConns :: int
  cf_DBStatementTimeout :: string
  cf_GrpcPort :: string
  cf_InternalGrpcPort :: string
  cf_AuthMode :: string
  cf_AuthZIAMGRPCAddr :: string
  cf_IAMProjectGRPCAddr :: string
  cf_AuthZBreakglass :: bool
  cf_AuthZCacheTTL :: int
  cf_ZotAddr :: string
  cf_PendingBlobTTL :: int
  cf_PushGrantTTL :: int
  cf_DataplaneAddr :: string
  cf_IAMJWKSURL :: string
  cf_TokenRealm :: string
  cf_ServiceAud :: string
  cf_DataplaneTLSTerminatedExternally :: bool
  cf_HydraIssuer :: string
  cf_AnonymousSubjectID :: string
  cf_EndpointBase :: string
  cf_IAMAuthzMTLS :: "'tls tls_edge"
  cf_IAMProjectMTLS :: "'tls tls_edge"
  cf_PublicServerMTLS :: "'tls tls_edge"
  cf_InternalServerMTLS :: "'tls tls_edge"

definition seconds :: "int \<Rightarrow> int" where "seconds n = n * 1000000000"

text \<open>The \<open>default\<close> tags; the password is required, the TLS edges come from the library.\<close>

definition default_config :: "string \<Rightarrow> 'tls tls_edge \<Rightarrow> 'tls config" where
  "default_config password edge = \<lparr>cf_DBHost = ''localhost'', cf_DBPort = ''5432'', cf_DBUser = ''registry'',
     cf_DBPassword = password, cf_DBName = ''kacho_registry'', cf_DBSSLMode = ''disable'', cf_DBMaxConns = 0,
     cf_DBStatementTimeout = ''30s'', cf_GrpcPort = ''9090'', cf_InternalGrpcPort = ''9091'', cf_AuthMode = ''dev'',
     cf_AuthZIAMGRPCAddr = [], cf_IAMProjectGRPCAddr = ''kacho-iam.kacho.svc.cluster.local:9090'',
     cf_AuthZBreakglass = False, cf_AuthZCacheTTL = seconds 2, cf_ZotAddr = [], cf_PendingBlobTTL = seconds 3600,
     cf_PushGrantTTL = seconds 60, cf_DataplaneAddr = '':8080'',
     cf_IAMJWKSURL = ''https://kacho-iam-internal.kacho.svc.cluster.local:9097/.well-known/jwks.json'',
     cf_TokenRealm = ''https://api.kacho.local/iam/token'', cf_ServiceAud = ''registry.kacho.local'',
     cf_DataplaneTLSTerminatedExternally = False, cf_HydraIssuer = [], cf_AnonymousSubjectID = [],
     cf_EndpointBase = ''registry.kacho.local'', cf_IAMAuthzMTLS = edge, cf_IAMProjectMTLS = edge,
     cf_PublicServerMTLS = edge, cf_InternalServerMTLS = edge\<rparr>"

section \<open>Connection strings\<close>

text \<open>The bytes \<open>net/url\<close> does not escape in the parts of a URL.\<close>

definition userinfo_escape :: "string \<Rightarrow> string" where
  "userinfo_escape = escape_with (\<lambda>c. unreserved c \<or> c \<in> set ''$&+,;='')"

definition host_escape :: "string \<Rightarrow> string" where
  "host_escape = escape_with (\<lambda>c. unreserved c \<or> c \<in> set ''!$&()*+,;=:[]<>'' \<or> c = CHR 0x27 \<or> c = CHR 0x22)"

definition url_path_escape :: "string \<Rightarrow> string" where
  "url_path_escape = escape_with (\<lambda>c. unreserved c \<or> c \<in> set ''$&+,/:;=@'')"

definition JoinHostPort :: "string \<Rightarrow> string \<Rightarrow> string" where
  "JoinHostPort host port = (if CHR '':'' \<in> set host then ''['' @ host @ '']:'' @ port else host @ '':'' @ port)"

definition userinfo_string :: "string \<Rightarrow> string \<Rightarrow> string" where
  "userinfo_string user password = (if user \<noteq> [] \<or> password \<noteq> [] then userinfo_escape user @ '':'' @ userinfo_escape password else [])"

definition searchPathOption :: string where
  "searchPathOption = ''-c search_path=kacho_registry,public''"

definition baseDSN :: "'tls config \<Rightarrow> string list \<Rightarrow> string" where
  "baseDSN c extraOptions =
     (let mode = (if cf_DBSSLMode c = [] then ''disable'' else cf_DBSSLMode c);
          options = foldl (\<lambda>acc opt. if opt \<noteq> [] then acc @ '' '' @ opt else acc) searchPathOption extraOptions in
      ''postgres://'' @ userinfo_string (cf_DBUser c) (cf_DBPassword c) @ ''@'' @
      host_escape (JoinHostPort (cf_DBHost c) (cf_DBPort c)) @ url_path_escape (''/'' @ cf_DBName c) @
      ''?options='' @ query_escape options @ ''&sslmode='' @ query_escape mode)"

definition DSN :: "'tls config \<Rightarrow> string" where
  "DSN c =
     (let extra = (if cf_DBStatementTimeout c \<noteq> [] \<and> cf_DBStatementTimeout c \<noteq> ''0''
          then [''-c statement_timeout='' @ cf_DBStatementTimeout c] else []);
          dsn = baseDSN c extra in
      if cf_DBMaxConns c > 0 then dsn @ ''&pool_max_conns='' @ itoa (cf_DBMaxConns c) else dsn)"

definition MigrateDSN :: "'tls config \<Rightarrow> string" where
  "MigrateDSN c = baseDSN c []"

section \<open>Guards\<close>

text \<open>An error of the start; a formatted text is represented by what it is formatted from.\<close>

datatype startup_error = UnknownAuthMode string | StrictModeNeedsSSL string | AuthzCheckRequired | MTLSRequired
  | InvalidJWKSURL string | PlaintextJWKS string string | TLSAckRequired string | IssuerRequired string
  | ZotEndpointRequired | ZotEndpointUnparsable | ZotEndpointRelative string | JWKSURLRequired | AuthzConnRequired
  | InterceptorFailed gerror | Failed string string

definition ok_then :: "'e + 'a \<Rightarrow> ('a \<Rightarrow> 'e + 'b) \<Rightarrow> 'e + 'b" where
  "ok_then r f = (case r of Inl e \<Rightarrow> Inl e | Inr a \<Rightarrow> f a)"

definition validateAuthMode :: "'tls config \<Rightarrow> startup_error + unit" where
  "validateAuthMode cfg =
     (if cf_AuthMode cfg = ''dev'' then Inr ()
      else if cf_AuthMode cfg = ''production'' then Inr ()
      else if cf_AuthMode cfg = ''production-strict''
      then (if cf_DBSSLMode cfg \<in> {''require'', ''verify-ca'', ''verify-full''} then Inr ()
            else Inl (StrictModeNeedsSSL (cf_DBSSLMode cfg)))
      else Inl (UnknownAuthMode (cf_AuthMode cfg)))"

definition validateSecurityConfig :: "'tls config \<Rightarrow> startup_error + unit" where
  "validateSecurityConfig cfg =
     (if cf_AuthZBreakglass cfg then Inr ()
      else if cf_AuthZIAMGRPCAddr cfg = [] then Inl AuthzCheckRequired
      else if \<not> te_Enable (cf_PublicServerMTLS cfg) \<or> \<not> te_Enable (cf_InternalServerMTLS cfg) then Inl MTLSRequired
      else Inr ())"

definition production :: "string \<Rightarrow> bool" where
  "production authMode \<longleftrightarrow> authMode = ''production'' \<or> authMode = ''production-strict''"

text \<open>\<open>url.Parse\<close>: the scheme, then \<open>rest\<close> for the remainder, which gives the host and the path, or an error.\<close>

definition scheme_letter :: "char \<Rightarrow> bool" where
  "scheme_letter c \<longleftrightarrow> (let v = of_char c :: nat in 97 \<le> v \<and> v \<le> 122 \<or> 65 \<le> v \<and> v \<le> 90)"

definition scheme_other :: "char \<Rightarrow> bool" where
  "scheme_other c \<longleftrightarrow> (let v = of_char c :: nat in 48 \<le> v \<and> v \<le> 57) \<or> c \<in> set ''+-.''"

fun getScheme :: "string \<Rightarrow> string \<Rightarrow> string \<Rightarrow> (string \<times> string) option" where
  "getScheme raw acc [] = Some ([], raw)"
| "getScheme raw acc (c # cs) =
     (if scheme_letter c then getScheme raw (acc @ [c]) cs
      else if scheme_other c then (if acc = [] then Some ([], raw) else getScheme raw (acc @ [c]) cs)
      else if c = CHR '':'' then (if acc = [] then None else Some (acc, cs))
      else Some ([], raw))"

definition url_Parse :: "(string \<Rightarrow> (string \<times> string) option) \<Rightarrow> string \<Rightarrow> url option" where
  "url_Parse rest raw = (case getScheme raw [] raw of
       None \<Rightarrow> None
     | Some (scheme, r) \<Rightarrow>
         map_option (\<lambda>(host, path). \<lparr>url_Scheme = map ascii_lower scheme, url_Host = host, url_Path = path\<rparr>) (rest r))"

definition requireSecureJWKSURL :: "(string \<Rightarrow> (string \<times> string) option) \<Rightarrow> string \<Rightarrow> string \<Rightarrow> startup_error + unit" where
  "requireSecureJWKSURL rest authMode jwksURL =
     (if production authMode then
        (case url_Parse rest jwksURL of
           None \<Rightarrow> Inl (InvalidJWKSURL jwksURL)
         | Some u \<Rightarrow> if url_Scheme u \<noteq> ''https'' then Inl (PlaintextJWKS authMode (url_Scheme u)) else Inr ())
      else Inr ())"

definition requireDataplaneTLSAck :: "string \<Rightarrow> bool \<Rightarrow> startup_error + unit" where
  "requireDataplaneTLSAck authMode tlsTerminatedExternally =
     (if production authMode \<and> \<not> tlsTerminatedExternally then Inl (TLSAckRequired authMode) else Inr ())"

definition requireIssuerPinned :: "string \<Rightarrow> string \<Rightarrow> startup_error + unit" where
  "requireIssuerPinned authMode issuer =
     (if production authMode \<and> issuer = [] then Inl (IssuerRequired authMode) else Inr ())"

section \<open>The data plane\<close>

text \<open>\<open>NewZotForwarder\<close>: the target every request is sent to.\<close>

definition NewZotForwarder :: "(string \<Rightarrow> (string \<times> string) option) \<Rightarrow> string \<Rightarrow> startup_error + url" where
  "NewZotForwarder rest zotEndpoint =
     (if zotEndpoint = [] then Inl ZotEndpointRequired
      else (case url_Parse rest zotEndpoint of
          None \<Rightarrow> Inl ZotEndpointUnparsable
        | Some target \<Rightarrow> if url_Scheme target = [] \<or> url_Host target = [] then Inl (ZotEndpointRelative zotEndpoint)
            else Inr target))"

text \<open>The ports the data plane is built with: the forwarder for a target, the check for a connection,
  and the clock, library and exchange of the verifier.\<close>

record ('u, 'c) dataplane_ports =
  dp_repoReg :: "register_intent \<Rightarrow> ('u vstate, gerror + unit) state"
  dp_backend :: "'u vstate backend"
  dp_regLookup :: "string \<Rightarrow> ('u vstate, gerror + string) state"
  dp_uploads :: "'u vstate upload_recorder"
  dp_pushGrants :: "'u vstate push_grant_recorder"
  dp_forwarder :: "url \<Rightarrow> 'u vstate forwarder"
  dp_check :: "'c \<Rightarrow> 'u vstate check_stub"
  dp_codec :: codec
  dp_now :: "('u vstate, time) state"
  dp_fetch :: "string \<Rightarrow> ('u vstate, gerror + http_reply) state"

definition token_verifier :: "'u verifier \<Rightarrow> string \<Rightarrow> ('u vstate, gerror + string) state" where
  "token_verifier V raw = do { r \<leftarrow> Verify V raw; State_Monad.return (map_err (\<lambda>_. Raw ''invalid token'') r) }"

definition buildDataplaneHandler :: "(string \<Rightarrow> (string \<times> string) option) \<Rightarrow> ('u, 'c) dataplane_ports \<Rightarrow> 'tls config \<Rightarrow> 'c option \<Rightarrow>
    startup_error + 'u vstate handler" where
  "buildDataplaneHandler rest ports cfg authzConn =
     ok_then (requireDataplaneTLSAck (cf_AuthMode cfg) (cf_DataplaneTLSTerminatedExternally cfg)) (\<lambda>_.
     ok_then (NewZotForwarder rest (cf_ZotAddr cfg)) (\<lambda>target.
     ok_then (if cf_AuthZBreakglass cfg then Inr (None, None)
          else if cf_IAMJWKSURL cfg = [] then Inl JWKSURLRequired
          else ok_then (requireSecureJWKSURL rest (cf_AuthMode cfg) (cf_IAMJWKSURL cfg)) (\<lambda>_.
            ok_then (requireIssuerPinned (cf_AuthMode cfg) (cf_HydraIssuer cfg)) (\<lambda>_.
            (case authzConn of
               None \<Rightarrow> Inl AuthzConnRequired
             | Some conn \<Rightarrow>
                 Inr (Some (token_verifier (New_verifier (cf_IAMJWKSURL cfg) (cf_ServiceAud cfg) (cf_HydraIssuer cfg)
                        (dp_codec ports) (dp_now ports) (dp_fetch ports))),
                      Some (IAMCheck (dp_check ports conn))))))) (\<lambda>(verifier, authorizer).
     Inr (WithAnonymousSubject
       (NewHandler verifier authorizer (dp_backend ports) (dp_forwarder ports target) (Some (dp_repoReg ports))
          (Some (dp_regLookup ports)) (Some (dp_uploads ports)) (Some (dp_pushGrants ports))
          (cf_TokenRealm cfg) (cf_ServiceAud cfg)) (cf_AnonymousSubjectID cfg)))))"

section \<open>Sweepers\<close>

text \<open>\<open>runStaleSweeper\<close> over the events its \<open>select\<close> receives; a failed sweep is only logged.\<close>

datatype sweeper_event = Tick | Cancelled

fun runStaleSweeper :: "('w, gerror + int) state \<Rightarrow> sweeper_event list \<Rightarrow> ('w, unit) state" where
  "runStaleSweeper sweep [] = State_Monad.return ()"
| "runStaleSweeper sweep (Cancelled # events) = State_Monad.return ()"
| "runStaleSweeper sweep (Tick # events) = do { _ \<leftarrow> sweep; runStaleSweeper sweep events }"

section \<open>Wiring\<close>

text \<open>What the environment answers, with the text of its error: the pool, transport credentials,
  dialling, the drainer of an outbox table and its channel, and server credentials.\<close>

record ('tls, 'c) host =
  ho_NewPool :: "string \<Rightarrow> string + unit"
  ho_ClientCreds :: "'tls tls_edge \<Rightarrow> string + unit"
  ho_NewClient :: "string \<Rightarrow> 'tls tls_edge \<Rightarrow> string + 'c"
  ho_NewDrainer :: "string \<Rightarrow> string \<Rightarrow> string + unit"
  ho_ServerCreds :: "'tls tls_edge \<Rightarrow> string + unit"

type_synonym permission_map = "string \<rightharpoonup> rpc_entry"

datatype 'c link = PrincipalExtract | CertIdentityExtract | TrustedPrincipalExtract
  | Authz "('c, permission_map) interceptor_options"

datatype 'c grpc_service = RegistryService "'c option" | InternalRegistryService | OperationService

text \<open>A listener: its interceptors, outermost first, for single calls and for streams, and its services.\<close>

record 'c listener =
  ls_Unary :: "'c link list"
  ls_Stream :: "'c link list"
  ls_Services :: "'c grpc_service list"

record ('u, 'c) service =
  sv_authzConn :: "'c option"
  sv_projectConn :: "'c option"
  sv_drainerConn :: "'c option"
  sv_public :: "'c listener"
  sv_internal :: "'c listener"
  sv_dataplane :: "'u vstate handler option"
  sv_sweepers :: "(string \<times> int) list"

text \<open>The arrow of the messages, as UTF-8; an error that is passed on has no prefix.\<close>

definition registry_iam :: string where
  "registry_iam = ''registry'' @ [CHR 0xE2, CHR 0x86, CHR 0x92] @ ''iam ''"

definition failed :: "string \<Rightarrow> string + 'a \<Rightarrow> startup_error + 'a" where
  "failed prefix r = map_err (Failed prefix) r"

definition dial :: "('tls, 'c) host \<Rightarrow> string \<Rightarrow> string \<Rightarrow> string \<Rightarrow> 'tls tls_edge \<Rightarrow> startup_error + 'c option" where
  "dial ho credsFailed dialFailed addr edge =
     (if addr \<noteq> [] then
        ok_then (failed credsFailed (ho_ClientCreds ho edge)) (\<lambda>_.
        ok_then (failed dialFailed (ho_NewClient ho addr edge)) (\<lambda>c. Inr (Some c)))
      else Inr None)"

text \<open>The interceptor of the permission checks, without which the process does not start.\<close>

definition authzInterceptor :: "'tls config \<Rightarrow> 'c option \<Rightarrow> startup_error + ('c, permission_map) interceptor_options" where
  "authzInterceptor cfg authzConn =
     (case NewInterceptor PermissionMap \<lparr>co_ServiceName = ''kacho-registry'', co_IAMConn = authzConn,
              co_Breakglass = cf_AuthZBreakglass cfg, co_CacheTTL = cf_AuthZCacheTTL cfg\<rparr> of
        Inl e \<Rightarrow> if e = ErrIAMConnNotConfigured then Inl AuthzCheckRequired else Inl (InterceptorFailed e)
      | Inr intr \<Rightarrow> Inr intr)"

text \<open>The two listeners: the public one trusts the principal of its caller, the internal one only the
  principal a verified certificate vouches for. The handlers check through the connection when there
  is one, breakglass or not.\<close>

definition publicListener :: "('c, permission_map) interceptor_options \<Rightarrow> 'c option \<Rightarrow> 'c listener" where
  "publicListener authzIntr authzConn = \<lparr>ls_Unary = [PrincipalExtract] @ [Authz authzIntr],
     ls_Stream = [PrincipalExtract] @ [Authz authzIntr],
     ls_Services = [RegistryService authzConn, OperationService]\<rparr>"

definition internalListener :: "('c, permission_map) interceptor_options \<Rightarrow> 'c listener" where
  "internalListener authzIntr = \<lparr>ls_Unary = [CertIdentityExtract, TrustedPrincipalExtract] @ [Authz authzIntr],
     ls_Stream = [CertIdentityExtract, TrustedPrincipalExtract] @ [Authz authzIntr],
     ls_Services = [InternalRegistryService, OperationService]\<rparr>"

text \<open>The data plane with its sweepers, when it has an address.\<close>

definition dataplaneServer :: "(string \<Rightarrow> (string \<times> string) option) \<Rightarrow> ('u, 'c) dataplane_ports \<Rightarrow> 'tls config \<Rightarrow> 'c option \<Rightarrow>
    startup_error + ('u vstate handler option \<times> (string \<times> int) list)" where
  "dataplaneServer rest ports cfg authzConn =
     (if cf_DataplaneAddr cfg \<noteq> [] then
        ok_then (buildDataplaneHandler rest ports cfg authzConn) (\<lambda>h. Inr (Some h,
          (if cf_PendingBlobTTL cfg > 0 then [(''pending-blob'', cf_PendingBlobTTL cfg)] else []) @
          (if cf_PushGrantTTL cfg > 0 then [(''push-grant'', cf_PushGrantTTL cfg)] else [])))
      else Inr (None, []))"

definition runServe :: "('tls, 'c) host \<Rightarrow> (string \<Rightarrow> (string \<times> string) option) \<Rightarrow> ('u, 'c) dataplane_ports \<Rightarrow> 'tls config \<Rightarrow>
    startup_error + ('u, 'c) service" where
  "runServe ho rest ports cfg =
     ok_then (validateAuthMode cfg) (\<lambda>_.
     ok_then (validateSecurityConfig cfg) (\<lambda>_.
     ok_then (failed [] (ho_NewPool ho (DSN cfg))) (\<lambda>_.
     ok_then (dial ho (registry_iam @ ''authz mTLS creds'') ''dial kacho-iam internal'' (cf_AuthZIAMGRPCAddr cfg) (cf_IAMAuthzMTLS cfg)) (\<lambda>authzConn.
     ok_then (dial ho (registry_iam @ ''project mTLS creds'') ''dial kacho-iam project'' (cf_IAMProjectGRPCAddr cfg) (cf_IAMProjectMTLS cfg)) (\<lambda>projectConn.
     ok_then (failed ''build register-drainer'' (ho_NewDrainer ho ''kacho_registry.registry_outbox'' ''kacho_registry_outbox'')) (\<lambda>_.
     ok_then (authzInterceptor cfg authzConn) (\<lambda>authzIntr.
     ok_then (failed ''public listener tls creds'' (ho_ServerCreds ho (cf_PublicServerMTLS cfg))) (\<lambda>_.
     ok_then (failed ''internal listener tls creds'' (ho_ServerCreds ho (cf_InternalServerMTLS cfg))) (\<lambda>_.
     ok_then (dataplaneServer rest ports cfg authzConn) (\<lambda>(dp, sweepers).
     Inr \<lparr>sv_authzConn = authzConn, sv_projectConn = projectConn, sv_drainerConn = authzConn,
       sv_public = publicListener authzIntr authzConn, sv_internal = internalListener authzIntr,
       sv_dataplane = dp, sv_sweepers = sweepers\<rparr>))))))))))"

end
