(* ===== verification/StartupProps.thy ===== *)
theory StartupProps
  imports Startup DataPlaneSafety JwksProps
begin

text \<open>
  What a start guarantees: without the emergency switch every listener checks permissions, and the
  data plane that comes up proxies nothing but licensed requests of genuine tokens, whose issuer is
  pinned in production; no setting of the secrets changes what a connection string says.
\<close>

section \<open>Connection strings\<close>

text \<open>How a URL is read back: the authority ends at the first \<open>/\<close>, \<open>?\<close> or \<open>#\<close>, its user information at
  the last \<open>@\<close>, the user at the first colon.\<close>

definition authority_of :: "string \<Rightarrow> string option" where
  "authority_of dsn = map_option (takeWhile (\<lambda>c. c \<notin> set ''/?#'')) (cut_prefix dsn ''postgres://'')"

definition last_at :: "string \<Rightarrow> (string \<times> string) option" where
  "last_at s = map_option (\<lambda>(h, u). (rev u, rev h)) (cut_at CHR ''@'' (rev s))"

definition credentials_of :: "string \<Rightarrow> (string \<times> string) option" where
  "credentials_of dsn = (case Option.bind (authority_of dsn) last_at of
       None \<Rightarrow> None
     | Some (ui, host) \<Rightarrow> (case cut_at CHR '':'' ui of
           None \<Rightarrow> None
         | Some (u, p) \<Rightarrow> (case (path_unescape u, path_unescape p) of (Some user, Some password) \<Rightarrow> Some (user, password) | _ \<Rightarrow> None)))"

lemma escape_separators:
  "c \<in> set ''@:/?#'' \<Longrightarrow> c \<notin> set (userinfo_escape s)"
  "c \<in> set ''@/?#'' \<Longrightarrow> c \<notin> set (host_escape s)"
  unfolding userinfo_escape_def host_escape_def
  by (intro escape_with_avoids; auto simp: unreserved_def hex_val_def)+

lemma userinfo_roundtrip: "path_unescape (userinfo_escape s) = Some s"
  unfolding userinfo_escape_def by (rule escape_with_roundtrip) (simp add: unreserved_def)

lemma baseDSN_shape:
  assumes "cf_DBUser c \<noteq> [] \<or> cf_DBPassword c \<noteq> []"
  shows "\<exists>rest. baseDSN c extra = ''postgres://'' @ (userinfo_escape (cf_DBUser c) @ '':'' @ userinfo_escape (cf_DBPassword c) @ ''@'' @
     host_escape (JoinHostPort (cf_DBHost c) (cf_DBPort c))) @ ''/'' @ rest"
  using assms by (simp add: baseDSN_def Let_def userinfo_string_def url_path_escape_def escape_with_def)

lemma authority_of_DSN:
  assumes "cf_DBUser c \<noteq> [] \<or> cf_DBPassword c \<noteq> []"
  shows "authority_of (DSN c) = Some (userinfo_escape (cf_DBUser c) @ '':'' @ userinfo_escape (cf_DBPassword c) @ ''@'' @
     host_escape (JoinHostPort (cf_DBHost c) (cf_DBPort c)))"
proof -
  let ?a = "userinfo_escape (cf_DBUser c) @ '':'' @ userinfo_escape (cf_DBPassword c) @ ''@'' @
     host_escape (JoinHostPort (cf_DBHost c) (cf_DBPort c))"
  obtain rest where "DSN c = ''postgres://'' @ ?a @ ''/'' @ rest"
    using baseDSN_shape [OF assms] unfolding DSN_def Let_def by (metis append_assoc)
  moreover have "x \<in> set ?a \<Longrightarrow> x \<notin> set ''/?#''" for x
    using escape_separators [of x] by auto
  then have "takeWhile (\<lambda>x. x \<notin> set ''/?#'') (?a @ ''/'' @ rest) = ?a" by (subst takeWhile_append2) auto
  ultimately show ?thesis by (simp only: authority_of_def cut_prefix_append option.map)
qed

text \<open>
  The secrets of the database read back from the connection string: whatever bytes the user and
  the password have - an @, a colon, a slash, a question mark among them -, a reader of the URL
  recovers exactly them, and the host it connects to does not depend on them.
\<close>

theorem dsn_reads_back:
  assumes "cf_DBUser c \<noteq> [] \<or> cf_DBPassword c \<noteq> []"
  shows "credentials_of (DSN c) = Some (cf_DBUser c, cf_DBPassword c) \<and>
    map_option snd (Option.bind (authority_of (DSN c)) last_at) = Some (host_escape (JoinHostPort (cf_DBHost c) (cf_DBPort c)))"
proof -
  let ?ui = "userinfo_escape (cf_DBUser c) @ '':'' @ userinfo_escape (cf_DBPassword c)"
  let ?h = "host_escape (JoinHostPort (cf_DBHost c) (cf_DBPort c))"
  have "cut_at CHR ''@'' (rev (?ui @ ''@'' @ ?h)) = Some (rev ?h, rev ?ui)"
    using cut_at_append [of "CHR ''@''" "rev ?h" "rev ?ui"] escape_separators(2) [of "CHR ''@''"] by simp
  then have at: "last_at (?ui @ ''@'' @ ?h) = Some (?ui, ?h)" by (simp only: last_at_def option.map prod.case rev_rev_ident)
  have "cut_at CHR '':'' ?ui = Some (userinfo_escape (cf_DBUser c), userinfo_escape (cf_DBPassword c))"
    using cut_at_append [of "CHR '':''"] escape_separators(1) [of "CHR '':''"] by simp
  with at authority_of_DSN [OF assms] show ?thesis
    by (simp add: credentials_of_def userinfo_roundtrip)
qed

definition demo_config :: "unit config" where
  "demo_config = (default_config ''p@ss:/?'' \<lparr>te_Enable = True, te_Creds = ()\<rparr>)
     \<lparr>cf_AuthMode := ''production'', cf_AuthZIAMGRPCAddr := ''iam:9091'', cf_ZotAddr := ''http://zot:5000'',
      cf_DataplaneTLSTerminatedExternally := True, cf_HydraIssuer := ''https://hydra''\<rparr>"

lemma dsn_reads_back_witness: "credentials_of (DSN demo_config) = Some (''registry'', ''p@ss:/?'')"
  using dsn_reads_back [of demo_config] by (simp add: demo_config_def default_config_def)

section \<open>A guarded start\<close>

lemma ok_then_Inr: "ok_then r f = Inr b \<longleftrightarrow> (\<exists>a. r = Inr a \<and> f a = Inr b)"
  by (simp add: ok_then_def split: sum.splits)

lemma guard_Inr: "(if b then Inl e else Inr ()) = Inr u \<longleftrightarrow> \<not> b"
  by simp

lemma requireSecureJWKSURL_Inr: "requireSecureJWKSURL rest mode raw = Inr u \<Longrightarrow> production mode \<Longrightarrow>
    \<exists>x. url_Parse rest raw = Some x \<and> url_Scheme x = ''https''"
  by (auto simp: requireSecureJWKSURL_def split: option.splits if_splits)

text \<open>The verifier of a configuration.\<close>

definition pinned_verifier :: "('u, 'c) dataplane_ports \<Rightarrow> 'tls config \<Rightarrow> 'u verifier" where
  "pinned_verifier ports cfg = New_verifier (cf_IAMJWKSURL cfg) (cf_ServiceAud cfg) (cf_HydraIssuer cfg)
     (dp_codec ports) (dp_now ports) (dp_fetch ports)"

lemma built_handler:
  assumes "buildDataplaneHandler rest ports cfg authzConn = Inr h"
  shows "(production (cf_AuthMode cfg) \<longrightarrow> cf_DataplaneTLSTerminatedExternally cfg) \<and>
    h_anonSubjectID h = cf_AnonymousSubjectID cfg \<and>
    (\<not> cf_AuthZBreakglass cfg \<longrightarrow> (\<exists>conn. authzConn = Some conn \<and>
       h_verifier h = Some (token_verifier (pinned_verifier ports cfg)) \<and> h_authz h = Some (IAMCheck (dp_check ports conn)) \<and>
       (production (cf_AuthMode cfg) \<longrightarrow> cf_HydraIssuer cfg \<noteq> [] \<and>
          (\<exists>x. url_Parse rest (cf_IAMJWKSURL cfg) = Some x \<and> url_Scheme x = ''https''))))"
  using assms
  by (auto simp: buildDataplaneHandler_def ok_then_Inr requireDataplaneTLSAck_def requireIssuerPinned_def
      WithAnonymousSubject_def NewHandler_def pinned_verifier_def split: if_splits option.splits
      dest!: requireSecureJWKSURL_Inr)

text \<open>A data plane, the checks of both listeners and the transport, as they should be.\<close>

definition guarded_dataplane where
  "guarded_dataplane rest ports cfg conn h \<longleftrightarrow> h_verifier h = Some (token_verifier (pinned_verifier ports cfg)) \<and>
     h_authz h = Some (IAMCheck (dp_check ports conn)) \<and>
     (production (cf_AuthMode cfg) \<longrightarrow> cf_HydraIssuer cfg \<noteq> [] \<and>
        (\<exists>x. url_Parse rest (cf_IAMJWKSURL cfg) = Some x \<and> url_Scheme x = ''https''))"

definition guarded_listeners where
  "guarded_listeners sv conn \<longleftrightarrow> ls_Services (sv_public sv) = [RegistryService (Some conn), OperationService] \<and>
     (\<exists>intr. (\<forall>ls \<in> {sv_public sv, sv_internal sv}. last (ls_Unary ls) = Authz intr \<and> last (ls_Stream ls) = Authz intr) \<and>
        butlast (ls_Unary (sv_internal sv)) = [CertIdentityExtract, TrustedPrincipalExtract] \<and>
        butlast (ls_Stream (sv_internal sv)) = [CertIdentityExtract, TrustedPrincipalExtract] \<and>
        io_Client intr = Some conn \<and> \<not> io_Breakglass intr \<and> io_Map intr = PermissionMap \<and> 0 < io_CacheTTL intr)"

lemma runServe_Inr:
  assumes "runServe ho rest ports cfg = Inr sv"
  shows "validateAuthMode cfg = Inr ()" "validateSecurityConfig cfg = Inr ()"
    "sv_dataplane sv = Some h \<Longrightarrow> buildDataplaneHandler rest ports cfg (sv_authzConn sv) = Inr h"
    "\<exists>intr. NewInterceptor PermissionMap \<lparr>co_ServiceName = ''kacho-registry'', co_IAMConn = sv_authzConn sv,
       co_Breakglass = cf_AuthZBreakglass cfg, co_CacheTTL = cf_AuthZCacheTTL cfg\<rparr> = Inr intr \<and>
       sv_public sv = publicListener intr (sv_authzConn sv) \<and> sv_internal sv = internalListener intr"
  using assms by (auto simp: runServe_def authzInterceptor_def dataplaneServer_def ok_then_Inr split: if_splits sum.splits)

text \<open>
  C37. A start is guarded unless the emergency switch is set: the process comes up only with a
  connection to iam for authorization and with mutual TLS switched on for both listeners; on both
  listeners the chains of interceptors, for single calls and for streams, end in the check of the permission map over
  this connection, with a cache whose entries expire; on the internal listener both chains consist, before
  that check, of the identity of the client certificate and of the principal trusted from it, so neither
  takes the word of the caller for who it is; the handlers of the public listener filter through the same
  connection; and the data plane, if there is one, verifies tokens and asks iam for permissions, in production
  with keys that come over https and a pinned issuer. In production the data plane - also with the
  switch - stands behind TLS; in strict production the database connection is encrypted.
\<close>

theorem a_start_is_guarded:
  assumes "runServe ho rest ports cfg = Inr sv"
  shows "(\<not> cf_AuthZBreakglass cfg \<longrightarrow> (\<exists>conn. sv_authzConn sv = Some conn \<and> guarded_listeners sv conn \<and>
      te_Enable (cf_PublicServerMTLS cfg) \<and> te_Enable (cf_InternalServerMTLS cfg) \<and>
      (\<forall>h. sv_dataplane sv = Some h \<longrightarrow> guarded_dataplane rest ports cfg conn h))) \<and>
    (production (cf_AuthMode cfg) \<and> sv_dataplane sv \<noteq> None \<longrightarrow> cf_DataplaneTLSTerminatedExternally cfg) \<and>
    (cf_AuthMode cfg = ''production-strict'' \<longrightarrow> cf_DBSSLMode cfg \<in> {''require'', ''verify-ca'', ''verify-full''})"
proof (intro conjI impI)
  note start = runServe_Inr [OF assms]
  assume nb: "\<not> cf_AuthZBreakglass cfg"
  with start(4) obtain conn where conn: "sv_authzConn sv = Some conn"
    by (auto simp: NewInterceptor_def split: if_splits)
  with start(4) nb have "guarded_listeners sv conn"
    by (auto simp: guarded_listeners_def publicListener_def internalListener_def NewInterceptor_def authzCache_def disabledCacheTTL_def split: if_splits)
  moreover have "te_Enable (cf_PublicServerMTLS cfg) \<and> te_Enable (cf_InternalServerMTLS cfg)"
    using start(2) nb by (auto simp: validateSecurityConfig_def split: if_splits)
  moreover have "guarded_dataplane rest ports cfg conn h" if "sv_dataplane sv = Some h" for h
    using built_handler [OF start(3) [OF that]] nb conn by (simp add: guarded_dataplane_def)
  ultimately show "\<exists>conn. sv_authzConn sv = Some conn \<and> guarded_listeners sv conn \<and>
      te_Enable (cf_PublicServerMTLS cfg) \<and> te_Enable (cf_InternalServerMTLS cfg) \<and>
      (\<forall>h. sv_dataplane sv = Some h \<longrightarrow> guarded_dataplane rest ports cfg conn h)"
    using conn by blast
next
  assume "production (cf_AuthMode cfg) \<and> sv_dataplane sv \<noteq> None"
  then show "cf_DataplaneTLSTerminatedExternally cfg"
    using built_handler [OF runServe_Inr(3) [OF assms]] by blast
next
  assume "cf_AuthMode cfg = ''production-strict''"
  then show "cf_DBSSLMode cfg \<in> {''require'', ''verify-ca'', ''verify-full''}"
    using runServe_Inr(1) [OF assms] by (auto simp: validateAuthMode_def split: if_splits)
qed

section \<open>From the token to the engine\<close>

lemma replies: "\<exists>x. hs_trace (snd (run_state (challenge h b) s)) = hs_trace s @ [EReply x]"
    "\<exists>x. hs_trace (snd (run_state (writeError status code m) s)) = hs_trace s @ [EReply x]"
  by (auto simp: challenge_def writeError_def emit_def Let_def run)

text \<open>The token is verified first, in the world the request finds.\<close>

lemma ServeHTTP_verified:
  assumes h: "h_verifier h = Some verify" "h_authz h \<noteq> None"
    and r: "run_state (ServeHTTP L h r) s = ((), t)" "hs_trace t = hs_trace s @ pre @ e # post" "engine_event e"
  shows "\<exists>raw sub p. bearerToken r = Some raw \<and> sub \<noteq> [] \<and> fst (run_state (verify raw) (hs_world s)) = Inr sub \<and>
    parsePath L (rq_EscapedPath r) = Inr p \<and> licence p r (fgaSubject sub (h_anonSubjectID h)) (set pre)"
proof (cases "bearerToken r")
  case None
  with h(1) r(1) have "t = snd (run_state (challenge h False) s)" by (simp add: ServeHTTP_def authenticate_def run)
  with replies(1) [of h False s] r(2,3) show ?thesis by (auto simp: append_eq_Cons_conv Cons_eq_append_conv)
next
  case (Some raw)
  obtain v w where v: "run_state (verify raw) (hs_world s) = (v, w)" by force
  let ?u = "s\<lparr>hs_world := w, hs_trace := hs_trace s @ [EVerify raw v]\<rparr>"
  show ?thesis
  proof (cases "\<exists>sub p. v = Inr sub \<and> sub \<noteq> [] \<and> \<not> methodIs r [''DELETE''] \<and> parsePath L (rq_EscapedPath r) = Inr p")
    case True
    then obtain sub p where sub: "v = Inr sub" "sub \<noteq> []" "\<not> methodIs r [''DELETE'']" and p: "parsePath L (rq_EscapedPath r) = Inr p" by blast
    let ?route = "case o_route p of
              routePing \<Rightarrow> writePing r
            | routeCatalog \<Rightarrow> serveCatalog h r (fgaSubject sub (h_anonSubjectID h))
            | routeManifest \<Rightarrow> serveManifest h r p (fgaSubject sub (h_anonSubjectID h))
            | routeBlob \<Rightarrow> serveBlob h r p (fgaSubject sub (h_anonSubjectID h))
            | routeTagsList \<Rightarrow> servePullOnly h r p (fgaSubject sub (h_anonSubjectID h)) FGARelationVList
            | routeReferrers \<Rightarrow> servePullOnly h r p (fgaSubject sub (h_anonSubjectID h)) FGARelationVGet
            | routeUpload \<Rightarrow> servePush h r p (fgaSubject sub (h_anonSubjectID h))
            | routeInvalid \<Rightarrow> writeNotFound"
    have "run_state ?route ?u = ((), t)"
      using r(1) h(1) Some v sub p by (simp add: ServeHTTP_def authenticate_def call_def run Let_def)
    from emits_runD [OF route_sound [OF h(2)] this] obtain es where
      es: "hs_trace t = hs_trace ?u @ es" "sound (licence p r (fgaSubject sub (h_anonSubjectID h))) es" by blast
    with r(2,3) obtain pre' where pre: "pre = EVerify raw v # pre'" "es = pre' @ e # post"
      by (cases pre) auto
    from es(2) pre(2) have "guarded (licence p r (fgaSubject sub (h_anonSubjectID h))) {} (pre' @ e # post)" by (simp add: sound_def)
    from precededD [OF this r(3)] have "licence p r (fgaSubject sub (h_anonSubjectID h)) (set pre)"
      by (rule licence_mono [rotated]) (auto simp: pre)
    with Some sub p v show ?thesis by auto
  next
    case False
    with h(1) r(1) Some v have "(\<exists>b. t = snd (run_state (challenge h b) ?u)) \<or> (\<exists>st c m. t = snd (run_state (writeError st c m) ?u))"
      by (auto simp: ServeHTTP_def authenticate_def call_def run prod_eq_iff split: sum.splits if_splits)
    then obtain x where "hs_trace t = hs_trace s @ [EVerify raw v, EReply x]"
      using replies(1) [of h _ ?u] replies(2) [of _ _ _ ?u] by fastforce
    with r(2,3) have False by (auto simp: append_eq_Cons_conv Cons_eq_append_conv)
    then show ?thesis ..
  qed
qed

text \<open>
  C1. From the token to the engine. In a process that started without the emergency switch, every
  request that reaches the engine carried a bearer token with three segments, a signature by a
  strong key that the configured endpoint has published under the key's name, claims that were not expired, for our
  audience and - whenever an issuer is configured, as production demands - from that issuer; and
  earlier in the same request the licence of its route and method was given to the subject of that very
  token. For a write this is \<open>v_update\<close> on a repository the engine has, or \<open>v_create\<close> on the registry of one it
  does not have; a mount also needs \<open>v_get\<close> on the source and the digest among the blobs of the source. For a read it is
  the relation of the route on the repository (\<open>v_list\<close> for the tags, else \<open>v_get\<close>), and a blob has to be one of the
  repository. Two records may stand in for these answers: the recorded push of this very subject to
  this repository for the relation, also where the check answered no; and the recorded upload of this digest
  to this repository for the blob being one of it - there with \<open>v_create\<close> on the registry in place of the
  relation as long as the engine does not have the repository. It is assumed
  that the clock and the fetch of the key set leave a well-formed key cache well-formed (they
  touch it through the verifier only), and that the cache is well-formed, as the empty one is, when
  the request comes in.
\<close>

theorem only_genuine_tokens_reach_the_engine:
  assumes "runServe ho rest ports cfg = Inr sv" and "\<not> cf_AuthZBreakglass cfg" and "sv_dataplane sv = Some h"
    and "keeps_cache (pinned_verifier ports cfg) (dp_fetch ports (cf_IAMJWKSURL cfg))"
    and "keeps_cache (pinned_verifier ports cfg) (dp_now ports)" and "cache_ok (pinned_verifier ports cfg) (hs_world s)"
    and "run_state (ServeHTTP L h r) s = ((), t)" and "hs_trace t = hs_trace s @ pre @ e # post" and "engine_event e"
  shows "\<exists>raw sub p. bearerToken r = Some raw \<and> genuine (pinned_verifier ports cfg) raw sub \<and>
    parsePath L (rq_EscapedPath r) = Inr p \<and> licence p r (fgaSubject sub (cf_AnonymousSubjectID cfg)) (set pre) \<and>
    (production (cf_AuthMode cfg) \<longrightarrow> v_iss (pinned_verifier ports cfg) \<noteq> [])"
proof -
  note b = built_handler [OF runServe_Inr(3) [OF assms(1,3)]]
  let ?V = "pinned_verifier ports cfg"
  have fields: "v_Do ?V (v_jwksURL ?V) = dp_fetch ports (cf_IAMJWKSURL cfg)" "v_now ?V = dp_now ports" "v_iss ?V = cf_HydraIssuer cfg"
    by (simp_all add: pinned_verifier_def New_verifier_def)
  have "h_verifier h = Some (token_verifier ?V)" "h_authz h \<noteq> None" using b assms(2) by auto
  from ServeHTTP_verified [OF this assms(7-9)] obtain raw sub p where
    v: "bearerToken r = Some raw" "fst (run_state (token_verifier ?V raw) (hs_world s)) = Inr sub"
       "parsePath L (rq_EscapedPath r) = Inr p" "licence p r (fgaSubject sub (h_anonSubjectID h)) (set pre)" by blast
  from v(2) obtain u where "run_state (Verify ?V raw) (hs_world s) = (Inr sub, u)"
    by (auto simp: token_verifier_def run map_err_def split: prod.splits sum.splits)
  from Verify_genuine [OF _ _ assms(6) this] assms(4,5) fields have "genuine ?V raw sub" by simp
  with v b assms(2) fields(3) show ?thesis by auto
qed

section \<open>A start for concrete evaluations\<close>

text \<open>The ports of the data plane over the clock and the keys of the demonstration verifier.\<close>

definition demo_ports :: "(demo_clock, unit) dataplane_ports" where
  "demo_ports = \<lparr>dp_repoReg = (\<lambda>i. State_Monad.return (Inr ())),
     dp_backend = \<lparr>be_RepoExists = (\<lambda>reg repo. State_Monad.return (Inr True)),
       be_BlobInRepo = (\<lambda>reg repo d. State_Monad.return (Inr True)), be_CatalogRepoNames = State_Monad.return (Inr [])\<rparr>,
     dp_regLookup = (\<lambda>reg. State_Monad.return (Inr ''prj1'')),
     dp_uploads = \<lparr>up_RecordUploadedBlob = (\<lambda>_ _ _. State_Monad.return (Inr ())), up_BlobUploaded = (\<lambda>_ _ _. State_Monad.return (Inr False))\<rparr>,
     dp_pushGrants = \<lparr>pg_RecordPushGrant = (\<lambda>_ _ _. State_Monad.return (Inr ())), pg_PushGranted = (\<lambda>_ _ _. State_Monad.return (Inr False)),
       pg_DeletePushGrant = (\<lambda>_ _ _. State_Monad.return (Inr ()))\<rparr>,
     dp_forwarder = (\<lambda>target. \<lparr>fw_Forward = (\<lambda>r. State_Monad.return \<lparr>rs_Status = 200, rs_Header = [], rs_Body = Bytes []\<rparr>),
       fw_ForwardCapture = (\<lambda>r. State_Monad.return \<lparr>rs_Status = 200, rs_Header = [], rs_Body = Bytes []\<rparr>)\<rparr>),
     dp_check = (\<lambda>conn r. State_Monad.return (Inr True)),
     dp_codec = demo_codec, dp_now = v_now (demo_verifier True), dp_fetch = v_Do (demo_verifier True)\<rparr>"

definition demo_host :: "(unit, unit) host" where
  "demo_host = \<lparr>ho_NewPool = (\<lambda>dsn. Inr ()), ho_ClientCreds = (\<lambda>edge. Inr ()), ho_NewClient = (\<lambda>addr edge. Inr ()),
     ho_NewDrainer = (\<lambda>table channel. Inr ()), ho_ServerCreds = (\<lambda>edge. Inr ())\<rparr>"

definition demo_rest :: "string \<Rightarrow> (string \<times> string) option" where
  "demo_rest s = Some (s, [])"

definition started_config :: "unit config" where
  "started_config = demo_config\<lparr>cf_IAMJWKSURL := ''https://hydra/jwks'', cf_ServiceAud := ''registry'', cf_HydraIssuer := ''hydra''\<rparr>"

lemmas serve_parts = authzInterceptor_def publicListener_def internalListener_def dataplaneServer_def failed_def

definition demo_service :: "(demo_clock, unit) service" where
  "demo_service = (case runServe demo_host demo_rest demo_ports started_config of Inr sv \<Rightarrow> sv)"

definition demo_dataplane :: "demo_clock vstate handler" where
  "demo_dataplane = (case buildDataplaneHandler demo_rest demo_ports started_config (Some ()) of Inr h \<Rightarrow> h)"

lemma demo_started: "runServe demo_host demo_rest demo_ports started_config = Inr demo_service"
    "sv_dataplane demo_service = Some demo_dataplane" "\<not> cf_AuthZBreakglass started_config"
  by (simp_all add: demo_service_def demo_dataplane_def runServe_def serve_parts buildDataplaneHandler_def started_config_def demo_config_def
      default_config_def ok_then_def validateAuthMode_def validateSecurityConfig_def demo_host_def dial_def NewInterceptor_def
      requireDataplaneTLSAck_def requireIssuerPinned_def requireSecureJWKSURL_def NewZotForwarder_def production_def
      url_Parse_def demo_rest_def scheme_letter_def scheme_other_def ascii_lower_def Let_def)

lemma a_start_is_guarded_witness:
  "guarded_listeners demo_service () \<and> guarded_dataplane demo_rest demo_ports started_config () demo_dataplane \<and>
   cf_DataplaneTLSTerminatedExternally started_config"
  using a_start_is_guarded [OF demo_started(1)] demo_started(2,3)
  by (simp add: production_def started_config_def demo_config_def)

lemma demo_production: "production (cf_AuthMode started_config)"
  by (simp add: production_def started_config_def demo_config_def)

definition demo_pull_request :: request where
  "demo_pull_request = \<lparr>rq_Method = ''GET'', rq_EscapedPath = ''/v2/reg1/app/manifests/v1'', rq_Query = [],
     rq_Authorization = ''Bearer '' @ demo_token\<rparr>"

definition demo_world :: "demo_clock vstate hstate" where
  "demo_world = \<lparr>hs_world = demo_cache demo_time, hs_trace = [], hs_background = []\<rparr>"

definition demo_parsed :: parsed where
  "demo_parsed = (case parsePath demo_corelib ''/v2/reg1/app/manifests/v1'' of Inr p \<Rightarrow> p)"

lemma demo_parsed: "parsePath demo_corelib ''/v2/reg1/app/manifests/v1'' = Inr demo_parsed"
    "o_route demo_parsed = routeManifest"
  by code_simp+

lemma demo_bearer: "bearerToken demo_pull_request = Some demo_token"
  by code_simp

lemma demo_pinned: "pinned_verifier demo_ports started_config = demo_verifier True"
  by (simp add: pinned_verifier_def demo_ports_def started_config_def demo_verifier_def New_verifier_def)

lemma demo_dataplane_verifier: "h_verifier demo_dataplane = Some (token_verifier (demo_verifier True))"
    "h_authz demo_dataplane = Some (IAMCheck (dp_check demo_ports ()))" "h_anonSubjectID demo_dataplane = []"
  using built_handler [OF runServe_Inr(3) [OF demo_started(1,2)]] demo_started(3)
  by (simp_all add: demo_pinned) (simp add: started_config_def demo_config_def default_config_def)

lemma demo_pull_run:
  "hs_trace (snd (run_state (ServeHTTP demo_corelib demo_dataplane demo_pull_request) demo_world)) =
    [EVerify demo_token (Inr ''sva1''),
     ECheck (fgaSubject ''sva1'' []) ''v_get'' (repositoryObject (o_registryID demo_parsed) (o_repo demo_parsed)) (Inr True),
     EForward demo_pull_request (fst (run_state (fw_Forward (h_forwarder demo_dataplane) demo_pull_request)
       (snd (run_state (Verify (demo_verifier True) demo_token) (demo_cache demo_time)))))]"
proof -
  obtain w where v: "run_state (Verify (demo_verifier True) demo_token) (demo_cache demo_time) = (Inr ''sva1'', w)"
    using demo_accepts by (metis prod.collapse)
  have "methodIs demo_pull_request [''GET'', ''HEAD'']" "\<not> methodIs demo_pull_request [''DELETE'']"
    by (simp_all add: methodIs_def demo_pull_request_def)
  moreover have "rq_EscapedPath demo_pull_request = ''/v2/reg1/app/manifests/v1''" by (simp add: demo_pull_request_def)
  ultimately show ?thesis
    by (simp add: ServeHTTP_def authenticate_def demo_bearer demo_dataplane_verifier token_verifier_def call_def run v demo_world_def
        demo_parsed Let_def serveManifest_def servePullOnly_def checkAllowed_def IAMCheck_def FGARelationVGet_def
        dropPushGrantMaterialized_def forwardOnly_def forward_def demo_ports_def split: prod.splits option.splits) auto
qed

lemma only_genuine_tokens_reach_the_engine_witness:
  "\<exists>sub. genuine (demo_verifier True) demo_token sub \<and> v_iss (demo_verifier True) \<noteq> []"
proof -
  let ?run = "run_state (ServeHTTP demo_corelib demo_dataplane demo_pull_request) demo_world"
  have "?run = ((), snd ?run)" by (simp add: prod_eq_iff)
  moreover have "keeps_cache (demo_verifier True) (dp_fetch demo_ports (cf_IAMJWKSURL started_config))"
    "keeps_cache (demo_verifier True) (dp_now demo_ports)"
    using demo_verifier_keeps by (simp_all add: demo_ports_def)
  moreover have "cache_ok (demo_verifier True) (hs_world demo_world)" using demo_cache_ok by (simp add: demo_world_def)
  moreover obtain e where "hs_trace (snd ?run) = hs_trace demo_world @
      [EVerify demo_token (Inr ''sva1''),
       ECheck (fgaSubject ''sva1'' []) ''v_get'' (repositoryObject (o_registryID demo_parsed) (o_repo demo_parsed)) (Inr True)] @ e # []"
    and "engine_event e"
    unfolding demo_pull_run by (simp add: demo_world_def)
  ultimately show ?thesis
    using only_genuine_tokens_reach_the_engine [OF demo_started(1,3,2)] demo_bearer
    unfolding demo_pinned by (metis option.inject demo_production)
qed

text \<open>The emergency switch opens the interceptor and the data plane, but not the checks of the handlers
  when an address of iam is configured.\<close>

definition emergency_config :: "unit config" where
  "emergency_config = started_config\<lparr>cf_AuthZBreakglass := True\<rparr>"

lemma breakglass_keeps_list_checks:
  "\<exists>sv h intr. runServe demo_host demo_rest demo_ports emergency_config = Inr sv \<and> RegistryService (Some ()) \<in> set (ls_Services (sv_public sv)) \<and>
     ls_Unary (sv_public sv) = [PrincipalExtract, Authz intr] \<and> io_Client intr = None \<and>
     sv_dataplane sv = Some h \<and> h_verifier h = None \<and> h_authz h = None"
  by (simp add: runServe_def serve_parts buildDataplaneHandler_def emergency_config_def started_config_def demo_config_def
      default_config_def ok_then_def validateAuthMode_def validateSecurityConfig_def demo_host_def dial_def NewInterceptor_def
      requireDataplaneTLSAck_def NewZotForwarder_def url_Parse_def demo_rest_def scheme_letter_def scheme_other_def ascii_lower_def Let_def
      NewHandler_def WithAnonymousSubject_def)

end
