(* ===== verification/ProxyProps.thy ===== *)
theory ProxyProps
  imports Proxy DataPlaneProps
begin

text \<open>
  What the forwarder promises - the status it reports is the one the client got, and no credential
  of the caller leaves with the request - and where it does not: an informational status of the
  engine is taken for the answer.
\<close>

section \<open>Faithful recording\<close>

text \<open>Calls without informational statuses whose first writing call is not a flush.\<close>

fun plain_calls :: "writer_call list \<Rightarrow> bool" where
  "plain_calls [] = True"
| "plain_calls (WriteHeader code # cs) \<longleftrightarrow> \<not> informational code"
| "plain_calls (Write s # cs) \<longleftrightarrow> True"
| "plain_calls (Flush # cs) \<longleftrightarrow> False"
| "plain_calls (_ # cs) \<longleftrightarrow> plain_calls cs"

definition no_late_headers :: "writer_call list \<Rightarrow> bool" where
  "no_late_headers calls \<longleftrightarrow> (\<forall>pre c post. calls = pre @ c # post \<and> (c = ClearHeaders \<or> (\<exists>k v. c = AddHeader k v)) \<longrightarrow>
     (\<forall>d \<in> set pre. d = ClearHeaders \<or> (\<exists>k v. d = AddHeader k v)))"

lemma no_late_Cons: "no_late_headers (c # cs) \<Longrightarrow> no_late_headers cs"
  unfolding no_late_headers_def by (metis append_Cons list.set_intros(2))

lemma no_late_written:
  assumes "no_late_headers (d # cs)" and "d \<noteq> ClearHeaders" "\<And>k v. d \<noteq> AddHeader k v"
  shows "\<forall>c \<in> set cs. c \<noteq> ClearHeaders \<and> (\<forall>k v. c \<noteq> AddHeader k v)"
proof
  fix c assume "c \<in> set cs"
  then obtain pre post where "cs = pre @ c # post" by (meson split_list)
  then have "d # cs = (d # pre) @ c # post" by simp
  with assms show "c \<noteq> ClearHeaders \<and> (\<forall>k v. c \<noteq> AddHeader k v)"
    unfolding no_late_headers_def by (metis list.set_intros(1))
qed

text \<open>Once the header is out, the recorders and the client agree on the rest.\<close>

lemma written_status: "sr_written s \<Longrightarrow> foldl statusRecorder_step s cs = s"
proof (induction cs arbitrary: s)
  case (Cons c cs)
  then show ?case by (cases c) auto
qed simp

lemma written_client:
  assumes "cv_status c = Some st"
  shows "cv_status (foldl client_step c cs) = Some st"
  using assms
proof (induction cs arbitrary: c)
  case (Cons d cs)
  then show ?case by (cases d) (auto simp: Let_def)
qed simp

lemma written_buffer:
  assumes "br_written b" and "cv_status c = Some (br_status b, br_header b)" and "cv_body c = br_body b"
    and "\<forall>d \<in> set cs. d \<noteq> ClearHeaders \<and> (\<forall>k v. d \<noteq> AddHeader k v)"
  shows "let b' = foldl bufferingRecorder_step b cs; c' = foldl client_step c cs in
    cv_status c' = Some (br_status b', br_header b') \<and> cv_body c' = br_body b'"
  using assms
proof (induction cs arbitrary: b c)
  case (Cons d cs)
  then show ?case
  proof (cases d)
    case (Write s)
    with Cons.prems Cons.IH [of "b\<lparr>br_body := br_body b @ s\<rparr>" "c\<lparr>cv_body := cv_body c @ s\<rparr>"] show ?thesis by (simp add: Let_def)
  qed (auto simp: Let_def)
qed (simp add: Let_def)

lemma recorded_status_sees: "plain_calls cs \<Longrightarrow>
    sr_status (foldl statusRecorder_step \<lparr>sr_status = 200, sr_written = False\<rparr> cs) =
      (case cv_status (foldl client_step \<lparr>cv_header = hs, cv_status = None, cv_body = []\<rparr> cs) of
         Some (code, _) \<Rightarrow> code | None \<Rightarrow> 200)"
proof (induction cs arbitrary: hs)
  case (Cons c cs)
  then show ?case by (cases c) (auto simp: written_status written_client Let_def)
qed simp

lemma recorded_response_sees: "plain_calls cs \<Longrightarrow> no_late_headers cs \<Longrightarrow>
    (let b = foldl bufferingRecorder_step \<lparr>br_header = hs, br_status = 200, br_body = [], br_written = False\<rparr> cs;
         c = foldl client_step \<lparr>cv_header = hs, cv_status = None, cv_body = []\<rparr> cs in
     (case cv_status c of Some st \<Rightarrow> st | None \<Rightarrow> (200, cv_header c)) = (br_status b, br_header b) \<and> cv_body c = br_body b)"
proof (induction cs arbitrary: hs)
  case (Cons c cs)
  note rest = no_late_written [OF Cons.prems(2)]
  show ?case
  proof (cases c)
    case (WriteHeader code)
    with Cons.prems rest show ?thesis
      using written_buffer [of "\<lparr>br_header = hs, br_status = code, br_body = [], br_written = True\<rparr>"
          "\<lparr>cv_header = hs, cv_status = Some (code, hs), cv_body = []\<rparr>" cs] by (simp add: Let_def)
  next
    case (Write s)
    with Cons.prems rest show ?thesis
      using written_buffer [of "\<lparr>br_header = hs, br_status = 200, br_body = s, br_written = True\<rparr>"
          "\<lparr>cv_header = hs, cv_status = Some (200, hs), cv_body = s\<rparr>" cs] by (simp add: Let_def)
  qed (use Cons no_late_Cons in auto)
qed simp

text \<open>
  C38. The forwarder is faithful: what is sent on to the engine is the caller's request without the bearer
  token and the cookies - same method, path, query and host, at the engine's address -, and when the
  proxy writes no informational status, the status that decides about the side effects of a push is
  the status the client received, and a buffered response is relayed as the client would have got it.
\<close>

theorem forwarder_is_faithful:
  assumes "url_Path target = []" and "has_prefix (url_Path (ob_URL (inbound r))) ''/''"
    and "run_state (engine (Rewrite target (inbound r))) w = (p, u)" and "plain_calls (calls_of p)"
  shows "(let out = Rewrite target (inbound r) in
      (\<forall>(k, v) \<in> set (ob_Header out). k \<noteq> ''Authorization'' \<and> k \<noteq> ''Cookie'') \<and>
      (\<forall>(k, v) \<in> set (ob_Header (inbound r)). k \<noteq> ''Authorization'' \<and> k \<noteq> ''Cookie'' \<longrightarrow> (k, v) \<in> set (ob_Header out)) \<and>
      ob_Method out = ob_Method (inbound r) \<and> ob_RawQuery out = ob_RawQuery (inbound r) \<and> ob_Host out = ob_Host (inbound r) \<and>
      ob_URL out = target\<lparr>url_Path := url_Path (ob_URL (inbound r))\<rparr>) \<and>
    run_state (fw_Forward (ZotForwarder target inbound engine) r) w = (client_sees (calls_of p), u) \<and>
    (no_late_headers (calls_of p) \<longrightarrow>
      run_state (fw_ForwardCapture (ZotForwarder target inbound engine) r) w = (client_sees (calls_of p), u))"
proof -
  let ?c = "foldl client_step client_start (calls_of p)"
  have "(client_sees (calls_of p))\<lparr>rs_Status := recorded_status (calls_of p)\<rparr> = client_sees (calls_of p)"
    using recorded_status_sees [OF assms(4), of "[]"]
    by (auto simp: client_sees_def recorded_status_def client_start_def Let_def split: option.splits prod.splits)
  moreover have "recorded_response (calls_of p) = client_sees (calls_of p)" if "no_late_headers (calls_of p)"
    using recorded_response_sees [OF assms(4) that, of "[]"]
    by (auto simp: client_sees_def recorded_response_def client_start_def Let_def split: option.splits prod.splits)
  ultimately show ?thesis
    using assms(1-3) by (auto simp: ZotForwarder_def run Rewrite_def SetURL_def header_Del_def singleJoiningSlash_def Let_def)
qed

section \<open>Concrete exchanges\<close>

definition demo_target :: url where
  "demo_target = \<lparr>url_Scheme = ''http'', url_Host = ''zot:5000'', url_Path = []\<rparr>"

definition demo_inbound :: "request \<Rightarrow> outbound" where
  "demo_inbound r = \<lparr>ob_Method = rq_Method r, ob_URL = \<lparr>url_Scheme = [], url_Host = [], url_Path = rq_EscapedPath r\<rparr>,
     ob_RawQuery = [], ob_Host = ''registry.kacho.local'',
     ob_Header = [(''Accept'', ''*/*''), (''Authorization'', rq_Authorization r)]\<rparr>"

definition demo_engine :: "writer_call list \<Rightarrow> outbound \<Rightarrow> (unit, proxied) state" where
  "demo_engine calls out = State_Monad.return (Responded calls)"

lemma forwarder_is_faithful_witness:
  "run_state (fw_Forward (ZotForwarder demo_target demo_inbound (demo_engine [WriteHeader 201])) (demo_request ''PUT'' ''/v2/reg1/app/manifests/v1'' [])) () =
     (client_sees [WriteHeader 201], ())"
  using forwarder_is_faithful [of demo_target demo_inbound "demo_request ''PUT'' ''/v2/reg1/app/manifests/v1'' []"
      "demo_engine [WriteHeader 201]" "()" "Responded [WriteHeader 201]" "()"]
  by (simp add: demo_target_def demo_inbound_def demo_request_def demo_engine_def run calls_of_def informational_def)

text \<open>The demonstration data plane in front of an engine that makes the given calls.\<close>

definition demo_pushed :: "writer_call list \<Rightarrow> event list" where
  "demo_pushed calls = hs_trace (snd (run_state (ServeHTTP demo_corelib
     ((demo_handler [(''service_account:sva1'', ''v_create'', ''registry_registry:reg1'')] [])
        \<lparr>h_forwarder := ZotForwarder demo_target demo_inbound (demo_engine calls)\<rparr>)
     (demo_request ''PUT'' ''/v2/reg1/app/manifests/v1'' [])) demo_start))"

fun registers :: "event \<Rightarrow> bool" where
  "registers (ERegister i res) = True"
| "registers (ERecordGrant reg repo sub res) = True"
| "registers _ = False"

text \<open>
  An informational status hides a success: when the engine announces \<open>100 Continue\<close> before it
  stores a pushed manifest, the client gets the final 201, but both recorders keep the first status,
  so the push of a new repository is neither registered nor remembered - with the same answer and no
  announcement both happen -, and a buffered blob upload counts as not stored.
\<close>

theorem informational_status_hides_success:
  "rs_Status (client_sees [WriteHeader 100, WriteHeader 201]) = 201 \<and>
   \<not> list_ex registers (demo_pushed [WriteHeader 100, WriteHeader 201]) \<and>
   length (filter registers (demo_pushed [WriteHeader 201])) = 2 \<and>
   rs_Status (recorded_response [WriteHeader 100, WriteHeader 201]) = 100"
  by code_simp

end
