(* ===== verification/NameGrammar.thy ===== *)
theory NameGrammar
  imports DomainTypes
begin

text \<open>
  The grammar of repository names: the flat regular expression of the program, in which the slash is
  one more separator, describes exactly the paths of components of the OCI distribution
  specification. Both are compared with a scanner that reads a name once from left to right.
\<close>

section \<open>A scanner\<close>

text \<open>A word must begin; inside a word; after one underscore; after dashes.\<close>

datatype scan_state = Begin | Word | Underscore | Dashes

fun scan :: "bool \<Rightarrow> scan_state \<Rightarrow> string \<Rightarrow> bool" where
  "scan slash q [] \<longleftrightarrow> q = Word"
| "scan slash Begin (c # cs) \<longleftrightarrow> is_alnum c \<and> scan slash Word cs"
| "scan slash Word (c # cs) \<longleftrightarrow>
     (if is_alnum c then scan slash Word cs
      else if c = CHR ''.'' \<or> slash \<and> c = CHR ''/'' then scan slash Begin cs
      else if c = CHR ''_'' then scan slash Underscore cs
      else if c = CHR ''-'' then scan slash Dashes cs else False)"
| "scan slash Underscore (c # cs) \<longleftrightarrow>
     (if c = CHR ''_'' then scan slash Begin cs else is_alnum c \<and> scan slash Word cs)"
| "scan slash Dashes (c # cs) \<longleftrightarrow>
     (if c = CHR ''-'' then scan slash Dashes cs else is_alnum c \<and> scan slash Word cs)"

text \<open>The separators with and without the slash.\<close>

definition separator :: "bool \<Rightarrow> string \<Rightarrow> bool" where
  "separator slash a \<longleftrightarrow> a \<in> {''.'', ''_'', ''__''} \<or> slash \<and> a = ''/'' \<or> a \<noteq> [] \<and> list_all (\<lambda>c. c = CHR ''-'') a"

definition words :: "bool \<Rightarrow> string \<Rightarrow> bool" where
  "words slash = in_star (\<lambda>x. \<exists>a b. x = a @ b \<and> separator slash a \<and> b \<noteq> [] \<and> list_all is_alnum b)"

text \<open>What the states stand for.\<close>

definition inside :: "bool \<Rightarrow> string \<Rightarrow> bool" where
  "inside slash s \<longleftrightarrow> (\<exists>b t. s = b @ t \<and> list_all is_alnum b \<and> words slash t)"

definition begun :: "bool \<Rightarrow> string \<Rightarrow> bool" where
  "begun slash s \<longleftrightarrow> (\<exists>b t. s = b @ t \<and> b \<noteq> [] \<and> list_all is_alnum b \<and> words slash t)"

definition dashed :: "bool \<Rightarrow> string \<Rightarrow> bool" where
  "dashed slash s \<longleftrightarrow> (\<exists>a r. s = a @ r \<and> list_all (\<lambda>c. c = CHR ''-'') a \<and> begun slash r)"

lemma words_cases: "words slash s \<longleftrightarrow> s = [] \<or> (\<exists>a r. s = a @ r \<and> separator slash a \<and> begun slash r)"
proof
  assume "words slash s"
  then show "s = [] \<or> (\<exists>a r. s = a @ r \<and> separator slash a \<and> begun slash r)"
    unfolding words_def
  proof (cases rule: in_star.cases)
    case (star_step x r)
    then obtain a b where "x = a @ b" "separator slash a" "b \<noteq> []" "list_all is_alnum b" by blast
    with star_step have "s = a @ (b @ r)" "begun slash (b @ r)" by (auto simp: begun_def words_def)
    with \<open>separator slash a\<close> show ?thesis by blast
  qed simp
next
  assume "s = [] \<or> (\<exists>a r. s = a @ r \<and> separator slash a \<and> begun slash r)"
  then show "words slash s"
  proof (elim disjE exE conjE)
    fix a r assume s: "s = a @ r" "separator slash a" "begun slash r"
    from s(3) obtain b t where r: "r = b @ t" "b \<noteq> []" "list_all is_alnum b" "words slash t" by (auto simp: begun_def)
    have "words slash ((a @ b) @ t)" unfolding words_def
      by (rule in_star.intros(2)) (use s(2) r in \<open>auto simp: words_def\<close>)
    with s(1) r(1) show ?thesis by simp
  qed (simp add: words_def in_star.intros)
qed

lemma ex_split_Cons: "(\<exists>a r. c # cs = a @ r \<and> P a r) \<longleftrightarrow> P [] (c # cs) \<or> (\<exists>a r. cs = a @ r \<and> P (c # a) r)"
proof
  assume "\<exists>a r. c # cs = a @ r \<and> P a r"
  then obtain a r where a: "c # cs = a @ r" "P a r" by blast
  then show "P [] (c # cs) \<or> (\<exists>a r. cs = a @ r \<and> P (c # a) r)" by (cases a) auto
next
  assume "P [] (c # cs) \<or> (\<exists>a r. cs = a @ r \<and> P (c # a) r)"
  then show "\<exists>a r. c # cs = a @ r \<and> P a r"
  proof (elim disjE exE conjE)
    fix a r assume "cs = a @ r" "P (c # a) r"
    then show ?thesis by (intro exI [of _ "c # a"] exI [of _ r]) simp
  qed (intro exI [of _ "[]"] exI [of _ "c # cs"], simp)
qed

lemma begun_Nil [simp]: "\<not> begun slash []"
  by (simp add: begun_def)

lemma begun_Cons [simp]: "begun slash (c # cs) \<longleftrightarrow> is_alnum c \<and> inside slash cs"
  unfolding begun_def ex_split_Cons by (auto simp: inside_def)

lemma dashed_Nil [simp]: "\<not> dashed slash []"
  by (simp add: dashed_def)

lemma dashed_Cons [simp]:
  "dashed slash (c # cs) \<longleftrightarrow> (if c = CHR ''-'' then dashed slash cs else is_alnum c \<and> inside slash cs)"
  unfolding dashed_def ex_split_Cons by auto

lemma separator_Cons: "separator slash (c # a) \<longleftrightarrow>
    a = [] \<and> (c = CHR ''.'' \<or> slash \<and> c = CHR ''/'') \<or> c = CHR ''_'' \<and> a \<in> {[], ''_''} \<or>
    c = CHR ''-'' \<and> list_all (\<lambda>c. c = CHR ''-'') a"
  by (auto simp: separator_def)

lemma words_Cons: "words slash (c # cs) \<longleftrightarrow> (c = CHR ''.'' \<or> slash \<and> c = CHR ''/'') \<and> begun slash cs \<or>
    c = CHR ''_'' \<and> (begun slash cs \<or> (\<exists>r. cs = CHR ''_'' # r \<and> begun slash r)) \<or> c = CHR ''-'' \<and> dashed slash cs"
proof -
  have "\<not> separator slash []" by (simp add: separator_def)
  then have "words slash (c # cs) \<longleftrightarrow> (\<exists>a r. cs = a @ r \<and> separator slash (c # a) \<and> begun slash r)"
    by (subst words_cases) (simp add: ex_split_Cons)
  note w = this
  have u: "(\<exists>a r. cs = a @ r \<and> (a = [] \<or> a = ''_'') \<and> begun slash r) \<longleftrightarrow>
      begun slash cs \<or> (\<exists>r. cs = CHR ''_'' # r \<and> begun slash r)"
    by (cases cs) (simp_all add: ex_split_Cons del: begun_Cons)
  consider "c = CHR ''.''" | "slash" "c = CHR ''/''" | "\<not> slash" "c = CHR ''/''" | "c = CHR ''_''" | "c = CHR ''-''"
    | "c \<notin> {CHR ''.'', CHR ''/'', CHR ''_'', CHR ''-''}" by blast
  then show ?thesis
    unfolding w separator_Cons dashed_def by cases (simp_all add: u del: begun_Cons)
qed

lemma inside_Nil [simp]: "inside slash []"
  by (simp add: inside_def words_def in_star.intros)

lemma inside_Cons [simp]: "inside slash (c # cs) \<longleftrightarrow> is_alnum c \<and> inside slash cs \<or> words slash (c # cs)"
  unfolding inside_def ex_split_Cons by auto

lemma scan_iff:
  "scan slash Begin s \<longleftrightarrow> begun slash s" "scan slash Word s \<longleftrightarrow> inside slash s"
  "scan slash Underscore s \<longleftrightarrow> begun slash s \<or> (\<exists>r. s = CHR ''_'' # r \<and> begun slash r)"
  "scan slash Dashes s \<longleftrightarrow> dashed slash s"
proof (induction s)
  case (Cons c cs)
  {
    case 1
    show ?case by (simp add: Cons)
  next
    case 2
    show ?case by (auto simp: Cons words_Cons)
  next
    case 3
    show ?case by (auto simp: Cons)
  next
    case 4
    show ?case by (simp add: Cons)
  }
qed simp_all

section \<open>The regular expression and the paths of components\<close>

lemma lang_separator: "lang repoSep a \<longleftrightarrow> separator True a"
  unfolding repoSep_def lang.simps(4) lang_Plus_Cls lang_Seq_Cls
  by (auto simp: separator_def list_all_iff split: list.splits)

lemma repo_regex_scan: "re_match repoNameRe s \<longleftrightarrow> scan True Begin s"
proof -
  have "lang (Seq repoSep (Plus (Cls is_alnum))) = (\<lambda>x. \<exists>a b. x = a @ b \<and> separator True a \<and> b \<noteq> [] \<and> list_all is_alnum b)"
    unfolding lang.simps(5) [of repoSep "Plus (Cls is_alnum)", abs_def] lang_separator lang_Plus_Cls by auto
  then show ?thesis
    unfolding scan_iff begun_def re_match_lang repoNameRe_def lang.simps(5) [where r = "Plus (Cls is_alnum)"] lang.simps(6) lang_Plus_Cls words_def
    by auto
qed

text \<open>A path of components is scanned component by component.\<close>

lemma scan_slash: "CHR ''/'' \<notin> set w \<Longrightarrow> scan True q (w @ CHR ''/'' # s) \<longleftrightarrow> scan False q w \<and> scan True Begin s"
proof (induction w arbitrary: q)
  case Nil
  then show ?case by (cases q) auto
next
  case (Cons c w)
  then show ?case by (cases q) auto
qed

lemma scan_plain: "CHR ''/'' \<notin> set w \<Longrightarrow> scan True q w \<longleftrightarrow> scan False q w"
proof (induction w arbitrary: q)
  case (Cons c w)
  then show ?case by (cases q) auto
qed simp

definition path_component :: re where
  "path_component = Seq (Plus (Cls is_alnum)) (Star (Seq
     (Alt (Cls (\<lambda>c. c = CHR ''.'' \<or> c = CHR ''_'')) (Alt (Seq (Cls (\<lambda>c. c = CHR ''_'')) (Cls (\<lambda>c. c = CHR ''_''))) (Plus (Cls (\<lambda>c. c = CHR ''-'')))))
     (Plus (Cls is_alnum))))"

lemma lang_path_separator:
  "lang (Alt (Cls (\<lambda>c. c = CHR ''.'' \<or> c = CHR ''_'')) (Alt (Seq (Cls (\<lambda>c. c = CHR ''_'')) (Cls (\<lambda>c. c = CHR ''_''))) (Plus (Cls (\<lambda>c. c = CHR ''-''))))) a
    \<longleftrightarrow> separator False a"
  unfolding lang.simps(4) lang_Plus_Cls lang_Seq_Cls
  by (auto simp: separator_def list_all_iff split: list.splits)

lemma path_component_scan: "re_match path_component s \<longleftrightarrow> scan False Begin s"
proof -
  let ?sep = "Alt (Cls (\<lambda>c. c = CHR ''.'' \<or> c = CHR ''_'')) (Alt (Seq (Cls (\<lambda>c. c = CHR ''_'')) (Cls (\<lambda>c. c = CHR ''_''))) (Plus (Cls (\<lambda>c. c = CHR ''-''))))"
  have "lang (Seq ?sep (Plus (Cls is_alnum))) = (\<lambda>x. \<exists>a b. x = a @ b \<and> separator False a \<and> b \<noteq> [] \<and> list_all is_alnum b)"
    unfolding lang.simps(5) [of ?sep "Plus (Cls is_alnum)", abs_def] lang_path_separator lang_Plus_Cls by auto
  then show ?thesis
    unfolding scan_iff begun_def re_match_lang path_component_def lang.simps(5) [where r = "Plus (Cls is_alnum)"] lang.simps(6) lang_Plus_Cls words_def
    by auto
qed

lemma scan_join:
  "ws \<noteq> [] \<Longrightarrow> \<forall>w \<in> set ws. CHR ''/'' \<notin> set w \<Longrightarrow>
   scan True Begin (join_with CHR ''/'' ws) \<longleftrightarrow> list_all (scan False Begin) ws"
proof (induction "CHR ''/''" ws rule: join_with.induct)
  case (2 w)
  then show ?case by (simp add: scan_plain)
next
  case (3 w v vs)
  then show ?case by (simp add: scan_slash)
qed simp

lemma scan_split: "scan True Begin s \<longleftrightarrow> list_all (scan False Begin) (split_on CHR ''/'' s)"
  using scan_join [of "split_on CHR ''/'' s"] split_on_no_sep by (simp add: join_split)

text \<open>C34. The one flat regular expression that guards repository names, in which the slash is just
  another separator, accepts exactly the grammar of the OCI distribution specification: a name of at
  most 255 bytes whose segments between slashes are all path components (lower-case words joined by
  a dot, one or two underscores or any number of dashes). In particular no segment is empty, begins
  or ends with a separator, or is a run of dots.\<close>

theorem repository_names_are_paths_of_components:
  "ValidateRepositoryName field name = None \<longleftrightarrow>
     length name \<le> 255 \<and> list_all (re_match path_component) (split_on CHR ''/'' name)"
proof -
  have "\<not> re_match path_component []" unfolding path_component_scan by simp
  moreover have "list_all (re_match path_component) (split_on CHR ''/'' name) \<longleftrightarrow> re_match repoNameRe name"
    unfolding path_component_scan [abs_def] repo_regex_scan scan_split ..
  moreover have "list_all (re_match path_component) (split_on CHR ''/'' []) \<longleftrightarrow> re_match path_component []"
    by simp
  ultimately show ?thesis
    unfolding ValidateRepositoryName_def maxRepoNameLen_def by (cases "name = []") (auto simp del: re_match.simps)
qed

text \<open>Names of the specification's examples, decided by the matcher.\<close>

lemma repository_name_examples:
  "map (\<lambda>n. ValidateRepositoryName ''repository'' n = None)
     [''library/nginx'', ''a__b/c--d.e'', ''a..b'', ''a/'', ''/a'', ''a//b'', ''A'', ''a___b'', ''a_-b'']
   = [True, True, False, False, False, False, False, False, False]"
  by code_simp

end
