(* ===== verification/Payload.thy ===== *)
theory Payload
  imports IamClients IamProps Json "HOL-Library.Char_ord" "HOL-Library.List_Lexorder" "HOL-Library.Multiset" "HOL-Library.Code_Target_Nat"
begin

text \<open>
  The payload of an outbox row as text: \<open>Marshal\<close> and \<open>UnmarshalRegisterIntent\<close> of
  \<open>internal/domain/fga_intent.go\<close> and the label columns of the Postgres store. Between the writer and
  the drainer the text passes through a \<open>jsonb\<close> column, which keeps the value of a document but not
  its spelling: members may come back in another order and strings with other escapes.
\<close>

section \<open>Encoding\<close>

text \<open>A map is printed with its keys in ascending order. Field names need no escape.\<close>

definition labels_json :: "labels \<Rightarrow> json" where
  "labels_json ls = JObj (map (\<lambda>(k, v). (json_escape k, JStr (json_escape v))) (sort_key fst ls))"

definition tuple_json :: "fga_tuple \<Rightarrow> json" where
  "tuple_json t = JObj [(''subject_id'', JStr (json_escape (tp_subject_id t))),
     (''relation'', JStr (json_escape (tp_relation t))), (''object'', JStr (json_escape (tp_object t)))]"

text \<open>\<open>omitempty\<close> drops empty labels and an empty parent; a slice without elements is \<open>nil\<close>.\<close>

definition intent_json :: "register_intent \<Rightarrow> json" where
  "intent_json i = JObj
     ([(''kind'', JStr (json_escape (i_kind i))), (''resource_id'', JStr (json_escape (i_resource_id i))),
       (''tuples'', if i_tuples i = [] then JNull else JArr (map tuple_json (i_tuples i)))] @
      (if i_labels i = [] then [] else [(''labels'', labels_json (i_labels i))]) @
      (if i_parent_project_id i = [] then []
       else [(''parent_project_id'', JStr (json_escape (i_parent_project_id i)))]))"

definition Marshal :: "register_intent \<Rightarrow> string" where
  "Marshal i = json_print (intent_json i)"

section \<open>Decoding\<close>

definition zero_tuple :: fga_tuple where
  "zero_tuple = \<lparr>tp_subject_id = [], tp_relation = [], tp_object = []\<rparr>"

definition decode_tuple :: "fga_tuple \<Rightarrow> json \<Rightarrow> fga_tuple option" where
  "decode_tuple v j = (case j of JNull \<Rightarrow> Some v
     | JObj ms \<Rightarrow>
         (case decode_into decode_string (tp_subject_id v) (field_members ''subject_id'' ms) of None \<Rightarrow> None
          | Some s \<Rightarrow> (case decode_into decode_string (tp_relation v) (field_members ''relation'' ms) of None \<Rightarrow> None
          | Some r \<Rightarrow> (case decode_into decode_string (tp_object v) (field_members ''object'' ms) of None \<Rightarrow> None
          | Some ob \<Rightarrow> Some \<lparr>tp_subject_id = s, tp_relation = r, tp_object = ob\<rparr>)))
     | _ \<Rightarrow> None)"

definition decode_tuples :: "fga_tuple list \<Rightarrow> json \<Rightarrow> fga_tuple list option" where
  "decode_tuples = decode_slice decode_tuple zero_tuple"

definition decode_intent :: "json \<Rightarrow> register_intent option" where
  "decode_intent j = (case j of
       JNull \<Rightarrow> Some \<lparr>i_kind = [], i_resource_id = [], i_tuples = [], i_labels = [], i_parent_project_id = []\<rparr>
     | JObj ms \<Rightarrow>
         (case decode_into decode_string [] (field_members ''kind'' ms) of None \<Rightarrow> None
          | Some k \<Rightarrow> (case decode_into decode_string [] (field_members ''resource_id'' ms) of None \<Rightarrow> None
          | Some i \<Rightarrow> (case decode_into decode_tuples [] (field_members ''tuples'' ms) of None \<Rightarrow> None
          | Some ts \<Rightarrow> (case decode_into decode_labels [] (field_members ''labels'' ms) of None \<Rightarrow> None
          | Some ls \<Rightarrow> (case decode_into decode_string [] (field_members ''parent_project_id'' ms) of None \<Rightarrow> None
          | Some pp \<Rightarrow> Some \<lparr>i_kind = k, i_resource_id = i, i_tuples = ts, i_labels = ls, i_parent_project_id = pp\<rparr>)))))
     | _ \<Rightarrow> None)"

text \<open>The text of the decoder's error is a parameter.\<close>

definition UnmarshalRegisterIntent :: "(string \<Rightarrow> string) \<Rightarrow> string \<Rightarrow> string + register_intent" where
  "UnmarshalRegisterIntent err payload = (case json_parse payload of
       None \<Rightarrow> Inl (''unmarshal fga register intent: '' @ err payload)
     | Some j \<Rightarrow> (case decode_intent j of
           None \<Rightarrow> Inl (''unmarshal fga register intent: '' @ err payload)
         | Some i \<Rightarrow> Inr i))"

section \<open>Label columns\<close>

definition marshalLabels :: "labels \<Rightarrow> string" where
  "marshalLabels ls = (if length ls = 0 then ''{}'' else json_print (labels_json ls))"

definition unmarshalLabels :: "string \<Rightarrow> labels option" where
  "unmarshalLabels raw = (if length raw = 0 then Some []
     else case json_parse raw of None \<Rightarrow> None | Some j \<Rightarrow> decode_labels [] j)"

section \<open>The same value under another spelling\<close>

inductive same_json :: "json \<Rightarrow> json \<Rightarrow> bool" where
  same_null: "same_json JNull JNull"
| same_bool: "same_json (JBool b) (JBool b)"
| same_num: "same_json (JNum t) (JNum t)"
| same_str: "unquote t = unquote u \<Longrightarrow> same_json (JStr t) (JStr u)"
| same_arr: "list_all2 same_json js ks \<Longrightarrow> same_json (JArr js) (JArr ks)"
| same_obj: "list_all2 (\<lambda>m n. unquote (fst m) = unquote (fst n) \<and> same_json (snd m) (snd n)) ms ns' \<Longrightarrow>
    mset ns' = mset ns \<Longrightarrow> distinct (map (unquote \<circ> fst) ms) \<Longrightarrow> same_json (JObj ms) (JObj ns)"
monos list_all2_mono

inductive_simps same_json_simps [simp]:
  "same_json JNull k" "same_json (JStr t) k" "same_json (JArr js) k" "same_json (JObj ms) k"

lemma list_all2_filter:
  "list_all2 R xs ys \<Longrightarrow> (\<And>x y. R x y \<Longrightarrow> P x \<longleftrightarrow> Q y) \<Longrightarrow> list_all2 R (filter P xs) (filter Q ys)"
  by (induction rule: list_all2_induct) auto

lemma mset_short_eq: "mset xs = mset ys \<Longrightarrow> length xs \<le> 1 \<Longrightarrow> xs = ys"
proof (cases xs)
  case (Cons x zs)
  moreover assume "mset xs = mset ys" "length xs \<le> 1"
  ultimately have "mset ys = {#x#}" "xs = [x]" by (cases zs; force)+
  then show ?thesis by simp
qed simp

text \<open>A field that occurs at most once is found whatever the order of the members.\<close>

lemma field_same:
  assumes "list_all2 (\<lambda>m n. unquote (fst m) = unquote (fst n) \<and> same_json (snd m) (snd n)) ms ns'"
    and "mset ns' = mset ns" and "length (field_members name ms) \<le> 1"
  shows "list_all2 same_json (field_members name ms) (field_members name ns)"
proof -
  let ?P = "\<lambda>m. fold_key (unquote (fst m)) = name"
  have f: "field_members name xs = map snd (filter ?P xs)" for xs by (simp add: field_members_def case_prod_unfold)
  have l: "list_all2 (\<lambda>m n. unquote (fst m) = unquote (fst n) \<and> same_json (snd m) (snd n)) (filter ?P ms) (filter ?P ns')"
    by (rule list_all2_filter [OF assms(1)]) simp
  then have "length (filter ?P ns') \<le> 1" using assms(3) by (simp add: f list_all2_lengthD)
  moreover have "mset (filter ?P ns') = mset (filter ?P ns)" using assms(2) by (simp only: mset_filter)
  ultimately have "filter ?P ns' = filter ?P ns" by (rule mset_short_eq [rotated])
  with l show ?thesis by (simp add: f list_all2_map1 list_all2_map2 list_all2_conv_all_nth)
qed

section \<open>What was marshalled is decoded\<close>

definition utf8_tuple :: "fga_tuple \<Rightarrow> bool" where
  "utf8_tuple t \<longleftrightarrow> valid_utf8 (tp_subject_id t) \<and> valid_utf8 (tp_relation t) \<and> valid_utf8 (tp_object t)"

definition utf8_labels :: "labels \<Rightarrow> bool" where
  "utf8_labels ls \<longleftrightarrow> list_all (\<lambda>(k, v). valid_utf8 k \<and> valid_utf8 v) ls"

definition utf8_intent :: "register_intent \<Rightarrow> bool" where
  "utf8_intent i \<longleftrightarrow> valid_utf8 (i_kind i) \<and> valid_utf8 (i_resource_id i) \<and> list_all utf8_tuple (i_tuples i) \<and>
     utf8_labels (i_labels i) \<and> valid_utf8 (i_parent_project_id i)"

lemma decode_same_string:
  "list_all2 same_json [JStr (json_escape s)] js \<Longrightarrow> valid_utf8 s \<Longrightarrow> decode_into decode_string v js = Some s"
  by (auto simp: list_all2_Cons1 decode_string_def unquote_escape)

lemma decode_same_tuple: "same_json (tuple_json t) j \<Longrightarrow> utf8_tuple t \<Longrightarrow> decode_tuple v j = Some t"
proof -
  assume u: "utf8_tuple t"
  let ?ms = "[(''subject_id'', JStr (json_escape (tp_subject_id t))), (''relation'', JStr (json_escape (tp_relation t))),
    (''object'', JStr (json_escape (tp_object t)))]"
  assume "same_json (tuple_json t) j"
  then obtain ns ns' where j: "j = JObj ns"
    and a: "list_all2 (\<lambda>m n. unquote (fst m) = unquote (fst n) \<and> same_json (snd m) (snd n)) ?ms ns'" "mset ns' = mset ns"
    unfolding tuple_json_def same_json_simps by blast
  have f: "field_members ''subject_id'' ?ms = [JStr (json_escape (tp_subject_id t))]"
    "field_members ''relation'' ?ms = [JStr (json_escape (tp_relation t))]"
    "field_members ''object'' ?ms = [JStr (json_escape (tp_object t))]" by (simp_all add: field_members_def)
  note s = field_same [OF a, of "''subject_id''", unfolded f] field_same [OF a, of "''relation''", unfolded f]
    field_same [OF a, of "''object''", unfolded f]
  from s u show ?thesis by (simp add: decode_tuple_def j utf8_tuple_def decode_same_string)
qed

lemma decode_same_elems:
  "list_all2 same_json (map tuple_json ts) js \<Longrightarrow> list_all utf8_tuple ts \<Longrightarrow> decode_elems decode_tuple z vs js = Some ts"
  by (induction ts arbitrary: js vs) (auto simp: list_all2_Cons1 decode_same_tuple)

lemma decode_same_tuples:
  "list_all2 same_json [if ts = [] then JNull else JArr (map tuple_json ts)] js \<Longrightarrow> list_all utf8_tuple ts \<Longrightarrow>
   decode_into decode_tuples vs js = Some ts"
  by (auto simp: list_all2_Cons1 decode_tuples_def decode_slice_def decode_same_elems split: if_splits)

text \<open>Labels: a map is rebuilt from its members in any order.\<close>

definition string_members :: "(string \<times> json) list \<Rightarrow> labels" where
  "string_members ms = map (\<lambda>(k, j). (unquote k, case j of JStr t \<Rightarrow> unquote t | _ \<Rightarrow> [])) ms"

lemma decode_members_map:
  "list_all (\<lambda>(k, j). \<exists>t. j = JStr t) ms \<Longrightarrow>
   \<exists>r. decode_members l ms = Some r \<and> map_of r = map_of l ++ map_of (rev (string_members ms))"
proof (induction ms arbitrary: l)
  case (Cons m ms)
  then obtain k t where m: "m = (k, JStr t)" by (cases m) auto
  from Cons obtain r where "decode_members (AList.update (unquote k) (unquote t) l) ms = Some r"
    "map_of r = map_of (AList.update (unquote k) (unquote t) l) ++ map_of (rev (string_members ms))" by fastforce
  with m show ?case by (auto simp: decode_string_def string_members_def update_conv' map_add_def fun_eq_iff split: option.splits)
qed (simp add: string_members_def)

lemma string_members_same:
  "list_all2 (\<lambda>m n. unquote (fst m) = unquote (fst n) \<and> same_json (snd m) (snd n))
     (map (\<lambda>(k, v). (json_escape k, JStr (json_escape v))) ls) ns \<Longrightarrow>
   list_all (\<lambda>(k, v). valid_utf8 k \<and> valid_utf8 v) ls \<Longrightarrow>
   list_all (\<lambda>(k, j). \<exists>t. j = JStr t) ns \<and> string_members ns = ls"
  by (induction ls arbitrary: ns) (auto simp: list_all2_Cons1 string_members_def unquote_escape)

lemma decode_same_labels:
  assumes "same_json (labels_json ls) j" "distinct (map fst ls)" "utf8_labels ls"
  shows "\<exists>r. decode_labels [] j = Some r \<and> map_of r = map_of ls"
proof -
  let ?ms = "map (\<lambda>(k, v). (json_escape k, JStr (json_escape v))) (sort_key fst ls)"
  from assms(1) obtain ns ns' where j: "j = JObj ns"
    and a: "list_all2 (\<lambda>m n. unquote (fst m) = unquote (fst n) \<and> same_json (snd m) (snd n)) ?ms ns'" "mset ns' = mset ns"
    unfolding labels_json_def same_json_simps by blast
  have u: "list_all (\<lambda>(k, v). valid_utf8 k \<and> valid_utf8 v) (sort_key fst ls)"
    using assms(3) by (simp add: utf8_labels_def list_all_iff)
  have n': "list_all (\<lambda>(k, j). \<exists>t. j = JStr t) ns'" "string_members ns' = sort_key fst ls"
    using string_members_same [OF a(1) u] by simp_all
  have "list_all (\<lambda>(k, j). \<exists>t. j = JStr t) ns" using n'(1) mset_eq_setD [OF a(2)] by (simp add: list_all_iff)
  from decode_members_map [OF this, of "[]"] obtain r where
    r: "decode_members [] ns = Some r" "map_of r = map_of (rev (string_members ns))" by auto
  have p: "mset (string_members ns) = mset ls"
  proof -
    have "mset (string_members ns) = mset (string_members ns')" by (simp only: string_members_def mset_map a(2))
    then show ?thesis by (simp only: n'(2) mset_sort)
  qed
  have "map_of (rev (string_members ns)) = map_of ls"
  proof (subst map_of_inject_set)
    have "mset (map fst (string_members ns)) = mset (map fst ls)" using p by (simp only: mset_map)
    then show "distinct (map fst (rev (string_members ns)))"
      using assms(2) by (metis distinct_rev mset_eq_imp_distinct_iff rev_map)
    show "distinct (map fst ls)" by (rule assms(2))
    show "set (rev (string_members ns)) = set ls" using mset_eq_setD [OF p] by simp
  qed
  with r j show ?thesis by (simp add: decode_labels_def)
qed

text \<open>What the program prints is well formed.\<close>

lemma nesting: "maxNestingDepth = Suc (Suc (Suc 9997))"
  by (simp add: maxNestingDepth_def)

lemma plain_labels: "utf8_labels ls \<Longrightarrow> plain (Suc d) (labels_json ls)"
  by (auto simp: labels_json_def utf8_labels_def list_all_iff clean_escape)

lemma plain_tuple: "utf8_tuple t \<Longrightarrow> plain (Suc d) (tuple_json t)"
  by (simp add: tuple_json_def utf8_tuple_def clean_escape)

lemma plain_intent: "utf8_intent i \<Longrightarrow> plain (Suc (Suc (Suc d))) (intent_json i)"
  by (auto simp: utf8_intent_def intent_json_def plain_labels plain_tuple clean_escape list_all_iff)

lemma parse_Marshal: "utf8_intent i \<Longrightarrow> json_parse (Marshal i) = Some (intent_json i)"
  unfolding Marshal_def by (rule json_parse_print) (unfold nesting, rule plain_intent)

lemma same_labels: "utf8_labels ls \<Longrightarrow> distinct (map fst ls) \<Longrightarrow> same_json (labels_json ls) (labels_json ls)"
proof -
  let ?ms = "map (\<lambda>(k, v). (json_escape k, JStr (json_escape v))) (sort_key fst ls)"
  assume u: "utf8_labels ls" and d: "distinct (map fst ls)"
  have "map (unquote \<circ> fst) ?ms = map fst (sort_key fst ls)"
    using u by (auto simp: utf8_labels_def list_all_iff unquote_escape)
  moreover have "distinct (map fst (sort_key fst ls))"
    using d by (metis distinct_map distinct_sort set_sort)
  moreover have "list_all2 (\<lambda>m n. unquote (fst m) = unquote (fst n) \<and> same_json (snd m) (snd n)) ?ms ?ms"
    by (auto intro!: list.rel_refl_strong)
  ultimately show ?thesis unfolding labels_json_def by (intro same_obj [of ?ms ?ms]) (assumption | simp only:)+
qed

text \<open>The label columns give the map back; an empty one is stored as the empty object.\<close>

lemma labels_column_roundtrip:
  assumes "utf8_labels ls" "distinct (map fst ls)"
  shows "\<exists>r. unmarshalLabels (marshalLabels ls) = Some r \<and> map_of r = map_of ls"
proof -
  have m: "marshalLabels ls = json_print (labels_json ls)" by (simp add: marshalLabels_def labels_json_def)
  have "json_parse (json_print (labels_json ls)) = Some (labels_json ls)"
    by (rule json_parse_print) (unfold nesting, rule plain_labels [OF assms(1)])
  moreover have "json_print (labels_json ls) \<noteq> []" by (simp add: labels_json_def)
  ultimately show ?thesis
    using decode_same_labels [OF same_labels [OF assms] assms(2,1)] by (simp add: unmarshalLabels_def m)
qed

section \<open>Through the outbox\<close>

text \<open>The column and its trigger: the text read back is another spelling of the document that was
  written, with the version stamped on it.\<close>

definition stored_payload :: "string \<Rightarrow> string \<Rightarrow> string \<Rightarrow> bool" where
  "stored_payload written version text \<longleftrightarrow> (case json_parse written of
       Some (JObj ms) \<Rightarrow> (case json_parse text of
           Some j \<Rightarrow> same_json (JObj (ms @ [(''source_version'', JNum version)])) j
         | None \<Rightarrow> False)
     | _ \<Rightarrow> False)"

text \<open>
  C31. An intent survives the outbox, if its strings are valid UTF-8 and its label keys are distinct: what
  a writer marshals into the payload column is what the drainer decodes from it, whatever order of
  members and spelling of strings the column gives back and although a trigger has added a member of
  its own. The kind, the object, every tuple in its order and the parent are the same, and the
  labels are the same map; no such intent of the program is poison. The keys of a Go map are
  distinct. Strings that come over gRPC are valid UTF-8; a repository name of the data plane may hold any bytes,
  and then the condition can fail, as the next theorem shows.
\<close>

theorem intents_survive_the_outbox:
  assumes "i \<in> program_intents" and "utf8_intent i" and "distinct (map fst (i_labels i))"
    and "stored_payload (Marshal i) version text"
  shows "\<exists>ls. DecodeRegisterIntent (UnmarshalRegisterIntent err) text = Inr (i\<lparr>i_labels := ls\<rparr>) \<and>
    map_of ls = map_of (i_labels i)"
proof -
  obtain ms where ms: "intent_json i = JObj ms" by (simp add: intent_json_def)
  let ?ms = "ms @ [(''source_version'', JNum version)]"
  from assms(4) ms obtain j where j: "json_parse text = Some j" "same_json (JObj ?ms) j"
    by (auto simp: stored_payload_def parse_Marshal [OF assms(2)] split: option.splits)
  then obtain ns ns' where n: "j = JObj ns"
    and a: "list_all2 (\<lambda>m n. unquote (fst m) = unquote (fst n) \<and> same_json (snd m) (snd n)) ?ms ns'" "mset ns' = mset ns"
    unfolding same_json_simps by blast
  note ms = ms [symmetric, unfolded intent_json_def json.inject]
  have f: "field_members ''kind'' ?ms = [JStr (json_escape (i_kind i))]"
    "field_members ''resource_id'' ?ms = [JStr (json_escape (i_resource_id i))]"
    "field_members ''tuples'' ?ms = [if i_tuples i = [] then JNull else JArr (map tuple_json (i_tuples i))]"
    "field_members ''labels'' ?ms = (if i_labels i = [] then [] else [labels_json (i_labels i)])"
    "field_members ''parent_project_id'' ?ms =
       (if i_parent_project_id i = [] then [] else [JStr (json_escape (i_parent_project_id i))])"
    by (simp_all add: field_members_def ms)
  have l: "length (field_members ''labels'' ?ms) \<le> 1" "length (field_members ''parent_project_id'' ?ms) \<le> 1"
    unfolding f by simp_all
  note s = field_same [OF a, of "''kind''", unfolded f] field_same [OF a, of "''resource_id''", unfolded f]
    field_same [OF a, of "''tuples''", unfolded f] field_same [OF a l(1), unfolded f] field_same [OF a l(2), unfolded f]
  note u = assms(2) [unfolded utf8_intent_def]
  have "decode_into decode_string [] (field_members ''kind'' ns) = Some (i_kind i)"
    "decode_into decode_string [] (field_members ''resource_id'' ns) = Some (i_resource_id i)"
    "decode_into decode_tuples [] (field_members ''tuples'' ns) = Some (i_tuples i)"
    "decode_into decode_string [] (field_members ''parent_project_id'' ns) = Some (i_parent_project_id i)"
    using s u by (simp_all add: decode_same_string decode_same_tuples split: if_splits)
  moreover have "\<exists>ls. decode_into decode_labels [] (field_members ''labels'' ns) = Some ls \<and> map_of ls = map_of (i_labels i)"
    using s(4) u decode_same_labels [OF _ assms(3)] by (fastforce simp: list_all2_Cons1 split: if_splits)
  then obtain ls where "decode_into decode_labels [] (field_members ''labels'' ns) = Some ls" "map_of ls = map_of (i_labels i)" by blast
  ultimately have "decode_intent j = Some (i\<lparr>i_labels := ls\<rparr>)" "map_of ls = map_of (i_labels i)"
    by (simp_all add: decode_intent_def n)
  moreover have "i_tuples i \<noteq> [] \<and> list_all tuple_valid (i_tuples i)" by (rule program_intents_valid [OF assms(1)])
  ultimately show ?thesis
    by (auto simp: DecodeRegisterIntent_def UnmarshalRegisterIntent_def j first_incomplete_None)
qed

text \<open>A document as the column prints it: members sorted by length, spaces, the version stamped.\<close>

definition demo_registry :: registry where
  "demo_registry = \<lparr>r_id = ''reg1'', r_project_id = ''prj1'', r_name = ''app'', r_description = [],
     r_labels = [(''team'', ''a<b'')], r_status = RegistryStatusActive, r_created_at = 1, r_default_visibility = VisibilityPrivate\<rparr>"

definition quoting :: "string \<Rightarrow> string" where
  "quoting t = map (\<lambda>c. if c = CHR 0x27 then CHR 0x22 else c) t"

text \<open>The text, with double quotes for the single ones.\<close>

definition demo_stored :: string where
  "demo_stored = quoting (concat [''{'', squote ''kind'', '': '', squote ''Registry'', '', '',
     squote ''labels'', '': {'', squote ''team'', '': '', squote ''a<b'', ''}, '',
     squote ''tuples'', '': [{'', squote ''object'', '': '', squote ''registry_registry:reg1'', '', '',
       squote ''relation'', '': '', squote ''project'', '', '', squote ''subject_id'', '': '', squote ''project:prj1'', ''}], '',
     squote ''resource_id'', '': '', squote ''reg1'', '', '', squote ''source_version'', '': 7, '',
     squote ''parent_project_id'', '': '', squote ''prj1'', ''}''])"

definition demo_document :: json where
  "demo_document = JObj
    [(''kind'', JStr ''Registry''), (''labels'', JObj [(''team'', JStr ''a<b'')]),
     (''tuples'', JArr [JObj [(''object'', JStr ''registry_registry:reg1''), (''relation'', JStr ''project''),
        (''subject_id'', JStr ''project:prj1'')]]),
     (''resource_id'', JStr ''reg1''), (''source_version'', JNum ''7''), (''parent_project_id'', JStr ''prj1'')]"

lemma demo_payload_parsed: "json_parse demo_stored = Some demo_document"
  by code_simp

lemma demo_written: "utf8_intent (RegisterIntentForUpdate demo_registry)"
    "intent_json (RegisterIntentForUpdate demo_registry) = JObj
      [(''kind'', JStr ''Registry''), (''resource_id'', JStr ''reg1''),
       (''tuples'', JArr [JObj [(''subject_id'', JStr ''project:prj1''), (''relation'', JStr ''project''),
          (''object'', JStr ''registry_registry:reg1'')]]),
       (''labels'', JObj [(''team'', JStr (''a'' @ u_escape 60 @ ''b''))]), (''parent_project_id'', JStr ''prj1'')]"
  by code_simp+

lemma demo_same:
  "same_json (JObj ([(''kind'', JStr ''Registry''), (''resource_id'', JStr ''reg1''),
       (''tuples'', JArr [JObj [(''subject_id'', JStr ''project:prj1''), (''relation'', JStr ''project''),
          (''object'', JStr ''registry_registry:reg1'')]]),
       (''labels'', JObj [(''team'', JStr (''a'' @ u_escape 60 @ ''b''))]), (''parent_project_id'', JStr ''prj1'')] @
     [(''source_version'', JNum ''7'')])) demo_document"
proof -
  have t: "same_json (JObj [(''subject_id'', JStr ''project:prj1''), (''relation'', JStr ''project''), (''object'', JStr ''registry_registry:reg1'')])
      (JObj [(''object'', JStr ''registry_registry:reg1''), (''relation'', JStr ''project''), (''subject_id'', JStr ''project:prj1'')])"
    by (rule same_obj [where ns' = "[(''subject_id'', JStr ''project:prj1''), (''relation'', JStr ''project''), (''object'', JStr ''registry_registry:reg1'')]"])
      (simp_all add: same_str add_mset_commute)
  have "unquote (CHR ''a'' # u_escape 60 @ ''b'') = ''a<b''" by code_simp
  then have l: "same_json (JObj [(''team'', JStr (CHR ''a'' # u_escape 60 @ ''b''))]) (JObj [(''team'', JStr ''a<b'')])"
    by (intro same_obj [where ns' = "[(''team'', JStr ''a<b'')]"]) (simp_all add: same_str)
  show ?thesis unfolding demo_document_def
    by (rule same_obj [where ns' = "[(''kind'', JStr ''Registry''), (''resource_id'', JStr ''reg1''),
       (''tuples'', JArr [JObj [(''object'', JStr ''registry_registry:reg1''), (''relation'', JStr ''project''),
          (''subject_id'', JStr ''project:prj1'')]]),
       (''labels'', JObj [(''team'', JStr ''a<b'')]), (''parent_project_id'', JStr ''prj1''), (''source_version'', JNum ''7'')]"])
      (simp_all add: same_str same_num same_arr t l add_mset_commute del: same_json_simps)
qed

lemma intents_survive_the_outbox_witness:
  "\<exists>ls. DecodeRegisterIntent (UnmarshalRegisterIntent (\<lambda>_. [])) demo_stored =
     Inr (RegisterIntentForUpdate demo_registry\<lparr>i_labels := ls\<rparr>) \<and> map_of ls = map_of [(''team'', ''a<b'')]"
proof -
  have "stored_payload (Marshal (RegisterIntentForUpdate demo_registry)) ''7'' demo_stored"
    using demo_same by (simp add: stored_payload_def parse_Marshal demo_written demo_payload_parsed)
  moreover have "i_labels (RegisterIntentForUpdate demo_registry) = [(''team'', ''a<b'')]" by code_simp
  ultimately show ?thesis
    using intents_survive_the_outbox [OF program_intents.intros(2) demo_written(1)] by simp
qed

text \<open>
  Without valid UTF-8 the intent does not survive. The data plane decodes \<open>%FF\<close> in the name of a repository to the byte
  255 and accepts it; the marshaller replaces such a byte by U+FFFD, so the tuple that is applied names
  another repository than the one that was pushed.
\<close>

definition byte_name :: string where
  "byte_name = ''a'' @ [CHR 0xFF]"

theorem ill_formed_name_is_replaced:
  "map_sum id o_repo (parsePath demo_corelib ''/v2/reg1/a%FF/manifests/v1'') = Inr byte_name \<and>
   DecodeRegisterIntent (UnmarshalRegisterIntent (\<lambda>_. [])) (Marshal (RegisterIntentForRepoPush ''reg1'' byte_name ''prj1'' [])) =
     Inr (RegisterIntentForRepoPush ''reg1'' (''a'' @ [CHR 0xEF, CHR 0xBF, CHR 0xBD]) ''prj1'' [])"
  by (intro conjI) code_simp+

end
