(* ===== verification/Rfc3339.thy ===== *)
theory Rfc3339
  imports Json DomainTypes "HOL-Library.Monad_Syntax" "HOL-Library.Code_Target_Nat"
begin

text \<open>
  How \<open>time.Time\<close> goes through JSON: \<open>MarshalJSON\<close> prints the instant with nanoseconds in the local
  zone, \<open>UnmarshalJSON\<close> reads it back. An instant is the number of nanoseconds since the first day of
  year 1 in UTC; the zone of the host is a function from instants to minutes.
\<close>

section \<open>The calendar\<close>

definition leap :: "nat \<Rightarrow> bool" where
  "leap y \<longleftrightarrow> y mod 4 = 0 \<and> (y mod 100 \<noteq> 0 \<or> y mod 400 = 0)"

definition month_lengths :: "nat \<Rightarrow> nat list" where
  "month_lengths y = [31, if leap y then 29 else 28, 31, 30, 31, 30, 31, 31, 30, 31, 30, 31]"

definition year_len :: "nat \<Rightarrow> nat" where
  "year_len y = (if leap y then 366 else 365)"

primrec days_before :: "nat \<Rightarrow> nat" where
  "days_before 0 = 0"
| "days_before (Suc y) = days_before y + year_len y"

function split_year :: "nat \<Rightarrow> nat \<Rightarrow> nat \<times> nat" where
  "split_year y d = (if d < year_len y then (y, d) else split_year (Suc y) (d - year_len y))"
  by pat_completeness auto
termination by (relation "measure snd") (auto simp: year_len_def split: if_splits)

declare split_year.simps [simp del]

fun split_month :: "nat list \<Rightarrow> nat \<Rightarrow> nat \<times> nat" where
  "split_month [] d = (0, d)"
| "split_month (l # ls) d = (if d < l then (0, d) else apfst Suc (split_month ls (d - l)))"

lemma split_year_sound: "split_year y d = (y', r) \<Longrightarrow> r < year_len y' \<and> days_before y + d = days_before y' + r"
proof (induction y d rule: split_year.induct)
  case (1 y d)
  show ?case
  proof (cases "d < year_len y")
    case True
    with 1 show ?thesis by (simp add: split_year.simps [of y d])
  next
    case False
    moreover from this 1 have "r < year_len y' \<and> days_before (Suc y) + (d - year_len y) = days_before y' + r"
      by (simp add: split_year.simps [of y d])
    ultimately show ?thesis by simp
  qed
qed

lemma split_month_sound:
  "d < sum_list ls \<Longrightarrow> split_month ls d = (m, r) \<Longrightarrow> m < length ls \<and> r < ls ! m \<and> sum_list (take m ls) + r = d"
proof (induction ls arbitrary: d m)
  case (Cons l ls)
  show ?case
  proof (cases "d < l")
    case True
    with Cons show ?thesis by simp
  next
    case False
    then obtain m' where m: "m = Suc m'" "split_month ls (d - l) = (m', r)"
      using Cons.prems by (cases "split_month ls (d - l)") auto
    moreover have "d - l < sum_list ls" using Cons.prems False by simp
    ultimately show ?thesis using Cons.IH [of "d - l" m'] False by (simp, linarith)
  qed
qed simp

lemma month_lengths_sum: "sum_list (month_lengths y) = year_len y" "length (month_lengths y) = 12"
  by (simp_all add: month_lengths_def year_len_def)

section \<open>Fields of digits\<close>

primrec pad :: "nat \<Rightarrow> nat \<Rightarrow> string" where
  "pad 0 n = []"
| "pad (Suc k) n = pad k (n div 10) @ [digit_char (n mod 10)]"

definition digits_field :: "nat \<Rightarrow> nat \<Rightarrow> nat \<Rightarrow> string \<Rightarrow> (nat \<times> string) option" where
  "digits_field k lo hi s = (if length s < k then None else case parse_digits 0 (take k s) of
       None \<Rightarrow> None | Some n \<Rightarrow> if lo \<le> n \<and> n \<le> hi then Some (n, drop k s) else None)"

definition literal :: "char \<Rightarrow> string \<Rightarrow> string option" where
  "literal c s = (case s of [] \<Rightarrow> None | x # xs \<Rightarrow> if x = c then Some xs else None)"

lemma length_pad [simp]: "length (pad k n) = k"
  by (induction k arbitrary: n) simp_all

lemma parse_pad: "n < 10 ^ k \<Longrightarrow> parse_digits 0 (pad k n) = Some n"
  by (induction k arbitrary: n) (simp_all add: parse_digits_append digit_val_char less_mult_imp_div_less mult.commute)

lemma digits_field_pad: "n < 10 ^ k \<Longrightarrow> lo \<le> n \<Longrightarrow> n \<le> hi \<Longrightarrow> digits_field k lo hi (pad k n @ s) = Some (n, s)"
  by (simp add: digits_field_def parse_pad)

lemma literal_Cons [simp]: "literal c (c # s) = Some s"
  by (simp add: literal_def)

section \<open>Fractions of a second\<close>

definition strip_zeros :: "string \<Rightarrow> string" where
  "strip_zeros s = rev (dropWhile (\<lambda>c. c = CHR ''0'') (rev s))"

definition frac_text :: "nat \<Rightarrow> string" where
  "frac_text ns = (if ns = 0 then [] else CHR ''.'' # strip_zeros (pad 9 ns))"

text \<open>\<open>parseNanoseconds\<close>: nine digits count, missing ones are zero.\<close>

definition read_frac :: "string \<Rightarrow> nat \<times> string" where
  "read_frac s = (case s of c # d # r \<Rightarrow>
       if c = CHR ''.'' \<and> is_digit d
       then let ds = takeWhile is_digit (d # r) in
         (case parse_digits 0 (take 9 (ds @ replicate 9 (CHR ''0''))) of Some n \<Rightarrow> n | None \<Rightarrow> 0, drop (length ds) (d # r))
       else (0, s)
     | _ \<Rightarrow> (0, s))"

lemma strip_zeros_app: "\<exists>n. s = strip_zeros s @ replicate n (CHR ''0'')"
proof -
  have "rev (takeWhile (\<lambda>c. c = CHR ''0'') (rev s)) = replicate (length (takeWhile (\<lambda>c. c = CHR ''0'') (rev s))) (CHR ''0'')"
    by (rule replicate_eqI) (auto dest: set_takeWhileD)
  moreover have "s = rev (takeWhile (\<lambda>c. c = CHR ''0'') (rev s) @ dropWhile (\<lambda>c. c = CHR ''0'') (rev s))" by simp
  ultimately show ?thesis unfolding strip_zeros_def by (metis rev_append)
qed

lemma is_digit_char [simp]: "d < 10 \<Longrightarrow> is_digit (digit_char d)"
  by (simp add: is_digit_def digit_val_char)

lemma pad_digits: "\<forall>c \<in> set (pad k n). is_digit c"
  by (induction k arbitrary: n) auto

lemma read_frac_text:
  assumes "ns < 10 ^ 9" and rest: "rest \<noteq> []" "\<not> is_digit (hd rest)" "hd rest \<noteq> CHR ''.''"
  shows "read_frac (frac_text ns @ rest) = (ns, rest)"
proof (cases "ns = 0")
  case True
  with rest show ?thesis by (cases rest) (auto simp: frac_text_def read_frac_def split: list.splits)
next
  case False
  let ?z = "strip_zeros (pad 9 ns)"
  obtain n where n: "pad 9 ns = ?z @ replicate n (CHR ''0'')" using strip_zeros_app by blast
  have "?z \<noteq> []"
  proof
    assume "?z = []"
    with n have "pad 9 ns = replicate n (CHR ''0'')" by simp
    moreover have "parse_digits 0 (replicate n (CHR ''0'')) = Some 0" for n
      by (induction n) (simp_all add: digit_val_def Let_def)
    ultimately show False using parse_pad [OF assms(1)] False by simp
  qed
  then obtain d r where z: "?z = d # r" by (cases ?z) auto
  have dig: "\<forall>c \<in> set ?z. is_digit c" using pad_digits [of 9 ns] n by (metis UnCI set_append)
  then have "takeWhile is_digit (?z @ rest) = ?z" using rest by (cases rest) (simp_all add: takeWhile_append)
  moreover have "take 9 (?z @ replicate 9 (CHR ''0'')) = pad 9 ns"
  proof -
    have "length ?z + n = 9" using n length_pad [of 9 ns] by (metis length_append length_replicate)
    then have "take 9 (?z @ replicate 9 (CHR ''0'')) = ?z @ replicate n (CHR ''0'')" by (simp add: min_def)
    also have "\<dots> = pad 9 ns" by (rule n [symmetric])
    finally show ?thesis .
  qed
  moreover have "is_digit d" using dig z by simp
  ultimately show ?thesis using parse_pad [OF assms(1)] False z
    by (simp add: frac_text_def read_frac_def Let_def del: takeWhile.simps)
qed

section \<open>Instants\<close>

definition day_ns :: int where "day_ns = 86400000000000"

text \<open>The zone \<open>off\<close> in minutes, as it is printed.\<close>

definition zone_text :: "int \<Rightarrow> string" where
  "zone_text off = (if off = 0 then ''Z''
     else (if off < 0 then ''-'' else ''+'') @ pad 2 (nat \<bar>off\<bar> div 60) @ '':'' @ pad 2 (nat \<bar>off\<bar> mod 60))"

text \<open>\<open>MarshalJSON\<close> without its quotes; it fails outside the years 0 to 9999 and for a zone of a day or
  more. Year 0 has 366 days.\<close>

definition MarshalTime :: "(time \<Rightarrow> int) \<Rightarrow> time \<Rightarrow> string option" where
  "MarshalTime zone t =
     (let off = zone t;
          wall = t + off * 60000000000 + 366 * day_ns;
          (y, yd) = split_year 0 (nat (wall div day_ns));
          (m, d) = split_month (month_lengths y) yd;
          secs = nat (wall mod day_ns div 1000000000) in
      if wall < 0 \<or> 9999 < y \<or> 1440 \<le> \<bar>off\<bar> then None
      else Some (pad 4 y @ ''-'' @ pad 2 (Suc m) @ ''-'' @ pad 2 (Suc d) @ ''T'' @ pad 2 (secs div 3600) @ '':'' @
        pad 2 (secs div 60 mod 60) @ '':'' @ pad 2 (secs mod 60) @ frac_text (nat (wall mod 1000000000)) @ zone_text off))"

definition read_zone :: "string \<Rightarrow> int option" where
  "read_zone s = (if s = ''Z'' then Some 0
     else if length s \<noteq> 6 then None
     else do { (h, r) \<leftarrow> digits_field 2 0 23 (drop 1 s);
               r \<leftarrow> literal (CHR '':'') r;
               (m, r) \<leftarrow> digits_field 2 0 59 r;
               if hd s = CHR ''-'' then Some (- int (h * 60 + m))
               else if hd s = CHR ''+'' then Some (int (h * 60 + m)) else None })"

definition parseRFC3339 :: "string \<Rightarrow> time option" where
  "parseRFC3339 s = do {
     (y, s) \<leftarrow> digits_field 4 0 9999 s; s \<leftarrow> literal (CHR ''-'') s;
     (m, s) \<leftarrow> digits_field 2 1 12 s; s \<leftarrow> literal (CHR ''-'') s;
     (d, s) \<leftarrow> digits_field 2 1 (month_lengths y ! (m - 1)) s; s \<leftarrow> literal (CHR ''T'') s;
     (h, s) \<leftarrow> digits_field 2 0 23 s; s \<leftarrow> literal (CHR '':'') s;
     (mi, s) \<leftarrow> digits_field 2 0 59 s; s \<leftarrow> literal (CHR '':'') s;
     (sc, s) \<leftarrow> digits_field 2 0 59 s;
     off \<leftarrow> read_zone (snd (read_frac s));
     Some (int (days_before y + sum_list (take (m - 1) (month_lengths y)) + (d - 1)) * day_ns - 366 * day_ns +
       int (h * 3600 + mi * 60 + sc) * 1000000000 + int (fst (read_frac s)) - off * 60000000000) }"

text \<open>\<open>UnmarshalJSON\<close> of a string literal: what the strict parser refuses goes to the general one,
  which is a parameter.\<close>

definition UnmarshalTime :: "(string \<Rightarrow> time option) \<Rightarrow> string \<Rightarrow> time option" where
  "UnmarshalTime lenient s = (case parseRFC3339 s of Some t \<Rightarrow> Some t | None \<Rightarrow> lenient s)"

lemma read_zone_text: "\<bar>off\<bar> < 1440 \<Longrightarrow> read_zone (zone_text off) = Some off"
proof -
  assume b: "\<bar>off\<bar> < 1440"
  have h: "nat \<bar>off\<bar> div 60 < 24" using b by (simp add: less_mult_imp_div_less)
  have m: "nat \<bar>off\<bar> mod 60 < 60" by simp
  have s: "nat \<bar>off\<bar> div 60 * 60 + nat \<bar>off\<bar> mod 60 = nat \<bar>off\<bar>" by (rule div_mult_mod_eq)
  have z: "digits_field 2 0 59 (pad 2 (nat \<bar>off\<bar> mod 60)) = Some (nat \<bar>off\<bar> mod 60, [])"
    using digits_field_pad [of "nat \<bar>off\<bar> mod 60" 2 0 59 "[]"] m by simp
  show ?thesis
    using b h m s z by (auto simp: read_zone_def zone_text_def digits_field_pad abs_if simp del: pad.simps)
qed

lemma zone_text_starts: "zone_text off \<noteq> [] \<and> \<not> is_digit (hd (zone_text off)) \<and> hd (zone_text off) \<noteq> CHR ''.''"
  by (simp add: zone_text_def is_digit_def digit_val_def Let_def)

lemma time_roundtrip:
  assumes "MarshalTime zone t = Some s" shows "UnmarshalTime lenient s = Some t"
proof -
  define off where "off = zone t"
  define wall where "wall = t + off * 60000000000 + 366 * day_ns"
  obtain y yd where y: "split_year 0 (nat (wall div day_ns)) = (y, yd)" by force
  obtain m d where m: "split_month (month_lengths y) yd = (m, d)" by force
  define secs where "secs = nat (wall mod day_ns div 1000000000)"
  define ns where "ns = nat (wall mod 1000000000)"
  from assms have ok: "0 \<le> wall" "y \<le> 9999" "\<bar>off\<bar> < 1440"
    and s: "s = pad 4 y @ ''-'' @ pad 2 (Suc m) @ ''-'' @ pad 2 (Suc d) @ ''T'' @ pad 2 (secs div 3600) @ '':'' @
        pad 2 (secs div 60 mod 60) @ '':'' @ pad 2 (secs mod 60) @ frac_text ns @ zone_text off"
    by (simp_all add: MarshalTime_def Let_def off_def [symmetric] wall_def [symmetric] y m secs_def [symmetric] ns_def [symmetric]
        split: if_splits)
  note sy = split_year_sound [OF y]
  have sm: "m < 12" "d < month_lengths y ! m" "sum_list (take m (month_lengths y)) + d = yd"
    using split_month_sound [OF _ m] sy by (auto simp: month_lengths_sum)
  have ml: "month_lengths y ! m \<le> 31"
    using sm(1) by (auto simp: month_lengths_def less_Suc_eq numeral_eq_Suc)
  have secs: "secs < 86400" by (simp add: secs_def day_ns_def)
  have ns: "ns < 10 ^ 9" by (simp add: ns_def)
  have h: "secs div 3600 < 24" using secs by (simp add: less_mult_imp_div_less)
  have e: "secs div 3600 * 3600 + secs div 60 mod 60 * 60 + secs mod 60 = secs"
  proof -
    have "secs div 60 = secs div 3600 * 60 + secs div 60 mod 60"
      using div_mult_mod_eq [of "secs div 60" 60] by (simp add: div_mult2_eq [symmetric])
    moreover have "secs = secs div 60 * 60 + secs mod 60" by simp
    ultimately show ?thesis by linarith
  qed
  have w: "int (days_before y + sum_list (take m (month_lengths y)) + d) * day_ns + int secs * 1000000000 + int ns = wall"
  proof -
    have "days_before y + sum_list (take m (month_lengths y)) + d = nat (wall div day_ns)" using sy sm(3) by simp
    moreover have "0 \<le> wall div day_ns" using ok(1) by (simp add: day_ns_def pos_imp_zdiv_nonneg_iff)
    ultimately have "int (days_before y + sum_list (take m (month_lengths y)) + d) * day_ns = wall div day_ns * day_ns" by simp
    moreover have "int secs = wall mod day_ns div 1000000000" by (simp add: secs_def day_ns_def pos_imp_zdiv_nonneg_iff)
    moreover have "int ns = wall mod day_ns mod 1000000000" by (simp add: ns_def day_ns_def mod_mod_cancel)
    ultimately show ?thesis by (simp only: div_mult_mod_eq add.assoc)
  qed
  have "parseRFC3339 s = Some t"
    unfolding s parseRFC3339_def
    using ok sm ml h w e read_frac_text [OF ns, of "zone_text off"] zone_text_starts [of off]
    by (simp add: digits_field_pad read_zone_text wall_def del: pad.simps)
  then show ?thesis by (simp add: UnmarshalTime_def)
qed

text \<open>A marshalled instant is a literal without escapes.\<close>

definition plain_byte :: "char \<Rightarrow> bool" where
  "plain_byte c \<longleftrightarrow> c \<noteq> CHR 0x22 \<and> c \<noteq> CHR 0x5C \<and> 32 \<le> (of_char c :: nat)"

lemma clean_plain: "list_all plain_byte s \<Longrightarrow> clean s"
proof -
  have "scan_str (s @ CHR 0x22 # rest) = Some (s, rest)" if "list_all plain_byte s" for rest
    using that by (induction s) (auto simp: plain_byte_def)
  then show "list_all plain_byte s \<Longrightarrow> clean s" by (simp add: clean_def)
qed

lemma plain_digit: "is_digit c \<Longrightarrow> plain_byte c"
proof -
  have "\<not> is_digit (CHR 0x22)" "\<not> is_digit (CHR 0x5C)" by (simp_all add: is_digit_def digit_val_def Let_def)
  then show "is_digit c \<Longrightarrow> plain_byte c"
    by (auto simp: plain_byte_def is_digit_def digit_val_def Let_def split: if_splits)
qed

lemma plain_pad [simp]: "list_all plain_byte (pad k n)"
  using pad_digits [of k n] plain_digit by (auto simp: list_all_iff)

lemma plain_signs [simp]: "plain_byte CHR ''-''" "plain_byte CHR '':''" "plain_byte CHR ''T''" "plain_byte CHR ''.''"
    "plain_byte CHR ''Z''" "plain_byte CHR ''+''"
  by (simp_all add: plain_byte_def)

lemma plain_frac: "list_all plain_byte (frac_text ns)"
proof -
  obtain n where "pad 9 ns = strip_zeros (pad 9 ns) @ replicate n (CHR ''0'')" using strip_zeros_app by blast
  then have "list_all plain_byte (strip_zeros (pad 9 ns))" using plain_pad [of 9 ns] by (metis list_all_append)
  then show ?thesis by (simp add: frac_text_def)
qed

lemma clean_time: "MarshalTime zone t = Some s \<Longrightarrow> clean s"
  by (rule clean_plain)
    (auto simp: MarshalTime_def Let_def plain_frac zone_text_def simp del: pad.simps split: prod.splits if_splits)

lemma time_examples:
  "MarshalTime (\<lambda>_. 0) (1154 * 86400000000000 + 3723000000000 + 120000000) = Some ''0004-02-29T01:02:03.12Z''"
  "MarshalTime (\<lambda>_. -90) 0 = Some ''0000-12-31T22:30:00-01:30''"
  "MarshalTime (\<lambda>_. 0) (-1) = Some ''0000-12-31T23:59:59.999999999Z''"
  by code_simp+

end
