(* ===== verification/PgList.thy ===== *)
theory PgList
  imports UseCases Payload Rfc3339 "HOL-Library.Product_Lexorder"
begin

text \<open>
  The paged query of \<open>internal/repo/kacho/pg/registry.go\<close> with the opaque cursor of
  \<open>pagetoken.go\<close>: a keyset on \<open>(created_at, id)\<close>. The parser of filters is library code and a
  parameter, as are the zone of the host, the lenient parser of times and the texts of decoding
  errors. PostgreSQL keeps microseconds; ids compare bytewise.
\<close>

section \<open>The cursor\<close>

record page_cursor =
  pc_CreatedAt :: time
  pc_ID :: string

record filter_ast =
  ast_Field :: string
  ast_Value :: string

record list_lib =
  ll_ParseFilter :: "string \<Rightarrow> string list \<Rightarrow> string + filter_ast option"
  ll_zone :: "time \<Rightarrow> int"
  ll_lenient :: "string \<Rightarrow> time option"
  ll_error :: "string \<Rightarrow> string"

definition encodePageToken :: "list_lib \<Rightarrow> time \<Rightarrow> string \<Rightarrow> string" where
  "encodePageToken L createdAt i = b64_encode False
     (case MarshalTime (ll_zone L) createdAt of None \<Rightarrow> []
      | Some t \<Rightarrow> json_print (JObj [(''created_at'', JStr t), (''id'', JStr (json_escape i))]))"

definition decode_time :: "list_lib \<Rightarrow> time \<Rightarrow> json \<Rightarrow> time option" where
  "decode_time L v j = (case j of JNull \<Rightarrow> Some v | JStr t \<Rightarrow> UnmarshalTime (ll_lenient L) t | _ \<Rightarrow> None)"

definition decode_cursor :: "list_lib \<Rightarrow> json \<Rightarrow> page_cursor option" where
  "decode_cursor L j = (case j of
       JNull \<Rightarrow> Some \<lparr>pc_CreatedAt = 0, pc_ID = []\<rparr>
     | JObj ms \<Rightarrow>
         (case decode_into (decode_time L) 0 (field_members ''created_at'' ms) of None \<Rightarrow> None
          | Some t \<Rightarrow> (case decode_into decode_string [] (field_members ''id'' ms) of None \<Rightarrow> None
          | Some i \<Rightarrow> Some \<lparr>pc_CreatedAt = t, pc_ID = i\<rparr>))
     | _ \<Rightarrow> None)"

definition decodePageToken :: "list_lib \<Rightarrow> string \<Rightarrow> string + page_cursor" where
  "decodePageToken L token = (case b64_decode False token of
       None \<Rightarrow> Inl (ll_error L token)
     | Some raw \<Rightarrow> (case json_parse raw of
           None \<Rightarrow> Inl (ll_error L token)
         | Some j \<Rightarrow> (case decode_cursor L j of
               None \<Rightarrow> Inl (ll_error L token)
             | Some c \<Rightarrow> if pc_ID c = [] then Inl ''empty cursor id'' else Inr c)))"

definition invalidPageTokenErr :: "string \<Rightarrow> gerror" where
  "invalidPageTokenErr err = wrapE ErrInvalidArg (''invalid page_token: '' @ err)"

definition invalidFilterErr :: "string \<Rightarrow> gerror" where
  "invalidFilterErr err = wrapE ErrInvalidArg (''invalid filter: '' @ err)"

section \<open>The query\<close>

text \<open>The conditions of the \<open>WHERE\<close> clause, joined by \<open>AND\<close>.\<close>

datatype condition = ProjectIs string | NameIs string | After time string

definition list_key :: "registry \<Rightarrow> time \<times> string" where
  "list_key r = (r_created_at r, r_id r)"

definition microseconds :: "time \<Rightarrow> time" where
  "microseconds t = t div 1000 * 1000"

fun meets :: "registry \<Rightarrow> condition \<Rightarrow> bool" where
  "meets r (ProjectIs p) \<longleftrightarrow> r_project_id r = p"
| "meets r (NameIs n) \<longleftrightarrow> r_name r = n"
| "meets r (After t i) \<longleftrightarrow> (microseconds t, i) < list_key r"

definition sql_list_registries :: "condition list \<Rightarrow> int \<Rightarrow> db \<Rightarrow> (pg_error + registry list) \<times> db" where
  "sql_list_registries conds limit s =
     (if limit < 0 then Inl (SqlState ''2201W'')
      else Inr (take (nat limit) (sort_key list_key (filter (\<lambda>r. list_all (meets r) conds) (d_registries s)))), s)"

text \<open>Addition on \<open>int64\<close>.\<close>

definition add64 :: "int \<Rightarrow> int \<Rightarrow> int" where
  "add64 a b = (a + b + 2 ^ 63) mod 2 ^ 64 - 2 ^ 63"

definition list_conditions :: "list_query \<Rightarrow> filter_ast option \<Rightarrow> condition list" where
  "list_conditions q ast = (if lq_ProjectID q \<noteq> [] then [ProjectIs (lq_ProjectID q)] else []) @
     (case ast of None \<Rightarrow> [] | Some a \<Rightarrow> [NameIs (ast_Value a)])"

definition cut_page :: "list_lib \<Rightarrow> int \<Rightarrow> registry list \<Rightarrow> registry list \<times> string" where
  "cut_page L pageSize out =
     (if int (length out) > pageSize
      then let r = out ! nat (pageSize - 1) in (take (nat pageSize) out, encodePageToken L (r_created_at r) (r_id r))
      else (out, []))"

definition repo_List :: "list_lib \<Rightarrow> list_query \<Rightarrow> (db, gerror + registry list \<times> string) state" where
  "repo_List L q = ready (case ll_ParseFilter L (lq_Filter q) [''name''] of
       Inl e \<Rightarrow> State_Monad.return (Inl (invalidFilterErr e))
     | Inr ast \<Rightarrow>
         (case (if lq_PageToken q \<noteq> [] then map_sum id (\<lambda>c. [After (pc_CreatedAt c) (pc_ID c)]) (decodePageToken L (lq_PageToken q))
                else Inr []) of
            Inl e \<Rightarrow> State_Monad.return (Inl (invalidPageTokenErr e))
          | Inr cursor \<Rightarrow>
              (let pageSize = (if lq_PageSize q \<le> 0 then 50 else lq_PageSize q) in
               andThen (wrapped (\<lambda>e. wrapPgErr e ''Registry'' [])
                   (trip (sql_list_registries (list_conditions q ast @ cursor) (add64 pageSize 1)))) (\<lambda>out.
                 State_Monad.return (Inr (cut_page L pageSize out))))))"

section \<open>The cursor reads back\<close>

lemma cursor_roundtrip:
  assumes "MarshalTime (ll_zone L) t = Some w" "valid_utf8 i" "i \<noteq> []"
  shows "decodePageToken L (encodePageToken L t i) = Inr \<lparr>pc_CreatedAt = t, pc_ID = i\<rparr>" "encodePageToken L t i \<noteq> []"
proof -
  let ?ms = "[(''created_at'', JStr w), (''id'', JStr (json_escape i))]"
  have "json_parse (json_print (JObj ?ms)) = Some (JObj ?ms)"
    by (rule json_parse_print) (unfold nesting plain.simps, simp add: clean_time [OF assms(1)] clean_escape assms(2))
  moreover have "decode_cursor L (JObj ?ms) = Some \<lparr>pc_CreatedAt = t, pc_ID = i\<rparr>"
    using assms by (simp add: decode_cursor_def field_members_def decode_time_def decode_string_def time_roundtrip unquote_escape)
  ultimately show "decodePageToken L (encodePageToken L t i) = Inr \<lparr>pc_CreatedAt = t, pc_ID = i\<rparr>"
    by (simp add: decodePageToken_def encodePageToken_def assms b64_decode_encode)
  show "encodePageToken L t i \<noteq> []" by (simp add: encodePageToken_def assms)
qed

section \<open>Walking the pages\<close>

text \<open>What a query asks for, in the order it is listed.\<close>

definition matching :: "list_query \<Rightarrow> filter_ast option \<Rightarrow> db \<Rightarrow> registry list" where
  "matching q ast s = sort_key list_key (filter (\<lambda>r. list_all (meets r) (list_conditions q ast)) (d_registries s))"

text \<open>A database nobody writes to, with rows as the store writes them.\<close>

definition quiet :: "db \<Rightarrow> bool" where
  "quiet s \<longleftrightarrow> d_pool s \<and> d_faults s = []"

definition listable :: "list_lib \<Rightarrow> registry \<Rightarrow> bool" where
  "listable L r \<longleftrightarrow> r_id r \<noteq> [] \<and> valid_utf8 (r_id r) \<and> microseconds (r_created_at r) = r_created_at r \<and>
     MarshalTime (ll_zone L) (r_created_at r) \<noteq> None"

definition list_page :: "list_lib \<Rightarrow> list_query \<Rightarrow> db \<Rightarrow> nat \<Rightarrow> string \<Rightarrow> gerror + registry list \<times> string" where
  "list_page L q s n t = fst (run_state (repo_List L (q\<lparr>lq_PageSize := int n, lq_PageToken := t\<rparr>)) s)"

definition list_tok :: "list_lib \<Rightarrow> registry list \<Rightarrow> nat \<Rightarrow> string" where
  "list_tok L xs i = (if i = 0 then [] else encodePageToken L (r_created_at (xs ! (i - 1))) (r_id (xs ! (i - 1))))"

definition list_ok :: "list_lib \<Rightarrow> list_query \<Rightarrow> filter_ast option \<Rightarrow> db \<Rightarrow> registry list \<Rightarrow> nat \<Rightarrow> bool" where
  "list_ok L q ast s xs n \<longleftrightarrow> quiet s \<and> ll_ParseFilter L (lq_Filter q) [''name''] = Inr ast \<and> xs = matching q ast s \<and>
     1 \<le> n \<and> n < 2 ^ 63 - 1 \<and> distinct (map r_id (d_registries s)) \<and> list_all (listable L) (d_registries s)"

lemma filter_after:
  "sorted_wrt (<) (map f xs) \<Longrightarrow> i < length xs \<Longrightarrow> filter (\<lambda>x. f (xs ! i) < (f x :: 'b :: linorder)) xs = drop (Suc i) xs"
proof (induction xs arbitrary: i)
  case (Cons x xs)
  show ?case
  proof (cases i)
    case 0
    with Cons.prems show ?thesis by (auto simp: filter_id_conv)
  next
    case (Suc j)
    with Cons.prems have "f x < f (xs ! j)" "j < length xs" by auto
    then have "\<not> f (xs ! j) < f x" "j < length xs" by (auto dest: less_asym)
    then show ?thesis using Suc Cons.IH [of j] Cons.prems by simp
  qed
qed simp

lemma matching_sorted:
  "distinct (map r_id (d_registries s)) \<Longrightarrow> sorted_wrt (<) (map list_key (matching q ast s))"
proof -
  assume "distinct (map r_id (d_registries s))"
  then have "distinct (map r_id (filter P (d_registries s)))" for P by (simp add: distinct_map_filter)
  then have "distinct (map list_key (filter P (d_registries s)))" for P
    by (simp add: distinct_map inj_on_def list_key_def)
  then have "distinct (map list_key (matching q ast s))"
    unfolding matching_def by (metis distinct_map distinct_sort set_sort)
  then show ?thesis by (simp add: strict_sorted_iff matching_def)
qed

lemma matching_after:
  assumes "distinct (map r_id (d_registries s))" "i < length (matching q ast s)" "listable L (matching q ast s ! i)"
  defines "r \<equiv> matching q ast s ! i"
  shows "sort_key list_key (filter (\<lambda>x. list_all (meets x) (list_conditions q ast @ [After (r_created_at r) (r_id r)])) (d_registries s))
    = drop (Suc i) (matching q ast s)"
proof -
  have "meets x (After (r_created_at r) (r_id r)) \<longleftrightarrow> list_key r < list_key x" for x
    using assms(3) unfolding r_def by (simp add: listable_def list_key_def [of "matching q ast s ! i"])
  then have "sort_key list_key (filter (\<lambda>x. list_all (meets x) (list_conditions q ast @ [After (r_created_at r) (r_id r)])) (d_registries s))
    = filter (\<lambda>x. list_key r < list_key x) (matching q ast s)"
    unfolding matching_def filter_sort filter_filter by (intro arg_cong [of _ _ "sort_key list_key"] filter_cong) auto
  also have "\<dots> = drop (Suc i) (matching q ast s)"
    unfolding r_def by (rule filter_after [OF matching_sorted [OF assms(1)] assms(2)])
  finally show ?thesis .
qed

lemma cut_page_at:
  assumes "1 \<le> n"
  shows "cut_page L (int n) (take (Suc n) (drop i xs)) =
    (take n (drop i xs), if i + n < length xs then list_tok L xs (i + n) else [])"
proof (cases "i + n < length xs")
  case True
  then have "int (length (take (Suc n) (drop i xs))) > int n" by simp
  moreover have "take (Suc n) (drop i xs) ! nat (int n - 1) = xs ! (i + n - 1)"
    using True assms by (simp add: nat_diff_distrib)
  ultimately show ?thesis using True assms by (simp add: cut_page_def list_tok_def Let_def)
next
  case False
  then have "\<not> int (length (take (Suc n) (drop i xs))) > int n" by simp
  moreover have "take (Suc n) (drop i xs) = take n (drop i xs)" using False by simp
  ultimately show ?thesis using False by (simp add: cut_page_def)
qed

lemma list_page_at:
  assumes ok: "list_ok L q ast s xs n" and i: "i \<le> length xs" "i = 0 \<or> i < length xs"
  shows "list_page L q s n (list_tok L xs i) =
      Inr (take n (drop i xs), if i + n < length xs then list_tok L xs (i + n) else [])"
proof -
  let ?q = "\<lambda>t. q\<lparr>lq_PageSize := int n, lq_PageToken := t\<rparr>"
  from ok have s: "d_pool s" "d_faults s = []" and p: "ll_ParseFilter L (lq_Filter q) [''name''] = Inr ast"
    and xs: "xs = matching q ast s" and n: "1 \<le> n" "n < 2 ^ 63 - 1" and d: "distinct (map r_id (d_registries s))"
    and l: "list_all (listable L) (d_registries s)" by (simp_all add: list_ok_def quiet_def)
  have c: "list_conditions (?q t) ast = list_conditions q ast" for t by (simp add: list_conditions_def)
  have qs: "lq_PageSize (?q t) = int n" "lq_PageToken (?q t) = t" "lq_Filter (?q t) = lq_Filter q" for t by simp_all
  have a: "add64 (int n) 1 = int n + 1" using n by (simp add: add64_def)
  have listed: "listable L x" if "x \<in> set xs" for x using that l by (auto simp: xs matching_def list_all_iff)
  define cursor where "cursor = (if i = 0 then [] else [After (r_created_at (xs ! (i - 1))) (r_id (xs ! (i - 1)))])"
  have tok: "(if list_tok L xs i \<noteq> [] then map_sum id (\<lambda>c. [After (pc_CreatedAt c) (pc_ID c)]) (decodePageToken L (list_tok L xs i))
      else Inr []) = (Inr cursor :: string + condition list)"
  proof (cases "i = 0")
    case False
    with i listed [of "xs ! (i - 1)"] obtain w where "MarshalTime (ll_zone L) (r_created_at (xs ! (i - 1))) = Some w"
        "valid_utf8 (r_id (xs ! (i - 1)))" "r_id (xs ! (i - 1)) \<noteq> []" by (auto simp: listable_def)
    from cursor_roundtrip [OF this] False show ?thesis by (simp add: list_tok_def cursor_def)
  qed (simp add: list_tok_def cursor_def)
  have rows: "sort_key list_key (filter (\<lambda>r. list_all (meets r) (list_conditions q ast @ cursor)) (d_registries s)) = drop i xs"
  proof (cases i)
    case 0
    then show ?thesis by (simp add: cursor_def xs matching_def)
  next
    case (Suc j)
    with i listed [of "xs ! j"] matching_after [OF d, of j q ast L] show ?thesis by (simp add: cursor_def xs)
  qed
  have t: "nat (int n + 1) = Suc n" by simp
  have "repo_List L (?q (list_tok L xs i)) = ready (andThen (wrapped (\<lambda>e. wrapPgErr e ''Registry'' [])
        (trip (sql_list_registries (list_conditions q ast @ cursor) (int n + 1)))) (\<lambda>out. State_Monad.return (Inr (cut_page L (int n) out))))"
    unfolding repo_List_def Let_def qs p sum.case tok c using n by (simp add: a)
  then show ?thesis
    unfolding list_page_def using s n
    by (simp add: run ready_def wrapped_def trip_def sql_list_registries_def rows t cut_page_at del: list_all_append)
qed

interpretation registry_paging: paging "\<lambda>_ n t. list_page L q s n t" "list_tok L" "list_ok L q ast s" for L q ast s
proof unfold_locales
  fix xs :: "registry list" and n i
  assume ok: "list_ok L q ast s xs n" and i: "0 < i" "i < length xs"
  have "xs ! (i - 1) \<in> set xs" by (rule nth_mem) (use i in simp)
  moreover have "set xs \<subseteq> set (d_registries s)" using ok by (auto simp: list_ok_def matching_def)
  ultimately have "listable L (xs ! (i - 1))" using ok by (auto simp: list_ok_def list_all_iff)
  with i cursor_roundtrip(2) show "list_tok L xs i \<noteq> []" by (auto simp: list_tok_def listable_def)
qed (simp add: list_ok_def, simp add: list_tok_def, erule (2) list_page_at)

text \<open>
  C33. Listing registries ends and is complete: on a database at rest, a client that asks for the
  first page and follows the cursors, with any page size the service allows, is answered every time,
  gets its last page after no more pages than there are registries plus one, and then holds exactly the registries
  of the project and the name it asked for, each once, oldest first and by id within one
  microsecond. The opaque cursor, base64 of JSON with an RFC 3339 time, loses nothing on the way.
\<close>

theorem list_walk_is_complete:
  assumes "quiet s" and "ll_ParseFilter L (lq_Filter q) [''name''] = Inr ast" and "1 \<le> n" "n \<le> 1000"
    and "distinct (map r_id (d_registries s))" and "list_all (listable L) (d_registries s)"
  shows "\<exists>all. walk (Suc (length (d_registries s))) (list_page L q s n) [] = Some all \<and> distinct all \<and>
    sorted_wrt (\<lambda>a b. r_created_at a < r_created_at b \<or> r_created_at a = r_created_at b \<and> r_id a < r_id b) all \<and>
    set all = {r \<in> set (d_registries s). (lq_ProjectID q \<noteq> [] \<longrightarrow> r_project_id r = lq_ProjectID q) \<and>
      (case ast of None \<Rightarrow> True | Some a \<Rightarrow> r_name r = ast_Value a)}"
proof -
  let ?xs = "matching q ast s"
  have ok: "list_ok L q ast s ?xs n" using assms by (simp add: list_ok_def)
  have len: "length ?xs - 0 < Suc (length (d_registries s))" by (simp add: matching_def less_Suc_eq_le)
  have w: "walk (Suc (length (d_registries s))) (list_page L q s n) [] = Some ?xs"
    using registry_paging.walk_from [OF ok _ _ len] by (simp add: list_tok_def)
  have "sorted_wrt (\<lambda>a b. list_key a < list_key b) ?xs"
    using matching_sorted [OF assms(5), of q ast] by (simp add: sorted_wrt_map)
  then have "sorted_wrt (\<lambda>a b. r_created_at a < r_created_at b \<or> r_created_at a = r_created_at b \<and> r_id a < r_id b) ?xs"
    by (rule sorted_wrt_mono_rel [rotated]) (auto simp: list_key_def)
  moreover have "distinct ?xs" using assms(5) by (auto simp: matching_def distinct_map)
  moreover have "set ?xs = {r \<in> set (d_registries s). (lq_ProjectID q \<noteq> [] \<longrightarrow> r_project_id r = lq_ProjectID q) \<and>
      (case ast of None \<Rightarrow> True | Some a \<Rightarrow> r_name r = ast_Value a)}"
    by (auto simp: matching_def list_conditions_def split: option.splits)
  ultimately show ?thesis using w by blast
qed

text \<open>Three registries, a host half an hour east of Greenwich, pages of two.\<close>

definition demo_lib :: list_lib where
  "demo_lib = \<lparr>ll_ParseFilter = (\<lambda>f _. if f = [] then Inr None else Inl ''unexpected''), ll_zone = (\<lambda>_. 30),
     ll_lenient = (\<lambda>_. None), ll_error = (\<lambda>_. ''malformed'')\<rparr>"

definition demo_row :: "string \<Rightarrow> string \<Rightarrow> time \<Rightarrow> registry" where
  "demo_row i p t = demo_registry\<lparr>r_id := i, r_project_id := p, r_created_at := t\<rparr>"

definition demo_rows :: db where
  "demo_rows = \<lparr>d_registries = [demo_row ''reg3'' ''prj1'' 7000, demo_row ''reg2'' ''prj2'' 5000, demo_row ''reg1'' ''prj1'' 7000,
       demo_row ''reg4'' ''prj1'' 2000], d_configs = [], d_outbox = [], d_seq = 1, d_pending_blobs = [], d_push_grants = [],
     d_now = 9000, d_clock = 9000, d_faults = [], d_pool = True\<rparr>"

definition demo_query :: list_query where
  "demo_query = \<lparr>lq_ProjectID = ''prj1'', lq_PageSize = 0, lq_PageToken = [], lq_Filter = []\<rparr>"

lemma list_walk_is_complete_witness:
  "\<exists>all. walk 5 (list_page demo_lib demo_query demo_rows 2) [] = Some all \<and> map r_id all = [''reg4'', ''reg1'', ''reg3'']"
proof -
  have "quiet demo_rows" "ll_ParseFilter demo_lib (lq_Filter demo_query) [''name''] = Inr None"
    "distinct (map r_id (d_registries demo_rows))" "length (d_registries demo_rows) = 4" by code_simp+
  moreover have "list_all (listable demo_lib) (d_registries demo_rows)" by code_simp
  moreover have "(1::nat) \<le> 2" "(2::nat) \<le> 1000" by simp_all
  ultimately obtain all where w: "walk (Suc 4) (list_page demo_lib demo_query demo_rows 2) [] = Some all"
    using list_walk_is_complete [of demo_rows demo_lib demo_query None 2] by metis
  moreover have "map_option (map r_id) (walk 5 (list_page demo_lib demo_query demo_rows 2) []) = Some [''reg4'', ''reg1'', ''reg3'']"
    by code_simp
  ultimately show ?thesis by simp
qed

end
