(* ===== verification/PgRows.thy ===== *)
theory PgRows
  imports Payload
begin

text \<open>
  The rows of the two entity tables as the server hands them out, and their way back into the
  entities: \<open>scanRegistry\<close> of \<open>internal/repo/kacho/pg/registry.go\<close> and \<open>scanConfig\<close> of
  \<open>repository_config.go\<close>. \<open>PgStore\<close> keeps entities in its tables; the lemmas here show that this
  loses nothing: reading the columns that an entity is written to gives the entity back.
\<close>

section \<open>Columns\<close>

text \<open>\<open>registryColumns\<close> and \<open>configColumns\<close>; none of them may be null.\<close>

record registry_row =
  rr_id :: string
  rr_project_id :: string
  rr_name :: string
  rr_description :: string
  rr_labels :: string
  rr_status :: string
  rr_created_at :: time
  rr_default_visibility :: string

record config_row =
  cr_registry_id :: string
  cr_name :: string
  cr_description :: string
  cr_labels :: string
  cr_visibility :: string
  cr_created_at :: time

section \<open>Scanning\<close>

text \<open>\<open>row.Scan\<close> fails with the error of the query. The text of the decoder's error is a parameter.\<close>

definition scanRegistry :: "(string \<Rightarrow> string) \<Rightarrow> pg_error + registry_row \<Rightarrow> pg_error + registry" where
  "scanRegistry err row = (case row of
       Inl e \<Rightarrow> Inl e
     | Inr c \<Rightarrow> (case unmarshalLabels (rr_labels c) of
           None \<Rightarrow> Inl (OtherErr (err (rr_labels c)))
         | Some labels \<Rightarrow> Inr \<lparr>r_id = rr_id c, r_project_id = rr_project_id c, r_name = rr_name c,
             r_description = rr_description c, r_labels = labels, r_status = statusFromString (rr_status c),
             r_created_at = rr_created_at c, r_default_visibility = visibility_from_string (rr_default_visibility c)\<rparr>))"

definition scanConfig :: "(string \<Rightarrow> string) \<Rightarrow> pg_error + config_row \<Rightarrow> pg_error + repo_config" where
  "scanConfig err row = (case row of
       Inl e \<Rightarrow> Inl e
     | Inr c \<Rightarrow> (case unmarshalLabels (cr_labels c) of
           None \<Rightarrow> Inl (OtherErr (err (cr_labels c)))
         | Some labels \<Rightarrow> Inr \<lparr>c_registry_id = cr_registry_id c, c_name = cr_name c,
             c_description = cr_description c, c_labels = labels,
             c_visibility = visibility_from_string (cr_visibility c), c_created_at = cr_created_at c\<rparr>))"

section \<open>Writing and reading back\<close>

text \<open>A \<open>jsonb\<close> column keeps the value of the document it was given, not its spelling.\<close>

definition stored_labels :: "string \<Rightarrow> string \<Rightarrow> bool" where
  "stored_labels written text \<longleftrightarrow> (case (json_parse written, json_parse text) of
       (Some j, Some j') \<Rightarrow> same_json j j'
     | _ \<Rightarrow> False)"

text \<open>What a statement of the program writes for an entity, and what a row that holds it may show.\<close>

definition holds_registry :: "registry_row \<Rightarrow> registry \<Rightarrow> bool" where
  "holds_registry c r \<longleftrightarrow> rr_id c = r_id r \<and> rr_project_id c = r_project_id r \<and> rr_name c = r_name r \<and>
     rr_description c = r_description r \<and> stored_labels (marshalLabels (r_labels r)) (rr_labels c) \<and>
     rr_status c = statusString (r_status r) \<and> rr_created_at c = r_created_at r \<and>
     rr_default_visibility c = visibility_string (r_default_visibility r)"

definition holds_config :: "config_row \<Rightarrow> repo_config \<Rightarrow> bool" where
  "holds_config c r \<longleftrightarrow> cr_registry_id c = c_registry_id r \<and> cr_name c = c_name r \<and>
     cr_description c = c_description r \<and> stored_labels (marshalLabels (c_labels r)) (cr_labels c) \<and>
     cr_visibility c = visibility_string (c_visibility r) \<and> cr_created_at c = c_created_at r"

definition json_labels :: "labels \<Rightarrow> bool" where
  "json_labels ls \<longleftrightarrow> utf8_labels ls \<and> distinct (map fst ls)"

lemma stored_labels_read:
  assumes "json_labels ls" "stored_labels (marshalLabels ls) text"
  shows "\<exists>r. unmarshalLabels text = Some r \<and> map_of r = map_of ls"
proof -
  have u: "utf8_labels ls" "distinct (map fst ls)" using assms(1) by (simp_all add: json_labels_def)
  have "marshalLabels ls = json_print (labels_json ls)" by (simp add: marshalLabels_def labels_json_def)
  moreover have "json_parse (json_print (labels_json ls)) = Some (labels_json ls)"
    by (rule json_parse_print) (unfold nesting, rule plain_labels [OF u(1)])
  ultimately obtain j where j: "json_parse text = Some j" "same_json (labels_json ls) j"
    using assms(2) by (auto simp: stored_labels_def split: option.splits)
  then have "text \<noteq> []" by (auto simp: json_parse_def skip_ws_def)
  then show ?thesis using decode_same_labels [OF j(2) u(2,1)] j(1) by (simp add: unmarshalLabels_def)
qed

text \<open>The enumerations: the codes of the table are those of the entity, and everything else the
  entity might hold is written as one of them.\<close>

lemma status_reads_back: "s \<in> {RegistryStatusActive, RegistryStatusDeleting} \<Longrightarrow> statusFromString (statusString s) = s"
  by (auto simp: statusFromString_def statusString_def RegistryStatusActive_def RegistryStatusDeleting_def)

lemma visibility_reads_back: "visibility_validate v = None \<Longrightarrow> visibility_from_string (visibility_string v) = v"
  by (auto simp: visibility_from_string_def visibility_string_def visibility_validate_def split: if_splits)

lemma statusString_range: "statusString s \<in> {''ACTIVE'', ''DELETING''}"
  by (simp add: statusString_def)

lemma visibility_string_range: "visibility_string v \<in> {''PRIVATE'', ''PUBLIC''}"
  by (simp add: visibility_string_def)

text \<open>A row that holds a registry is scanned into it; unset enumerations come back as the default, which
  is what the statements of \<open>PgStore\<close> put into their tables.\<close>

lemma registry_row_reads_back:
  assumes "json_labels (r_labels r)" "holds_registry c r"
  shows "\<exists>ls. scanRegistry err (Inr c) = Inr (r\<lparr>r_labels := ls, r_status := statusFromString (statusString (r_status r)),
      r_default_visibility := visibility_from_string (visibility_string (r_default_visibility r))\<rparr>) \<and>
    map_of ls = map_of (r_labels r)"
  using stored_labels_read [OF assms(1), of "rr_labels c"] assms(2)
  by (cases r) (auto simp: scanRegistry_def holds_registry_def)

lemma config_row_reads_back:
  assumes "json_labels (c_labels r)" "holds_config c r"
  shows "\<exists>ls. scanConfig err (Inr c) = Inr (r\<lparr>c_labels := ls,
      c_visibility := visibility_from_string (visibility_string (c_visibility r))\<rparr>) \<and> map_of ls = map_of (c_labels r)"
  using stored_labels_read [OF assms(1), of "cr_labels c"] assms(2)
  by (cases r) (auto simp: scanConfig_def holds_config_def)

text \<open>A broken document never shows its decoder's text to a caller.\<close>

lemma broken_labels_are_internal:
  "unmarshalLabels (rr_labels c) = None \<Longrightarrow> map_err (\<lambda>e. wrapPgErr e res i) (scanRegistry err (Inr c)) = Inl (bare ErrInternal)"
  "unmarshalLabels (cr_labels d) = None \<Longrightarrow> map_err mapConfigErr (scanConfig err (Inr d)) = Inl (bare ErrInternal)"
  by (simp_all add: scanRegistry_def scanConfig_def wrapPgErr_def mapConfigErr_def map_err_def)

end
