(* ===== verification/HandlerTypes.thy ===== *)
theory HandlerTypes
  imports Handlers
begin

text \<open>
  A type discipline for errors. Inside the program an error is a wrapped sentinel, a status of some
  library or a plain Go error; what leaves the program, as the answer to a call or as the error of
  a finished operation, is always a gRPC status with a code of its own.
\<close>

definition is_status :: "gerror \<Rightarrow> bool" where
  "is_status e \<longleftrightarrow> (\<exists>c m. e = GStatus c m \<and> c \<noteq> Unknown)"

definition typed :: "('s, gerror + 'a) state \<Rightarrow> bool" where
  "typed m \<longleftrightarrow> (\<forall>s e t. run_state m s = (Inl e, t) \<longrightarrow> is_status e)"

lemma status_GStatus [simp]: "is_status (GStatus c m) \<longleftrightarrow> c \<noteq> Unknown"
  by (simp add: is_status_def)

lemma status_toStatus [simp]: "is_status (toStatus e)"
  using toStatus_shape [of e] by (simp add: is_status_def)

lemma status_mapErr [simp]: "is_status (mapErr e)" "is_status (mapRepoErr e)"
  by (simp_all add: mapErr_def mapRepoErr_def)

lemma status_fixed [simp]: "is_status errHideExistence" "is_status errRepoHideExistence" "is_status errAuthzUnavailable"
  by (simp_all add: errHideExistence_def errRepoHideExistence_def errAuthzUnavailable_def)

section \<open>The rules\<close>

lemma typed_Inr: "typed (State_Monad.return (Inr a))"
  by (simp add: typed_def run)

lemma typed_Inl: "is_status e \<Longrightarrow> typed (State_Monad.return (Inl e))"
  by (simp add: typed_def run)

lemma typed_andThen: "typed m \<Longrightarrow> (\<And>a. typed (f a)) \<Longrightarrow> typed (andThen m f)"
  by (auto simp: typed_def run split: prod.splits sum.splits)

lemma typed_bind: "(\<And>a. typed (f a)) \<Longrightarrow> typed (State_Monad.bind m f)"
  by (auto simp: typed_def run split: prod.splits)

lemma typed_if: "typed m \<Longrightarrow> typed k \<Longrightarrow> typed (if b then m else k)"
  by simp

lemma typed_answered: "typed (answered f m)"
  by (auto simp: typed_def answered_def run split: prod.splits sum.splits)

lemma typed_mapped: "typed (mapped m)"
  by (auto simp: typed_def mapped_def run map_err_def split: prod.splits sum.splits)

lemma typed_guard: "(\<And>e. v = Some e \<Longrightarrow> is_status e) \<Longrightarrow> typed (guard_ok v)"
  by (cases v) (auto simp: typed_def guard_ok_def run)

lemma typed_valid_registry: "typed (guard_ok (valid_registry h i))"
  by (rule typed_guard) (auto simp: valid_registry_def)

lemma typed_required: "typed (guard_ok (required_field name v))"
  by (rule typed_guard) (auto simp: required_field_def split: if_splits)

lemma typed_gated: "is_status denied \<Longrightarrow> typed (gated a pr rel ob denied)"
  by (auto simp: typed_def gated_def run split: prod.splits sum.splits if_splits)

lemma typed_gates: "typed (namespaceGate a pr reg)" "typed (checkRepo a pr reg repo rel)" "typed (checkRepository a pr reg repo rel)"
    "typed (registryGate a pr reg rel)" "typed (requireRegistryAdmin a pr reg msg)"
  by (simp_all add: namespaceGate_def checkRepo_def checkRepository_def registryGate_def requireRegistryAdmin_def typed_gated)

lemma typed_filter_rows: "typed (filter_rows a pr f rows)"
  by (auto simp: typed_def filter_rows_def run split: option.splits prod.splits sum.splits)

lemma typed_filters: "typed (filterRegistries a pr regs)" "typed (filterRepos a pr reg repos)" "typed (filterOperations a pr reg ops)"
  by (simp_all add: filterRegistries_def filterRepos_def filterOperations_def typed_filter_rows)

lemma typed_on_env: "typed m \<Longrightarrow> typed (on_env m)"
  by (auto simp: typed_def on_env_def split: prod.splits)

lemma typed_overlay_of: "typed (overlay_of reg name)"
  by (auto simp: typed_def overlay_of_def run split: prod.splits sum.splits if_splits)

lemma typed_done_if_absent: "typed m \<Longrightarrow> typed (done_if_absent r m)"
  by (auto simp: done_if_absent_def intro: typed_Inr typed_Inl split: sum.splits)

lemmas typed_rules = typed_Inr typed_andThen typed_answered typed_mapped typed_valid_registry typed_required
  typed_gates typed_filters typed_on_env typed_if

section \<open>The calls\<close>

lemma typed_reads:
  "typed (h_Get h i)" "typed (h_List h pr q)" "typed (h_ListRepositories h pr rq)" "typed (h_ListTags h pr tq)"
  "typed (h_ListOperations h pr oq)" "typed (h_GetRepository h pr i name)" "typed (h_ListReferrers h pr fq)"
  "typed (h_GetRegistryStats u i)"
  unfolding h_Get_def h_List_def h_ListRepositories_def h_ListTags_def h_ListOperations_def h_GetRepository_def
    h_ListReferrers_def h_GetRegistryStats_def
  by (intro typed_rules)+

lemma typed_mutations:
  "typed (h_Create h pr c)" "typed (h_Update h pr up)" "typed (h_Delete h pr i)" "typed (h_DeleteTag h pr i name tag)"
  "typed (h_CreateRepository h pr cr)" "typed (h_UpdateRepository h pr ur)" "typed (h_DeleteRepository h pr i name)"
  "typed (h_RenameRepository h pr i name new)" "typed (h_TriggerGarbageCollection u pr i)"
  unfolding h_Create_def h_Update_def h_Delete_def h_DeleteTag_def h_CreateRepository_def h_UpdateRepository_def
    h_DeleteRepository_def h_RenameRepository_def h_TriggerGarbageCollection_def
  by (intro typed_rules)+

lemma typed_operations: "typed (oh_Get oh pr i)" "typed (oh_Cancel oh pr i)"
  by (auto simp: typed_def oh_Get_def oh_Cancel_def operation_get_error_def operation_cancel_error_def run
      split: prod.splits sum.splits operations_error.splits if_splits)

section \<open>The workers\<close>

lemma typed_durable: "typed (unregisterRepoIfEmpty u reg repo)" "typed (assertTargetFree u reg repo)"
proof -
  show "typed (unregisterRepoIfEmpty u reg repo)" unfolding unregisterRepoIfEmpty_def by (intro typed_rules)
  have "typed (State_Monad.return (case proj of Some p \<Rightarrow> if p_tag_count p > 0 then Inl (failAlreadyExists ''repository already exists'')
      else Inr () | None \<Rightarrow> Inr ()))" for proj :: "repository option"
    by (cases proj) (auto simp: typed_def run)
  then show "typed (assertTargetFree u reg repo)"
    unfolding assertTargetFree_def by (intro typed_andThen typed_overlay_of typed_mapped typed_if typed_Inl) simp_all
qed

lemma typed_applyRepoUpdate: "typed (applyRepoUpdate u spec pr)"
  unfolding applyRepoUpdate_def Let_def
  by (intro typed_bind)
    (auto intro!: typed_Inr typed_Inl typed_andThen typed_bind typed_mapped split: sum.splits)

lemma typed_doRename: "typed (doRename u reg name new pr)"
  unfolding doRename_def Let_def
  by (intro typed_andThen typed_overlay_of typed_durable typed_mapped typed_bind)
    (auto intro!: typed_Inr typed_Inl typed_andThen typed_mapped split: sum.splits)

lemma typed_guard_fail: "typed (guard_ok (if b then None else Some (failFailedPrecondition m)))"
  by (rule typed_guard) (auto split: if_splits)

lemma typed_workers:
  "typed (doUpdate u spec)" "typed (doDelete u reg)" "typed (doDeleteTag u reg repo tag)" "typed (doTriggerGC u reg)"
  "typed (finishCreateRepository u cspec row)" "typed (doUpdateRepository u cu pr)" "typed (doDeleteRepository u reg name)"
  "typed (doRenameRepository u reg name new pr)"
  unfolding doUpdate_def doDeleteTag_def doTriggerGC_def finishCreateRepository_def doUpdateRepository_def
    doDeleteRepository_def doRenameRepository_def doDelete_def
  by (intro typed_andThen typed_mapped typed_Inr typed_durable typed_applyRepoUpdate typed_doRename typed_guard_fail
      typed_bind typed_done_if_absent |
    auto intro!: typed_Inr typed_Inl typed_andThen typed_mapped typed_bind typed_guard_fail typed_done_if_absent split: sum.splits)+

text \<open>The jobs that requests start carry statuses.\<close>

fun job_typed :: "job \<Rightarrow> bool" where
  "job_typed (JReturn (Inl e)) \<longleftrightarrow> is_status e"
| "job_typed _ \<longleftrightarrow> True"

lemma typed_run_job: "job_typed j \<Longrightarrow> typed (run_job u j)"
  by (cases j; cases "case j of JReturn r \<Rightarrow> r | _ \<Rightarrow> Inr AnyEmpty")
    (auto simp: typed_workers typed_Inr typed_Inl split: job.splits)

definition typed_world :: "'x world \<Rightarrow> bool" where
  "typed_world w \<longleftrightarrow> (\<forall>i j. (i, j) \<in> set (w_jobs w) \<longrightarrow> job_typed j) \<and> (\<forall>i e. (i, Inl e) \<in> set (w_done w) \<longrightarrow> is_status e)"

definition keeps_typed :: "'x world \<Rightarrow> 'x world \<Rightarrow> bool" where
  "keeps_typed w v \<longleftrightarrow> (typed_world w \<longrightarrow> typed_world v)"

interpretation typing: guaranteed keeps_typed
  by unfold_locales (auto simp: keeps_typed_def)

lemma k_on_env: "guar keeps_typed (on_env m)"
  by (rule guarI) (auto simp: keeps_typed_def typed_world_def on_env_def split: prod.splits)

lemma k_Run: "job_typed j \<Longrightarrow> guar keeps_typed (Run i j)"
  by (rule guarI) (auto simp: keeps_typed_def typed_world_def Run_def run)

lemma k_guard: "guar keeps_typed (guard_ok v)"
  unfolding guard_ok_def by (rule typing.g_return)

lemma k_opened: "guar keeps_typed (State_Monad.update (\<lambda>w. w\<lparr>w_opened := f (w_opened w)\<rparr>))"
  by (rule guarI) (auto simp: keeps_typed_def typed_world_def run)

lemma k_open: "guar keeps_typed (openOperation u pr d meta)"
  unfolding openOperation_def by (intro typing.g_andThen typing.g_bind k_on_env k_opened typing.g_return)

lemma k_submit: "job_typed j \<Longrightarrow> guar keeps_typed (submit u pr d meta j)"
  unfolding submit_def by (intro typing.g_andThen typing.g_bind k_open k_Run typing.g_return)

lemma job_typed_sync [simp]: "is_status e \<Longrightarrow> job_typed (JReturn (Inl e))" "job_typed (JReturn (Inr a))"
  by simp_all

lemma k_handle: "guar keeps_typed (handle u pr r)"
proof (cases r)
  case (RCreate spec)
  then show ?thesis
    by (auto simp: Create_def Let_def intro!: typing.g_andThen typing.g_bind k_on_env k_open k_Run k_guard typing.g_return split: sum.splits)
next
  case (RCreateRepository spec)
  then show ?thesis
    by (auto simp: CreateRepository_def Let_def intro!: typing.g_andThen typing.g_bind k_on_env k_open k_Run k_guard typing.g_return split: sum.splits)
qed (auto simp: Update_def Delete_def DeleteTag_def TriggerGC_def UpdateRepository_def DeleteRepository_def RenameRepository_def
  intro!: typing.g_andThen k_on_env k_guard typing.g_return k_submit)

lemma typed_step: "sys_step rely u w v \<Longrightarrow> typed_world w \<Longrightarrow> typed_world v"
proof (erule sys_stepE)
  fix pr r res assume "run_state (handle u pr r) w = (res, v)" "typed_world w"
  then show ?thesis using guarD [OF k_handle] by (fastforce simp: keeps_typed_def)
next
  fix before i j after res e
  assume j: "w_jobs w = before @ (i, j) # after" and r: "run_state (run_job u j) (w_env w) = (res, e)" and w: "typed_world w"
    and v: "v = w\<lparr>w_env := e, w_jobs := before @ after, w_done := w_done w @ [(i, res)]\<rparr>"
  from j w have "job_typed j" by (auto simp: typed_world_def)
  with typed_run_job r have "is_status e" if "res = Inl e" for e using that by (fastforce simp: typed_def)
  with j w v show ?thesis by (auto simp: typed_world_def)
qed (auto simp: typed_world_def)

definition started :: "'x env \<Rightarrow> 'x world" where
  "started e = \<lparr>w_env = e, w_opened = [], w_jobs = [], w_done = []\<rparr>"

text \<open>The errors of the operations that finish in any run of the system.\<close>

definition finishes_typed :: "('x env \<Rightarrow> 'x env \<Rightarrow> bool) \<Rightarrow> 'x usecase \<Rightarrow> 'x env \<Rightarrow> bool" where
  "finishes_typed rely u e \<longleftrightarrow>
     (\<forall>w i err. reachable rely u (started e) w \<longrightarrow> (i, Inl err) \<in> set (w_done w) \<longrightarrow> is_status err)"

lemma all_finish_typed: "finishes_typed rely u e"
proof -
  have "typed_world w" if "reachable rely u (started e) w" for w
    using that
  proof (induction rule: reachable.induct)
    case start
    then show ?case by (simp add: typed_world_def started_def)
  qed (rule typed_step)
  then show ?thesis by (auto simp: finishes_typed_def typed_world_def)
qed

text \<open>
  C32. Every error that leaves the program is a gRPC status with a code of its own: whatever the
  database, the engine, iam, the authorizer or a library returned, each of the nineteen calls of the
  three services fails with a status, never with a sentinel, a plain Go error or code UNKNOWN; and
  in every state the system reaches, under any interleaving of requests, workers and peers, the
  errors stored with finished operations are statuses as well.
\<close>

theorem errors_leave_as_statuses:
  "typed (h_Get h i) \<and> typed (h_List h pr q) \<and> typed (h_ListRepositories h pr rq) \<and> typed (h_ListTags h pr tq) \<and>
   typed (h_ListOperations h pr oq) \<and> typed (h_GetRepository h pr i name) \<and> typed (h_ListReferrers h pr fq) \<and>
   typed (h_GetRegistryStats u i) \<and> typed (h_Create h pr c) \<and> typed (h_Update h pr up) \<and> typed (h_Delete h pr i) \<and>
   typed (h_DeleteTag h pr i name tag) \<and> typed (h_CreateRepository h pr cr) \<and> typed (h_UpdateRepository h pr ur) \<and>
   typed (h_DeleteRepository h pr i name) \<and> typed (h_RenameRepository h pr i name new) \<and>
   typed (h_TriggerGarbageCollection u pr i) \<and> typed (oh_Get oh pr i) \<and> typed (oh_Cancel oh pr i) \<and>
   finishes_typed rely u e"
  by (intro conjI typed_reads typed_mutations typed_operations all_finish_typed)

end
