(* ===== verification/Lifecycle.thy ===== *)
theory Lifecycle
  imports Startup
begin

text \<open>
  The life of the process after its wiring (the end of \<open>runServe\<close> in
  \<open>cmd/kacho-registry/serve.go\<close>) and the two entry points (\<open>main.go\<close>). The goroutines are the parts of
  one state and interleave freely: the public server in the main goroutine, the internal server, the
  data plane, the shutdown goroutine and the workers of operations. The servers of the libraries are
  what they document: a graceful stop closes the listener and returns when no call is in flight.
\<close>

section \<open>Listeners\<close>

text \<open>Both listeners are opened before anything is served; the first is closed when the second fails.\<close>

definition open_listeners :: "(string \<Rightarrow> startup_error + 'l) \<Rightarrow> string \<Rightarrow> string \<Rightarrow> startup_error + 'l \<times> 'l" where
  "open_listeners listen grpcPort internalPort =
     ok_then (listen ('':'' @ grpcPort)) (\<lambda>l. ok_then (listen ('':'' @ internalPort)) (\<lambda>i. Inr (l, i)))"

definition closed_listeners :: "(string \<Rightarrow> startup_error + 'l) \<Rightarrow> string \<Rightarrow> string \<Rightarrow> 'l list" where
  "closed_listeners listen grpcPort internalPort = (case listen ('':'' @ grpcPort) of
       Inl e \<Rightarrow> []
     | Inr l \<Rightarrow> (case listen ('':'' @ internalPort) of Inl e \<Rightarrow> [l] | Inr i \<Rightarrow> []))"

section \<open>Serving and shutting down\<close>

datatype main_pc = Serving | AwaitShutdown "startup_error option" | Returned "startup_error option"

datatype shutdown_pc = AwaitSignal | StopInternal | StopPublic | StopDataplane | DrainWorkers | ShutdownDone

record process =
  lf_main :: main_pc
  lf_shutdown :: shutdown_pc
  lf_cancelled :: bool
  lf_internal_open :: bool
  lf_public_open :: bool
  lf_dataplane_open :: bool
  lf_internal_calls :: nat
  lf_public_calls :: nat
  lf_requests :: nat
  lf_workers :: nat
  lf_cut :: bool
  lf_abandoned :: bool

definition launched :: "bool \<Rightarrow> process" where
  "launched dataplane = \<lparr>lf_main = Serving, lf_shutdown = AwaitSignal, lf_cancelled = False, lf_internal_open = True,
     lf_public_open = True, lf_dataplane_open = dataplane, lf_internal_calls = 0, lf_public_calls = 0, lf_requests = 0,
     lf_workers = 0, lf_cut = False, lf_abandoned = False\<rparr>"

text \<open>\<open>lf_cut\<close> and \<open>lf_abandoned\<close> record that one of the two bounded waits ran out of its 15 seconds.\<close>

inductive lf_step :: "bool \<Rightarrow> process \<Rightarrow> process \<Rightarrow> bool" for dataplane :: bool where
  signal: "lf_step dataplane s (s\<lparr>lf_cancelled := True\<rparr>)"
| internal_call: "lf_internal_open s \<Longrightarrow> lf_step dataplane s (s\<lparr>lf_internal_calls := Suc (lf_internal_calls s)\<rparr>)"
| internal_return: "lf_internal_calls s = Suc n \<Longrightarrow> lf_step dataplane s (s\<lparr>lf_internal_calls := n\<rparr>)"
| public_call: "lf_public_open s \<Longrightarrow> lf_step dataplane s (s\<lparr>lf_public_calls := Suc (lf_public_calls s)\<rparr>)"
| public_return: "lf_public_calls s = Suc n \<Longrightarrow> lf_step dataplane s (s\<lparr>lf_public_calls := n\<rparr>)"
| run_worker: "0 < lf_internal_calls s + lf_public_calls s \<Longrightarrow> lf_step dataplane s (s\<lparr>lf_workers := Suc (lf_workers s)\<rparr>)"
| worker_done: "lf_workers s = Suc n \<Longrightarrow> lf_step dataplane s (s\<lparr>lf_workers := n\<rparr>)"
| http_request: "lf_dataplane_open s \<Longrightarrow> lf_step dataplane s (s\<lparr>lf_requests := Suc (lf_requests s)\<rparr>)"
| http_response: "lf_requests s = Suc n \<Longrightarrow> lf_step dataplane s (s\<lparr>lf_requests := n\<rparr>)"
| internal_failed: "lf_step dataplane s (s\<lparr>lf_internal_open := False\<rparr>)"
| dataplane_failed: "lf_step dataplane s (s\<lparr>lf_dataplane_open := False\<rparr>)"
| public_failed: "lf_main s = Serving \<Longrightarrow>
    lf_step dataplane s (s\<lparr>lf_main := AwaitShutdown (Some e), lf_cancelled := True, lf_public_open := False\<rparr>)"
| stop_internal: "lf_shutdown s = AwaitSignal \<Longrightarrow> lf_cancelled s \<Longrightarrow>
    lf_step dataplane s (s\<lparr>lf_shutdown := StopInternal, lf_internal_open := False\<rparr>)"
| stop_public: "lf_shutdown s = StopInternal \<Longrightarrow> lf_internal_calls s = 0 \<Longrightarrow>
    lf_step dataplane s (s\<lparr>lf_shutdown := StopPublic, lf_public_open := False\<rparr>)"
| stop_dataplane: "lf_shutdown s = StopPublic \<Longrightarrow> lf_public_calls s = 0 \<Longrightarrow> dataplane \<Longrightarrow>
    lf_step dataplane s (s\<lparr>lf_shutdown := StopDataplane, lf_dataplane_open := False\<rparr>)"
| no_dataplane: "lf_shutdown s = StopPublic \<Longrightarrow> lf_public_calls s = 0 \<Longrightarrow> \<not> dataplane \<Longrightarrow>
    lf_step dataplane s (s\<lparr>lf_shutdown := DrainWorkers\<rparr>)"
| dataplane_stopped: "lf_shutdown s = StopDataplane \<Longrightarrow> lf_requests s = 0 \<Longrightarrow>
    lf_step dataplane s (s\<lparr>lf_shutdown := DrainWorkers\<rparr>)"
| dataplane_timeout: "lf_shutdown s = StopDataplane \<Longrightarrow>
    lf_step dataplane s (s\<lparr>lf_shutdown := DrainWorkers, lf_cut := True\<rparr>)"
| drained: "lf_shutdown s = DrainWorkers \<Longrightarrow> lf_workers s = 0 \<Longrightarrow>
    lf_step dataplane s (s\<lparr>lf_shutdown := ShutdownDone\<rparr>)"
| drain_timeout: "lf_shutdown s = DrainWorkers \<Longrightarrow>
    lf_step dataplane s (s\<lparr>lf_shutdown := ShutdownDone, lf_abandoned := True\<rparr>)"
| serve_returned: "lf_main s = Serving \<Longrightarrow> lf_shutdown s \<in> {StopDataplane, DrainWorkers, ShutdownDone} \<Longrightarrow>
    lf_step dataplane s (s\<lparr>lf_main := AwaitShutdown None, lf_cancelled := True\<rparr>)"
| main_returned: "lf_main s = AwaitShutdown e \<Longrightarrow> lf_shutdown s = ShutdownDone \<Longrightarrow>
    lf_step dataplane s (s\<lparr>lf_main := Returned e\<rparr>)"

inductive_cases lf_stepE: "lf_step dataplane s t"

abbreviation lf_run :: "bool \<Rightarrow> process \<Rightarrow> process \<Rightarrow> bool" where
  "lf_run dataplane \<equiv> (lf_step dataplane)\<^sup>*\<^sup>*"

section \<open>What a shutdown leaves behind\<close>

fun stage :: "shutdown_pc \<Rightarrow> nat" where
  "stage AwaitSignal = 0" | "stage StopInternal = 1" | "stage StopPublic = 2"
| "stage StopDataplane = 3" | "stage DrainWorkers = 4" | "stage ShutdownDone = 5"

definition orderly :: "bool \<Rightarrow> process \<Rightarrow> bool" where
  "orderly dataplane s \<longleftrightarrow> (let k = stage (lf_shutdown s) in
     (1 \<le> k \<longrightarrow> lf_cancelled s \<and> \<not> lf_internal_open s) \<and>
     (2 \<le> k \<longrightarrow> lf_internal_calls s = 0 \<and> \<not> lf_public_open s) \<and>
     (3 \<le> k \<longrightarrow> lf_public_calls s = 0 \<and> \<not> lf_dataplane_open s) \<and>
     (4 \<le> k \<longrightarrow> lf_requests s = 0 \<or> lf_cut s) \<and>
     (5 \<le> k \<longrightarrow> lf_workers s = 0 \<or> lf_abandoned s) \<and>
     (\<not> dataplane \<longrightarrow> \<not> lf_dataplane_open s \<and> lf_requests s = 0) \<and>
     (lf_main s \<noteq> Serving \<longrightarrow> lf_cancelled s) \<and>
     (\<forall>e. lf_main s = Returned e \<longrightarrow> lf_shutdown s = ShutdownDone))"

lemma orderly_launched: "orderly dataplane (launched dataplane)"
  by (simp add: orderly_def launched_def)

lemma orderly_step: "lf_step dataplane s t \<Longrightarrow> orderly dataplane s \<Longrightarrow> orderly dataplane t"
  by (erule lf_stepE) (auto simp: orderly_def Let_def)

lemma orderly_run: "lf_run dataplane s t \<Longrightarrow> orderly dataplane s \<Longrightarrow> orderly dataplane t"
  by (induction rule: rtranclp_induct) (auto intro: orderly_step)

text \<open>What is left to do, and that there is always a step that does some of it without cutting
  anything short.\<close>

definition left_to_do :: "process \<Rightarrow> nat" where
  "left_to_do s = lf_internal_calls s + lf_public_calls s + lf_requests s + lf_workers s + (5 - stage (lf_shutdown s)) +
     (case lf_main s of Serving \<Rightarrow> 2 | AwaitShutdown e \<Rightarrow> 1 | Returned e \<Rightarrow> 0)"

lemma some_progress:
  assumes "orderly dataplane s" "lf_cancelled s" "\<forall>e. lf_main s \<noteq> Returned e"
  shows "\<exists>t. lf_step dataplane s t \<and> left_to_do t < left_to_do s \<and> lf_cancelled t \<and> lf_cut t = lf_cut s \<and> lf_abandoned t = lf_abandoned s"
proof -
  have I: "\<exists>t. lf_step dataplane s t \<and> left_to_do t < left_to_do s \<and> lf_cancelled t \<and> lf_cut t = lf_cut s \<and> lf_abandoned t = lf_abandoned s"
    if "lf_step dataplane s t" "left_to_do t < left_to_do s" "lf_cancelled t" "lf_cut t = lf_cut s" "lf_abandoned t = lf_abandoned s" for t
    using that by blast
  show ?thesis
  proof (cases "lf_shutdown s")
    case AwaitSignal
    then show ?thesis using assms by (intro I [OF stop_internal]) (simp_all add: left_to_do_def)
  next
    case StopInternal
    then show ?thesis
    proof (cases "lf_internal_calls s")
      case 0
      with StopInternal assms show ?thesis by (intro I [OF stop_public]) (simp_all add: left_to_do_def)
    next
      case (Suc n)
      with assms show ?thesis by (intro I [OF internal_return [OF Suc]]) (simp_all add: left_to_do_def)
    qed
  next
    case StopPublic
    show ?thesis
    proof (cases "lf_public_calls s")
      case 0
      note stopped = this
      show ?thesis
      proof (cases dataplane)
        case True
        with stopped StopPublic assms show ?thesis by (intro I [OF stop_dataplane]) (simp_all add: left_to_do_def)
      next
        case False
        with stopped StopPublic assms show ?thesis by (intro I [OF no_dataplane]) (simp_all add: left_to_do_def)
      qed
    next
      case (Suc n)
      with assms show ?thesis by (intro I [OF public_return [OF Suc]]) (simp_all add: left_to_do_def)
    qed
  next
    case StopDataplane
    show ?thesis
    proof (cases "lf_requests s")
      case 0
      with StopDataplane assms show ?thesis by (intro I [OF dataplane_stopped]) (simp_all add: left_to_do_def)
    next
      case (Suc n)
      with assms show ?thesis by (intro I [OF http_response [OF Suc]]) (simp_all add: left_to_do_def)
    qed
  next
    case DrainWorkers
    show ?thesis
    proof (cases "lf_workers s")
      case 0
      with DrainWorkers assms show ?thesis by (intro I [OF drained]) (simp_all add: left_to_do_def)
    next
      case (Suc n)
      with assms show ?thesis by (intro I [OF worker_done [OF Suc]]) (simp_all add: left_to_do_def)
    qed
  next
    case ShutdownDone
    show ?thesis
    proof (cases "lf_main s")
      case Serving
      with ShutdownDone show ?thesis by (intro I [OF serve_returned]) (simp_all add: left_to_do_def)
    next
      case (AwaitShutdown e)
      with ShutdownDone assms show ?thesis by (intro I [OF main_returned]) (simp_all add: left_to_do_def)
    qed (use assms in auto)
  qed
qed

lemma can_return:
  "orderly dataplane s \<Longrightarrow> lf_cancelled s \<Longrightarrow>
   \<exists>t e. lf_run dataplane s t \<and> lf_main t = Returned e \<and> lf_cut t = lf_cut s \<and> lf_abandoned t = lf_abandoned s"
proof (induction "left_to_do s" arbitrary: s rule: less_induct)
  case less
  show ?case
  proof (cases "\<exists>e. lf_main s = Returned e")
    case False
    with some_progress less.prems obtain t where t: "lf_step dataplane s t" "left_to_do t < left_to_do s" "lf_cancelled t"
      "lf_cut t = lf_cut s" "lf_abandoned t = lf_abandoned s" by blast
    from less.hyps [OF t(2) orderly_step [OF t(1) less.prems(1)] t(3)] t
    show ?thesis by (metis converse_rtranclp_into_rtranclp)
  qed (use less in blast)
qed

text \<open>
  C35. A process that returns leaves nothing running: in every interleaving of signals, calls, workers,
  failures of the servers and the shutdown goroutine, when the main goroutine returns no call is in
  flight on either gRPC listener and none is accepted, every request of the data plane has been
  answered unless its bounded drain ran out, and no worker is still running unless the wait for
  workers ran out, after which no new one can start. And a process that was told to stop never gets
  stuck: from every state it reaches there is a way to return in which neither wait has to run out.
\<close>

theorem shutdown_drains:
  assumes "lf_run dataplane (launched dataplane) s"
  shows "(case lf_main s of Returned e \<Rightarrow> lf_internal_calls s = 0 \<and> lf_public_calls s = 0 \<and>
        \<not> lf_internal_open s \<and> \<not> lf_public_open s \<and> \<not> lf_dataplane_open s \<and>
        (lf_requests s = 0 \<or> lf_cut s) \<and> (lf_workers s = 0 \<or> lf_abandoned s)
      | _ \<Rightarrow> True) \<and>
    (lf_cancelled s \<longrightarrow> (\<exists>t e. lf_run dataplane s t \<and> lf_main t = Returned e \<and> lf_cut t = lf_cut s \<and> lf_abandoned t = lf_abandoned s))"
proof -
  have o: "orderly dataplane s" by (rule orderly_run [OF assms orderly_launched])
  then have "case lf_main s of Returned e \<Rightarrow> lf_internal_calls s = 0 \<and> lf_public_calls s = 0 \<and>
        \<not> lf_internal_open s \<and> \<not> lf_public_open s \<and> \<not> lf_dataplane_open s \<and>
        (lf_requests s = 0 \<or> lf_cut s) \<and> (lf_workers s = 0 \<or> lf_abandoned s)
      | _ \<Rightarrow> True" by (auto simp: orderly_def Let_def split: main_pc.split)
  with can_return [OF o] show ?thesis by blast
qed

lemma shutdown_drains_witness:
  "\<exists>t e. lf_run True (launched True\<lparr>lf_public_calls := 1, lf_cancelled := True\<rparr>) t \<and> lf_main t = Returned e \<and>
     \<not> lf_cut t \<and> \<not> lf_abandoned t"
proof -
  have "lf_step True (launched True) (launched True\<lparr>lf_public_calls := Suc (lf_public_calls (launched True))\<rparr>)"
    by (rule public_call) (simp add: launched_def)
  moreover have "lf_step True (launched True\<lparr>lf_public_calls := 1\<rparr>) (launched True\<lparr>lf_public_calls := 1\<rparr>\<lparr>lf_cancelled := True\<rparr>)"
    by (rule signal)
  ultimately have "lf_run True (launched True) (launched True\<lparr>lf_public_calls := 1, lf_cancelled := True\<rparr>)"
    by (simp add: launched_def converse_rtranclp_into_rtranclp)
  from conjunct2 [OF shutdown_drains [OF this]] show ?thesis by (simp add: launched_def)
qed

section \<open>Entry points\<close>

text \<open>How a process ends: \<open>log.Fatal\<close> with a text, or normally.\<close>

datatype 'e exit = FatalUsage string | FatalConfig 'e | FatalRun "startup_error" | FatalGoose string 'e | Normal

text \<open>\<open>kacho-registry\<close>; \<open>load\<close> reads the environment, \<open>serve\<close> is the run of the service.\<close>

definition registry_main :: "('e + 'tls config) \<Rightarrow> ('tls config \<Rightarrow> startup_error option) \<Rightarrow> string list \<Rightarrow> 'e exit" where
  "registry_main load serve args =
     (if length args < 2 then FatalUsage ''usage: kacho-registry {serve}''
      else case load of Inl e \<Rightarrow> FatalConfig e
      | Inr cfg \<Rightarrow>
          if args ! 1 = ''serve'' then (case serve cfg of Some e \<Rightarrow> FatalRun e | None \<Rightarrow> Normal)
          else FatalUsage (''unknown command: '' @ (args ! 1) @ '' (migrations: use the kacho-migrator binary)''))"

text \<open>\<open>kacho-migrator\<close>: the flag, then the variable, then the configuration.\<close>

definition resolveDSN :: "string \<Rightarrow> string \<Rightarrow> ('e + 'tls config) \<Rightarrow> 'e + string" where
  "resolveDSN flagDSN env load =
     (if flagDSN \<noteq> [] then Inr flagDSN else if env \<noteq> [] then Inr env
      else map_sum id MigrateDSN load)"

record 'e goose =
  go_SetDialect :: "'e option"
  go_Open :: "string \<Rightarrow> 'e option"
  go_Run :: "string \<Rightarrow> string \<Rightarrow> 'e option"

definition migrator_main :: "'e goose \<Rightarrow> string \<Rightarrow> string \<Rightarrow> ('e + 'tls config) \<Rightarrow> string list \<Rightarrow> 'e exit" where
  "migrator_main g flagDSN env load args =
     (if length args < 1 then FatalUsage ''usage: kacho-migrator [--dsn <dsn>] {up|down|status}''
      else case resolveDSN flagDSN env load of Inl e \<Rightarrow> FatalConfig e
      | Inr dsn \<Rightarrow> (case go_SetDialect g of Some e \<Rightarrow> FatalGoose ''goose dialect'' e
      | None \<Rightarrow> (case go_Open g dsn of Some e \<Rightarrow> FatalGoose ''open db'' e
      | None \<Rightarrow>
          if hd args \<in> {''up'', ''down'', ''status''}
          then (case go_Run g (hd args) dsn of Some e \<Rightarrow> FatalGoose (''migrate '' @ hd args) e | None \<Rightarrow> Normal)
          else FatalUsage (''unknown migrate direction: '' @ hd args @ '' (up|down|status)''))))"

text \<open>The migrator never opens a database without a connection string of one of its three sources, and
  without flag and variable it is the one of the service without the options for the pool and the statement timeout.\<close>

lemma resolveDSN_cases:
  "resolveDSN flagDSN env (load :: 'e + 'tls config) = Inr dsn \<longleftrightarrow>
     flagDSN \<noteq> [] \<and> dsn = flagDSN \<or> flagDSN = [] \<and> env \<noteq> [] \<and> dsn = env \<or>
     flagDSN = [] \<and> env = [] \<and> (\<exists>cfg. load = Inr cfg \<and> dsn = baseDSN cfg [])"
  by (cases load) (auto simp: resolveDSN_def MigrateDSN_def)

end
