(* ===== verification/UseCaseFindings.thy ===== *)
theory UseCaseFindings
  imports GrantGovernance
begin

text \<open>
  Runs of the use cases, on a small engine, in which the code does something other than what its
  comments promise: a durable repository on two pages of a list, fields that the mask does not name
  stored by a promotion, a rename that cannot be retried, and parent and public tuples that go too
  early or stay behind.
\<close>

section \<open>A repository on two pages\<close>

text \<open>An engine that lists one repository per page.\<close>

definition paged_zot :: "demo_ext zot_client" where
  "paged_zot = demo_zot\<lparr>z_ListRepositories := \<lambda>q. answer (\<lambda>x.
     if rq_PageToken q = [] then (map (demo_projection (rq_RegistryID q)) (take 1 (snd x)), ''next'')
     else (map (demo_projection (rq_RegistryID q)) (drop 1 (snd x)), []))\<rparr>"

definition page_query :: "string \<Rightarrow> repo_list_query" where
  "page_query token = \<lparr>rq_RegistryID = ''reg'', rq_PageSize = 1, rq_PageToken = token\<rparr>"

definition two_pages :: "(string list \<times> string) \<times> (string list \<times> string)" where
  "two_pages =
     (let u = fresh_usecase\<lparr>u_zot := paged_zot\<rparr>;
          e = (w_env (public_world u))\<lparr>e_ext := (5, [(''aaa'', 1), (''app'', 2)])\<rparr>;
          page = (\<lambda>t. case fst (run_state (ListRepositories u (page_query t)) e) of
            Inl x \<Rightarrow> ([], []) | Inr (rows, next) \<Rightarrow> (map p_name rows, next)) in
      (page [], page ''next''))"

text \<open>The overlay \<open>app\<close> is outside the first window and inside the second one: it is on both pages.\<close>

theorem durable_repository_is_listed_twice:
  "two_pages = (([''aaa'', ''app''], ''next''), ([''app''], []))"
  by code_simp

section \<open>Promotion\<close>

text \<open>The mask names the visibility alone; the description goes along.\<close>

definition promotion :: config_update where
  "promotion = \<lparr>cu_RegistryID = ''reg'', cu_Name = ''eph'', cu_Description = ''not in the mask'', cu_Labels = [],
     cu_Visibility = VisibilityPrivate, cu_ApplyDescription = False, cu_ApplyLabels = False, cu_ApplyVisibility = True\<rparr>"

theorem promotion_stores_unmasked_fields:
  "map (\<lambda>c. (c_name c, c_description c))
     (d_configs (e_db (snd (run_state (applyRepoUpdate fresh_usecase promotion demo_principal) (w_env (public_world fresh_usecase)))))) =
   [(''app'', []), (''eph'', ''not in the mask'')]"
  by code_simp

section \<open>A rename that cannot be retried\<close>

text \<open>An engine that copies one tag and then fails.\<close>

definition failing_zot :: "demo_ext zot_client" where
  "failing_zot = demo_zot\<lparr>z_RenameRepository := \<lambda>_ a b. State (\<lambda>e.
     (Inl (bare ErrUnavailable), e\<lparr>e_ext := (fst (e_ext e), (b, 1) # snd (e_ext e))\<rparr>))\<rparr>"

definition rename_attempts :: "demo_ext usecase \<Rightarrow> (gerror + any) list" where
  "rename_attempts u =
     (let e = (w_env (public_world u))\<lparr>e_ext := (5, [(''app'', 2)])\<rparr>;
          job = run_job u (JRenameRepository ''reg'' ''app'' ''web'' demo_principal);
          first = run_state job e;
          again = run_state job (snd first) in
      [fst first, fst again])"

theorem failed_rename_blocks_its_retry:
  "rename_attempts (fresh_usecase\<lparr>u_zot := failing_zot\<rparr>) =
     [Inl (mapRepoErr (bare ErrUnavailable)), Inl (failAlreadyExists ''repository already exists'')]"
  by code_simp

section \<open>Parent tuples\<close>

text \<open>The last tag of a durable repository is deleted: the overlay stays, its parent tuple goes.\<close>

definition last_tag_deleted :: db where
  "last_tag_deleted = e_db (snd (run_state (doDeleteTag fresh_usecase ''reg'' ''app'' ''v1'')
     ((w_env (public_world fresh_usecase))\<lparr>e_ext := (5, [(''app'', 1)])\<rparr>)))"

theorem durable_repository_loses_its_parent:
  "FGARepoParentTuple ''reg'' ''app'' \<in> granted (d_outbox (e_db (w_env (public_world fresh_usecase)))) \<and>
   FGARepoParentTuple ''reg'' ''app'' \<notin> granted (d_outbox last_tag_deleted) \<and>
   map c_name (d_configs last_tag_deleted) = [''app'']"
  by (intro conjI) code_simp+

text \<open>A registry with a public repository without tags is deleted: the overlay is gone with it, and
  the tuples of the repository stay.\<close>

definition registry_deleted :: db where
  "registry_deleted = e_db (snd (run_state (doDelete fresh_usecase ''reg'') (w_env (public_world fresh_usecase))))"

theorem cascade_leaves_tuples:
  "d_registries registry_deleted = [] \<and> d_configs registry_deleted = [] \<and>
   {FGARepoParentTuple ''reg'' ''app'', FGARepoPublicGetTuple ''reg'' ''app''} \<subseteq> granted (d_outbox registry_deleted)"
  by (intro conjI) code_simp+

end
