(* ===== verification/Spec2Isabelle.thy ===== *)
theory Spec2Isabelle
  imports DataPlaneProps PgProps RegistryProps HandlerProps JwksProps ZotProps IamProps StartupProps ProxyProps NameGrammar PgList PgRows HandlerTypes Lifecycle UseCaseFindings
begin

text \<open>
  \<^bold>\<open>kacho-registry in Isabelle/HOL.\<close> The program is the registry service of a cloud: a control plane
  (gRPC) that keeps registries and the durable settings of their repositories, and a data plane
  (HTTP) that lets OCI clients push and pull through an authorizing proxy in front of a storage
  engine, zot. Permissions are decided by another service, kacho-iam, which learns of objects through
  an outbox in the service's own PostgreSQL database. This development models the Go code under
  \<open>src/cmd\<close> and \<open>src/internal\<close> and the constraints of the SQL under \<open>src/internal/migrations\<close>.

  \<^bold>\<open>How the parts interact.\<close> A call arrives at a handler, which authorizes it and starts a use case; a
  mutation opens an operation and leaves the work to a worker, which writes the database - an entity
  and the intent that tells iam of it in one transaction - and asks the engine. The drainer delivers
  the intents. A request to the data plane carries a token; the verifier turns it into a subject, the
  path into a repository, iam is asked, and only then the request goes to the engine; a push leaves
  the records by which its author can read it back before iam knows of it.

  \<^bold>\<open>Conventions.\<close> Strings are bytes. Go functions that may fail return \<open>error + result\<close>; an error is a
  wrapped sentinel, a gRPC status or a plain text (\<open>Errors\<close>). Effects are state transformers of
  \<open>State_Monad\<close>. What a component calls but does not contain is a record of functions: the ports of
  the data plane, the peers of the use cases, the host of the start. They may answer anything,
  differently each time, and may change the rest of the state, so that a theorem about one request is
  also one about a request among others. What the code relies on of them is a named predicate of the
  theorem. Labels are association lists in place of Go maps. Times are nanoseconds since the zero
  time. Integers are unbounded where the code only compares them, and reduced by \<open>wrap64\<close> and \<open>wrap32\<close>
  (\<open>Wrap\<close>) where it computes.

  \<^bold>\<open>Theories and sources.\<close>
  \<^item> \<open>Prelude\<close>: state transformers, rules that execute them (\<open>run\<close>, \<open>wp\<close>), Go's \<open>strings\<close>; the locale
    \<open>guaranteed\<close> of relations between states that every step respects, on which the invariants of the
    store, the use cases, the verifier, the adapter and the typing of errors rest. \<open>GoStd\<close>, \<open>Wrap\<close>,
    \<open>Json\<close>, \<open>JsonCut\<close>, \<open>Rfc3339\<close>, \<open>Regex\<close>: what is used of the standard library - decimal numbers, base64, percent
    encoding, runes, the text of JSON documents, also cut off, and of times, regular expressions.
  \<^item> \<open>Errors\<close>: \<open>internal/errors\<close>, \<open>shared/serviceerr\<close>, \<open>errmap.go\<close>, \<open>maperr.go\<close>.
  \<^item> \<open>DomainTypes\<close>, \<open>Fga\<close>, \<open>Payload\<close>, \<open>NameGrammar\<close>: \<open>internal/domain\<close> - entities and their validation,
    tuples and intents, the text of an intent, and the grammar of repository names.
  \<^item> \<open>Paging\<close>, \<open>OciPath\<close>, \<open>DataPlane\<close>, \<open>DataPlaneSafety\<close>, \<open>DataPlaneProps\<close>, \<open>Proxy\<close>, \<open>ProxyProps\<close>:
    \<open>shared/namepage\<close> and \<open>internal/dataplane\<close>. \<open>ServeHTTP\<close> runs over the ports and leaves the trace of its
    calls and of its answer.
  \<^item> \<open>PgStore\<close>, \<open>PgList\<close>, \<open>PgRows\<close>, \<open>PgProps\<close>: \<open>internal/repo/kacho/pg\<close> with the tables of the migrations;
    transactions, constraints, cascades, the trigger of the outbox, and faults before or after any
    exchange with the server.
  \<^item> \<open>UseCases\<close>, \<open>RepoUseCases\<close>: \<open>apps/kacho/api/registry\<close>. A started worker is a \<open>job\<close>, \<open>sys_step\<close> lets
    requests, workers and others interleave. \<open>UseCaseProps\<close>, \<open>RegistryProps\<close>, \<open>PublicGrants\<close> and
    \<open>GrantGovernance\<close> hold what is proved of them, \<open>UseCaseFindings\<close> runs that go wrong.
  \<^item> \<open>Handlers\<close>, \<open>HandlerProps\<close>, \<open>HandlerTypes\<close>: \<open>internal/handler\<close> and \<open>internal/check/permission_map.go\<close>.
  \<^item> \<open>Jwks\<close>, \<open>JwksProps\<close>: \<open>clients/jwks\<close>. \<open>Search\<close>, \<open>ZotClient\<close>, \<open>ZotProps\<close>: \<open>clients/zot\<close>, with the
    text of its search queries. \<open>IamClients\<close>, \<open>IamProps\<close>:
    \<open>clients/iam\<close> and the rest of \<open>internal/check\<close>.
  \<^item> \<open>Startup\<close>, \<open>StartupProps\<close>, \<open>Lifecycle\<close>: \<open>apps/kacho/config\<close> and \<open>src/cmd\<close> - configuration, guards,
    wiring, listeners, the shutdown and both \<open>main\<close> functions.
\<close>

text \<open>
  \<^bold>\<open>What is shown.\<close>
  \<^item> Who may do what: no request reaches the engine without a genuine token and the checks its route
    demands - where the recorded push or upload of its author may stand in for iam and the engine -, from
    the start of the process over the verifier to the proxy; a refused pull is the same as an absent repository; failures of a dependency close the request; the
    handlers open no operation before the checks they make have been answered yes, lists show exactly what the caller
    may see, and the process starts only with its guards in place.
  \<^item> What is stored: the invariant of the schema over every history of operations and faults, rows
    and intents written together, registries that only go forward, a refinement of the table to a
    catalogue, columns, payloads and cursors that read back as what was written, and the agreement of
    public overlays with the public grants.
  \<^item> What others rely on: every operation a request opens has exactly one worker, a registry or a repository is
    deleted only after the engine has confirmed that it is empty, a confirmed intent has been applied
    completely, the pages of a walk list each item once, a rename does not lose a tag, an engine that does not answer
    is not taken for an empty one, errors leave as statuses, and a shutdown waits for what runs.
  \<^item> Where the code falls short, runs are evaluated that show it: \<open>admin_gate_can_be_passed\<close>,
    \<open>expired_key_is_served\<close>, \<open>rename_race_leaves_public_grant\<close>, \<open>rename_loses_a_concurrent_push\<close>,
    \<open>rename_truncates_a_long_manifest\<close>, \<open>informational_status_hides_success\<close>,
    \<open>ill_formed_name_is_replaced\<close>, \<open>overlay_calls_have_no_permission\<close>, \<open>breakglass_keeps_list_checks\<close> and the theorems of
    \<open>UseCaseFindings\<close>. The theorems next to them carry what excludes the run as a
    hypothesis.

  \<^bold>\<open>Interfaces.\<close> \<open>paging\<close> is the contract of a page function: what follows from it, that walking the
  cursors gives everything once, is proved once and holds of the windows by offset and by name, of the
  catalogue of the data plane and of the query on registries. \<open>guarantee\<close>, \<open>overlay_guarantee\<close>,
  \<open>store_guarantee\<close>, \<open>env_guarantee\<close> and \<open>system_guarantee\<close> lift a relation from the statements to the
  operations, the workers and the system. \<open>freshness\<close> and its extension \<open>revocable\<close> are the contract of
  the two tables that bridge the time until iam knows of a push.

  \<^bold>\<open>Bounds.\<close> Recursion is structural or has a measure, with three exceptions that carry fuel: the
  parser of JSON gets twice the length of the text plus one, which \<open>json_parse_print\<close> shows to be
  enough for what the printer writes, and refuses more than 10000 levels, as Go does; trimming a text
  of spaces gets its length, of which each round takes one byte; and a client that walks pages is
  given as many rounds as there are items and one more. The loops of the program that do not end, the
  sweepers and the servers, are functions of the events they receive or a step relation.

  \<^bold>\<open>Not modelled.\<close> Code outside the repository is a parameter: the validation, filter, operations,
  drainer, retry and interceptor packages of kacho-corelib, the generated stubs and messages, gRPC and
  HTTP servers, the driver of PostgreSQL (the tables and constraints are modelled, its locks only as
  the order of transactions), goose and the reading of environment variables. So are the primitives
  RSA, ECDSA and SHA-256, the zone of the host, the lenient part of Go's parser of times and its table of printable runes. Logging is left
  out; a deadline is an error that a call may return. The calls of an error group, which the program
  runs in parallel, run in the order of their rows, with a parameter for how many the scheduler had
  started where the code stops early. An alias of a library constant (\<open>shared/lro\<close>) and documentation
  packages have no logic of their own.
\<close>

end
